theory Spec2Isabelle
  imports Complex_Main "HOL-Library.List_Lexorder" "HOL-Library.Multiset"
begin

section \<open>Python values and errors\<close>

text \<open>
  The descriptors compute with NumPy floating-point numbers. They are idealised here as
  real numbers: every statement below is about the exact arithmetic the code describes,
  not about rounding.
\<close>

datatype pyval = PNone | PStr string | PNum real

text \<open>One constructor for each place where the source raises.\<close>

datatype error =
    ValueError_k_is_int
  | ValueError_k_not_a_set
  | ValueError_k_invalid
  | ValueError_unknown_weighting_function
  | ValueError_missing_weighting_value string
  | ValueError_periodic_needs_weighting
  | ValueError_empty_sequence
  | ValueError_shape_mismatch
  | ValueError_negative_dimension
  | KeyError string
  | KeyError_grid_value string
  | KeyError_undeclared_element int
  | AttributeError_none
  | AttributeError_not_sparse
  | IndexError
  | KeyError_combination "nat list"
  | ValueError_nothing_to_concatenate
  | AttributeError_get_k0_settings
  | AssertionError_min_max
  | TypeError_not_a_number
  | NameError_function
  | ZeroDivisionError
  | LinAlgError_singular

text \<open>\<open>d[key]\<close> and \<open>d.get(key)\<close> on a dictionary of Python values.\<close>

definition getitem :: "(string \<rightharpoonup> 'v) \<Rightarrow> string \<Rightarrow> error + 'v" where
  "getitem d key = (case d key of None \<Rightarrow> Inl (KeyError key) | Some v \<Rightarrow> Inr v)"

definition dict_get :: "(string \<rightharpoonup> pyval) \<Rightarrow> string \<Rightarrow> pyval" where
  "dict_get d key = (case d key of None \<Rightarrow> PNone | Some v \<Rightarrow> v)"

text \<open>\<open>int(x)\<close> truncates towards zero.\<close>

definition py_int :: "real \<Rightarrow> int" where
  "py_int x = (if 0 \<le> x then \<lfloor>x\<rfloor> else \<lceil>x\<rceil>)"

text \<open>\<open>"k{}".format(k)\<close> for the supported orders.\<close>

definition kname :: "int \<Rightarrow> string" where
  "kname i = (if i = 1 then ''k1'' else if i = 2 then ''k2'' else ''k3'')"

section \<open>The MBTR descriptor: configuration\<close>

text \<open>
  The argument \<open>k\<close> of the constructor (the attribute \<open>self.k\<close> is the field
  \<open>k_terms\<close> below): an integer (rejected), an iterable of integers, or
  anything that \<open>set(...)\<close> refuses.
\<close>

datatype k_arg = KInt int | KIter "int list" | KOther

type_synonym weight_info = "string \<rightharpoonup> pyval"
type_synonym grid_info = "string \<rightharpoonup> real"

record mbtr =
  k_terms :: k_arg
  atomic_numbers :: "int list"
  grid :: "(string \<rightharpoonup> grid_info) option"
  weighting :: "(string \<rightharpoonup> weight_info option) option"
  periodic :: bool
  normalize_by_volume :: bool
  normalize_gaussians :: bool
  flatten :: bool
  n_elements :: nat
  atomic_number_to_index :: "int \<rightharpoonup> nat"
  index_to_atomic_number :: "nat \<rightharpoonup> int"
  max_atomic_number :: int
  min_atomic_number :: int

text \<open>The requested orders once \<open>update\<close> has turned them into a set.\<close>

definition ks :: "mbtr \<Rightarrow> int list" where
  "ks self = (case k_terms self of KIter xs \<Rightarrow> xs | _ \<Rightarrow> [])"

text \<open>
  \<open>update\<close>, first part: \<open>k\<close> must be a collection whose members are among 1, 2, 3.
  The resulting set is kept as a sorted list without duplicates (the order in which
  CPython iterates over a set of these small integers).
\<close>

definition check_k :: "k_arg \<Rightarrow> error + int list" where
  "check_k ka =
     (case ka of
        KInt _ \<Rightarrow> Inl ValueError_k_is_int
      | KOther \<Rightarrow> Inl ValueError_k_not_a_set
      | KIter xs \<Rightarrow>
          if set xs \<subseteq> {1, 2, 3} then Inr (sort (remdups xs))
          else Inl ValueError_k_invalid)"

text \<open>\<open>update\<close>, second part: the body of the loop over \<open>k\<close> that checks the weighting.\<close>

definition check_needed :: "weight_info \<Rightarrow> string list \<Rightarrow> error + unit" where
  "check_needed weight_info needed =
     (case filter (\<lambda>key. dict_get weight_info key = PNone) needed of
        [] \<Rightarrow> Inr ()
      | key # _ \<Rightarrow> Inl (ValueError_missing_weighting_value key))"

definition check_weighting_k :: "(string \<rightharpoonup> weight_info option) \<Rightarrow> int \<Rightarrow> error + unit" where
  "check_weighting_k w i =
     (if i > 1 then
        (case getitem w (kname i) of
           Inl e \<Rightarrow> Inl e
         | Inr None \<Rightarrow> Inl AttributeError_none
         | Inr (Some weight_info) \<Rightarrow>
             (let function = dict_get weight_info ''function'' in
              if function \<notin> {PStr ''exponential'', PStr ''unity''}
              then Inl ValueError_unknown_weighting_function
              else check_needed weight_info
                     (if function = PStr ''exponential'' then [''cutoff'', ''scale''] else [])))
      else Inr ())"

text \<open>A \<open>for\<close> loop whose body may raise: the first error ends it.\<close>

fun for_each :: "('a \<Rightarrow> error + unit) \<Rightarrow> 'a list \<Rightarrow> error + unit" where
  "for_each body [] = Inr ()"
| "for_each body (x # xs) = (case body x of Inl e \<Rightarrow> Inl e | Inr _ \<Rightarrow> for_each body xs)"

text \<open>
  \<open>update\<close>, third part: a periodic system needs a weighting function other than unity
  for every order above 1.
\<close>

definition check_periodic_k :: "(string \<rightharpoonup> weight_info option) option \<Rightarrow> int \<Rightarrow> error + unit" where
  "check_periodic_k wopt i =
     (if i > 1 then
        (case wopt of
           None \<Rightarrow> Inl ValueError_periodic_needs_weighting
         | Some w \<Rightarrow>
             (case getitem w (kname i) of
                Inl e \<Rightarrow> Inl e
              | Inr None \<Rightarrow> Inl ValueError_periodic_needs_weighting
              | Inr (Some weight_info) \<Rightarrow>
                  (case getitem weight_info ''function'' of
                     Inl e \<Rightarrow> Inl e
                   | Inr function \<Rightarrow>
                       if function = PNone \<or> function = PStr ''unity''
                       then Inl ValueError_periodic_needs_weighting
                       else Inr ())))
      else Inr ())"

text \<open>
  \<open>check_grid\<close>: for every requested order with grid information, the four values must
  be there, \<open>n\<close> is made an integer and stored back, and \<open>min < max\<close> is asserted.
\<close>

definition check_grid_info :: "grid_info \<Rightarrow> error + grid_info" where
  "check_grid_info info =
     (case filter (\<lambda>val_name. info val_name = None) [''min'', ''max'', ''sigma'', ''n''] of
        val_name # _ \<Rightarrow> Inl (KeyError_grid_value val_name)
      | [] \<Rightarrow>
          (let info' = info(''n'' \<mapsto> real_of_int (py_int (the (info ''n''))))
           in if the (info' ''min'') < the (info' ''max'') then Inr info'
              else Inl AssertionError_min_max))"

fun check_grid :: "int list \<Rightarrow> (string \<rightharpoonup> grid_info) \<Rightarrow> error + (string \<rightharpoonup> grid_info)" where
  "check_grid [] g = Inr g"
| "check_grid (i # is) g =
     (case g (kname i) of
        None \<Rightarrow> check_grid is g
      | Some info \<Rightarrow>
          (case check_grid_info info of
             Inl e \<Rightarrow> Inl e
           | Inr info' \<Rightarrow> check_grid is (g(kname i \<mapsto> info'))))"

text \<open>
  \<open>update\<close>, last part: the atomic numbers are sorted and numbered; a later occurrence of
  a number overwrites the index of an earlier one, as the dictionary assignment does.
\<close>

definition index_maps :: "int list \<Rightarrow> (int \<rightharpoonup> nat) \<times> (nat \<rightharpoonup> int)" where
  "index_maps nums =
     fold (\<lambda>(i_atom, atomic_number) (a2i, i2a).
             (a2i(atomic_number \<mapsto> i_atom), i2a(i_atom \<mapsto> atomic_number)))
          (zip [0 ..< length nums] nums) (Map.empty, Map.empty)"

definition update :: "mbtr \<Rightarrow> error + mbtr" where
  "update self =
     (case check_k (k_terms self) of
        Inl e \<Rightarrow> Inl e
      | Inr kset \<Rightarrow>
     (case (case weighting self of
              None \<Rightarrow> Inr ()
            | Some w \<Rightarrow> for_each (check_weighting_k w) kset) of
        Inl e \<Rightarrow> Inl e
      | Inr _ \<Rightarrow>
     (case (if periodic self then for_each (check_periodic_k (weighting self)) kset
            else Inr ()) of
        Inl e \<Rightarrow> Inl e
      | Inr _ \<Rightarrow>
     (case (case grid self of
              None \<Rightarrow> Inr None
            | Some g \<Rightarrow>
                (case check_grid kset g of Inl e \<Rightarrow> Inl e | Inr g' \<Rightarrow> Inr (Some g'))) of
        Inl e \<Rightarrow> Inl e
      | Inr grid' \<Rightarrow>
          (let nums = sort (atomic_numbers self)
           in if nums = [] then Inl ValueError_empty_sequence
              else Inr (self\<lparr>k_terms := KIter kset,
                              grid := grid',
                              atomic_numbers := nums,
                              atomic_number_to_index := fst (index_maps nums),
                              index_to_atomic_number := snd (index_maps nums),
                              n_elements := length nums,
                              max_atomic_number := Max (set nums),
                              min_atomic_number := Min (set nums)\<rparr>))))))"

text \<open>
  The constructor: duplicates among the atomic numbers are removed, the per-system
  fields start empty, and \<open>update\<close> runs.
\<close>

definition init ::
  "int list \<Rightarrow> k_arg \<Rightarrow> bool \<Rightarrow> (string \<rightharpoonup> grid_info) option \<Rightarrow>
   (string \<rightharpoonup> weight_info option) option \<Rightarrow> bool \<Rightarrow> bool \<Rightarrow> bool \<Rightarrow> error + mbtr" where
  "init atomic_numbers0 k0 periodic0 grid0 weighting0 normalize_by_volume0
        normalize_gaussians0 flatten0 =
     update \<lparr>k_terms = k0, atomic_numbers = remdups atomic_numbers0, grid = grid0,
             weighting = weighting0, periodic = periodic0,
             normalize_by_volume = normalize_by_volume0,
             normalize_gaussians = normalize_gaussians0, flatten = flatten0,
             n_elements = 0, atomic_number_to_index = Map.empty,
             index_to_atomic_number = Map.empty,
             max_atomic_number = 0, min_atomic_number = 0\<rparr>"

section \<open>Grid settings\<close>

record settings =
  grid_min :: real
  grid_max :: real
  grid_sigma :: real
  grid_n :: int

definition decay_factor :: real where
  "decay_factor = sqrt 2 * 3"

text \<open>
  An explicit grid entry is returned as it is; its values are read by key where they are
  used, which is where a missing one raises.
\<close>

definition settings_of :: "grid_info \<Rightarrow> error + settings" where
  "settings_of info =
     (case getitem info ''min'' of Inl e \<Rightarrow> Inl e | Inr start \<Rightarrow>
     (case getitem info ''max'' of Inl e \<Rightarrow> Inl e | Inr stop \<Rightarrow>
     (case getitem info ''sigma'' of Inl e \<Rightarrow> Inl e | Inr sg \<Rightarrow>
     (case getitem info ''n'' of Inl e \<Rightarrow> Inl e | Inr m \<Rightarrow>
        Inr \<lparr>grid_min = start, grid_max = stop, grid_sigma = sg, grid_n = py_int m\<rparr>))))"

definition grid_entry :: "mbtr \<Rightarrow> string \<Rightarrow> grid_info option" where
  "grid_entry self key = (case grid self of None \<Rightarrow> None | Some g \<Rightarrow> g key)"

definition get_k1_settings :: "mbtr \<Rightarrow> error + settings" where
  "get_k1_settings self =
     (case grid_entry self ''k1'' of
        Some info \<Rightarrow> settings_of info
      | None \<Rightarrow>
          (let sigma = 1 / 10;
               min_k = real_of_int (min_atomic_number self) - decay_factor * sigma;
               max_k = real_of_int (max_atomic_number self) + decay_factor * sigma
           in Inr \<lparr>grid_min = min_k, grid_max = max_k, grid_sigma = sigma,
                   grid_n = py_int (real_of_int \<lceil>(max_k - min_k) / sigma / 4\<rceil> + 1)\<rparr>))"

definition get_k2_settings :: "mbtr \<Rightarrow> error + settings" where
  "get_k2_settings self =
     (case grid_entry self ''k2'' of
        Some info \<Rightarrow> settings_of info
      | None \<Rightarrow>
          (let sigma = 2 powr (- 7);
               min_k = 0 - decay_factor * sigma;
               max_k = 1 / (7 / 10) + decay_factor * sigma
           in Inr \<lparr>grid_min = min_k, grid_max = max_k, grid_sigma = sigma,
                   grid_n = py_int (real_of_int \<lceil>(max_k - min_k) / sigma / 4\<rceil> + 1)\<rparr>))"

definition get_k3_settings :: "mbtr \<Rightarrow> error + settings" where
  "get_k3_settings self =
     (case grid_entry self ''k3'' of
        Some info \<Rightarrow> settings_of info
      | None \<Rightarrow>
          (let sigma = 2 powr (- (7 / 2));
               min_k = - 1 - decay_factor * sigma;
               max_k = 1 + decay_factor * sigma
           in Inr \<lparr>grid_min = min_k, grid_max = max_k, grid_sigma = sigma,
                   grid_n = py_int (real_of_int \<lceil>(max_k - min_k) / sigma / 4\<rceil> + 1)\<rparr>))"

section \<open>Gaussian broadening\<close>

text \<open>
  The error function of SciPy, as the sum of its power series
  \<open>2/sqrt(pi) * sum_n (-1)^n x^(2n+1) / (n! (2n+1))\<close>.
\<close>

definition erf :: "real \<Rightarrow> real" where
  "erf x = 2 / sqrt pi * (\<Sum>n. (- 1) ^ n * x ^ (2 * n + 1) / (fact n * real (2 * n + 1)))"

text \<open>
  \<open>np.linspace(start, stop, num)\<close>: \<open>arange(0, num) * step + start\<close> with
  \<open>step = (stop - start) / (num - 1)\<close>, and the last point set to \<open>stop\<close> when there is
  more than one point. With a single point the step plays no role.
\<close>

definition linspace :: "real \<Rightarrow> real \<Rightarrow> nat \<Rightarrow> real list" where
  "linspace start stop num =
     (let step = (stop - start) / (real num - 1);
          y = map (\<lambda>i. real i * step + start) [0 ..< num]
      in if num > 1 then y[num - 1 := stop] else y)"

text \<open>
  \<open>weights[:, np.newaxis] * rows\<close>: the column of weights is broadcast against the rows;
  the shapes must agree unless one of them has a single row.
\<close>

definition broadcast_rows :: "real list \<Rightarrow> 'a list \<Rightarrow> error + (real \<times> 'a) list" where
  "broadcast_rows weights rows =
     (if length weights = length rows then Inr (zip weights rows)
      else if length weights = 1 then Inr (map (\<lambda>row. (hd weights, row)) rows)
      else if length rows = 1 then Inr (map (\<lambda>w. (w, hd rows)) weights)
      else Inl ValueError_shape_mismatch)"

text \<open>\<open>np.sum(y, axis=0)\<close> for rows of the given width.\<close>

definition sum_axis0 :: "nat \<Rightarrow> real list list \<Rightarrow> real list" where
  "sum_axis0 width y = map (\<lambda>j. sum_list (map (\<lambda>row. row ! j) y)) [0 ..< width]"

text \<open>
  \<open>gaussian_sum\<close>. The division by \<open>n - 1\<close> raises for \<open>n = 1\<close>, \<open>linspace\<close> refuses a
  negative number of points, and \<open>1/(sigma*math.sqrt(2*math.pi))\<close> raises for
  \<open>sigma = 0\<close>.
\<close>

definition gaussian_sum :: "mbtr \<Rightarrow> real list \<Rightarrow> real list \<Rightarrow> settings \<Rightarrow> error + real list" where
  "gaussian_sum self centers weights settings =
     (let start = grid_min settings;
          stop = grid_max settings;
          sigma = grid_sigma settings;
          n = grid_n settings
      in if n = 1 then Inl ZeroDivisionError
         else
           (let dx = (stop - start) / real_of_int (n - 1)
            in if n + 1 < 0 then Inl ValueError_negative_dimension
               else
                 (let x = linspace (start - dx / 2) (stop + dx / 2) (nat (n + 1));
                      pos = map (\<lambda>c. map (\<lambda>xi. xi - c) x) centers
                  in case broadcast_rows weights pos of
                       Inl e \<Rightarrow> Inl e
                     | Inr wpos \<Rightarrow>
                         (let y = map (\<lambda>(w, row).
                                    map (\<lambda>p. w * 1 / 2 * (1 + erf (p / (sigma * sqrt 2)))) row)
                                    wpos;
                              f = sum_axis0 (nat (n + 1)) y
                          in if \<not> normalize_gaussians self \<and> sigma * sqrt (2 * pi) = 0
                             then Inl ZeroDivisionError
                             else
                               (let f' = (if \<not> normalize_gaussians self
                                          then map (\<lambda>v. v / (1 / (sigma * sqrt (2 * pi)))) f
                                          else f);
                                    f_rolled = rotate1 f';
                                    pdf = map (\<lambda>d. d / dx)
                                            (butlast (map2 (\<lambda>a b. a - b) f_rolled f'))
                                in Inr pdf)))))"

text \<open>
  The broadening as the specification words it: \<open>n + 1\<close> boundary points spaced by \<open>dx\<close>
  from \<open>min - dx/2\<close>, the weighted sum of Gaussian distribution functions at each
  boundary, consecutive differences divided by \<open>dx\<close>, and a division by the peak density
  when the Gaussians are not normalised.
\<close>

definition boundary_point :: "settings \<Rightarrow> nat \<Rightarrow> real" where
  "boundary_point settings j =
     (let dx = (grid_max settings - grid_min settings) / real_of_int (grid_n settings - 1)
      in grid_min settings - dx / 2 + real j * dx)"

definition cumulative_sum :: "(real \<times> real) list \<Rightarrow> settings \<Rightarrow> nat \<Rightarrow> real" where
  "cumulative_sum pairs settings j =
     (\<Sum>(v, w) \<leftarrow> pairs.
         w * 1 / 2 * (1 + erf ((boundary_point settings j - v) / (grid_sigma settings * sqrt 2))))"

definition broaden_spec :: "bool \<Rightarrow> (real \<times> real) list \<Rightarrow> settings \<Rightarrow> real list" where
  "broaden_spec normalized pairs settings =
     (let dx = (grid_max settings - grid_min settings) / real_of_int (grid_n settings - 1);
          density = map (\<lambda>j. (cumulative_sum pairs settings (j + 1)
                                 - cumulative_sum pairs settings j) / dx)
                        [0 ..< nat (grid_n settings)]
      in if normalized then density
         else map (\<lambda>d. d / (1 / (grid_sigma settings * sqrt (2 * pi)))) density)"

section \<open>Atomic systems and the periodic expansion\<close>

type_synonym vec3 = "real \<times> real \<times> real"
type_synonym mat3 = "vec3 \<times> vec3 \<times> vec3"

text \<open>
  The structure handed to the descriptor: one atomic number and one Cartesian position
  for each atom, the three cell vectors (the rows of the cell matrix) and the three
  periodicity flags.
\<close>

record system =
  numbers :: "int list"
  positions :: "vec3 list"
  cell :: mat3
  pbc :: "bool \<times> bool \<times> bool"

definition norm3 :: "vec3 \<Rightarrow> real" where
  "norm3 v = (case v of (x, y, z) \<Rightarrow> sqrt (x\<^sup>2 + y\<^sup>2 + z\<^sup>2))"

definition sub3 :: "vec3 \<Rightarrow> vec3 \<Rightarrow> vec3" where
  "sub3 u v = (case (u, v) of ((a, b, c), (x, y, z)) \<Rightarrow> (a - x, b - y, c - z))"

text \<open>\<open>np.dot(v, cell)\<close>: a row vector times the cell matrix.\<close>

definition vec_mat :: "vec3 \<Rightarrow> mat3 \<Rightarrow> vec3" where
  "vec_mat v m =
     (case (v, m) of ((x, y, z), ((a1, a2, a3), (b1, b2, b3), (c1, c2, c3))) \<Rightarrow>
        (x * a1 + y * b1 + z * c1, x * a2 + y * b2 + z * c2, x * a3 + y * b3 + z * c3))"

definition det3 :: "mat3 \<Rightarrow> real" where
  "det3 m =
     (case m of ((a1, a2, a3), (b1, b2, b3), (c1, c2, c3)) \<Rightarrow>
        a1 * (b2 * c3 - b3 * c2) - a2 * (b1 * c3 - b3 * c1) + a3 * (b1 * c2 - b2 * c1))"

text \<open>\<open>np.linalg.norm(cell, axis=1)\<close>: the lengths of the three cell vectors.\<close>

definition cell_vector_lengths :: "mat3 \<Rightarrow> real list" where
  "cell_vector_lengths m = (case m of (a, b, c) \<Rightarrow> [norm3 a, norm3 b, norm3 c])"

text \<open>
  \<open>get_scaled_positions\<close> of the structure container: the solution \<open>f\<close> of
  \<open>f . cell = position\<close> for every atom (by Cramer's rule; a singular cell raises), taken
  modulo 1 along the periodic directions.
\<close>

definition wrap1 :: "bool \<Rightarrow> real \<Rightarrow> real" where
  "wrap1 periodic_axis x = (if periodic_axis then x - real_of_int \<lfloor>x\<rfloor> else x)"

definition scaled_position :: "mat3 \<Rightarrow> bool \<times> bool \<times> bool \<Rightarrow> vec3 \<Rightarrow> vec3" where
  "scaled_position m flags p =
     (case (m, flags) of ((a, b, c), (pa, pb, pc)) \<Rightarrow>
        (wrap1 pa (det3 (p, b, c) / det3 m),
         wrap1 pb (det3 (a, p, c) / det3 m),
         wrap1 pc (det3 (a, b, p) / det3 m)))"

definition get_scaled_positions :: "system \<Rightarrow> error + vec3 list" where
  "get_scaled_positions s =
     (if det3 (cell s) = 0 then Inl LinAlgError_singular
      else Inr (map (scaled_position (cell s) (pbc s)) (positions s)))"

text \<open>
  The search for the number of copies along one axis: the \<open>while\<close> loop of
  \<open>create_extended_system\<close>, entered with \<open>n_copies = -1\<close>. The distance is measured
  with the length that the loop reads, which is \<open>cell_vector_lengths[0]\<close>. The loop need
  not end, so the result is an option.
\<close>

partial_function (option) find_limit ::
    "(real \<Rightarrow> real) \<Rightarrow> real \<Rightarrow> real \<Rightarrow> int \<Rightarrow> int \<Rightarrow> int option" where
  "find_limit function cutoff length0 term_number n_copies =
     (let n_copies' = n_copies + 1;
          distance = real_of_int n_copies' * length0;
          distance' = (if term_number > 2 then 2 * distance else distance);
          weight = function distance'
      in if weight < cutoff then Some n_copies'
         else find_limit function cutoff length0 term_number n_copies')"

text \<open>
  The weighting data that \<open>create_extended_system\<close> reads: the function name, the
  cutoff and, for the exponential function, the scale. Any other function name leaves
  \<open>function\<close> unbound, which the first call in the loop reports.
\<close>

definition as_number :: "pyval \<Rightarrow> error + real" where
  "as_number v = (case v of PNum x \<Rightarrow> Inr x | _ \<Rightarrow> Inl TypeError_not_a_number)"

definition weighting_of :: "mbtr \<Rightarrow> int \<Rightarrow> error + (real \<Rightarrow> real) \<times> real" where
  "weighting_of self term_number =
     (case weighting self of
        None \<Rightarrow> Inl TypeError_not_a_number
      | Some w \<Rightarrow>
     (case getitem w (kname term_number) of
        Inl e \<Rightarrow> Inl e
      | Inr None \<Rightarrow> Inl TypeError_not_a_number
      | Inr (Some weight_info) \<Rightarrow>
     (case getitem weight_info ''function'' of
        Inl e \<Rightarrow> Inl e
      | Inr weighting_function \<Rightarrow>
     (case getitem weight_info ''cutoff'' of
        Inl e \<Rightarrow> Inl e
      | Inr cutoff_value \<Rightarrow>
          if weighting_function = PStr ''exponential'' then
            (case getitem weight_info ''scale'' of
               Inl e \<Rightarrow> Inl e
             | Inr scale_value \<Rightarrow>
            (case as_number scale_value of
               Inl e \<Rightarrow> Inl e
             | Inr scale \<Rightarrow>
            (case as_number cutoff_value of
               Inl e \<Rightarrow> Inl e
             | Inr cutoff \<Rightarrow> Inr (\<lambda>x. exp (- scale * x), cutoff))))
          else Inl NameError_function))))"

text \<open>
  The loop over the three axes. Every axis is measured with the first cell-vector
  length, as the source reads \<open>cell_vector_lengths[0]\<close> inside the loop.
\<close>

definition n_copies_axis :: "(real \<Rightarrow> real) \<Rightarrow> real \<Rightarrow> real list \<Rightarrow> int \<Rightarrow> int list option" where
  "n_copies_axis function cutoff lengths term_number =
     those (map (\<lambda>axis_length. find_limit function cutoff (lengths ! 0) term_number (- 1))
                lengths)"

text \<open>The shifts of the triple loop, in its order, without the origin.\<close>

definition shifts :: "int list \<Rightarrow> (int \<times> int \<times> int) list" where
  "shifts n =
     filter (\<lambda>(i, j, k). \<not> (i = 0 \<and> j = 0 \<and> k = 0))
       (concat (map (\<lambda>i. concat (map (\<lambda>j. map (\<lambda>k. (i, j, k)) [- (n ! 2) .. n ! 2])
                                          [- (n ! 1) .. n ! 1]))
                    [- (n ! 0) .. n ! 0]))"

text \<open>
  One periodic copy: the shifted atoms, and the mask that keeps an atom when its weight
  to at least one atom of the original cell reaches the cutoff.
\<close>

definition pos_copy_cartesian :: "vec3 list \<Rightarrow> mat3 \<Rightarrow> int \<times> int \<times> int \<Rightarrow> vec3 list" where
  "pos_copy_cartesian relative_pos m shift =
     (case shift of (i, j, k) \<Rightarrow>
        map (\<lambda>f. vec_mat (sub3 f (real_of_int i, real_of_int j, real_of_int k)) m)
            relative_pos)"

definition valids_mask ::
    "(real \<Rightarrow> real) \<Rightarrow> real \<Rightarrow> int \<Rightarrow> vec3 list \<Rightarrow> vec3 list \<Rightarrow> bool list" where
  "valids_mask function cutoff term_number copies cartesian_pos =
     map (\<lambda>p. list_ex (\<lambda>q. let distance = norm3 (sub3 p q);
                               distance' = (if term_number > 2 then distance * 2 else distance)
                           in function distance' \<ge> cutoff)
                      cartesian_pos)
         copies"

definition masked :: "bool list \<Rightarrow> 'a list \<Rightarrow> 'a list" where
  "masked valids xs = map snd (filter fst (zip valids xs))"

text \<open>
  The body of the triple loop: for every shift, the atoms of the copy that pass the mask,
  with their atomic numbers.
\<close>

definition copies ::
    "(real \<Rightarrow> real) \<Rightarrow> real \<Rightarrow> int \<Rightarrow> vec3 list \<Rightarrow> mat3 \<Rightarrow> vec3 list \<Rightarrow> int list \<Rightarrow>
     int list \<Rightarrow> (vec3 list \<times> int list) list" where
  "copies function cutoff term_number relative_pos m cartesian_pos nums n =
     map (\<lambda>shift.
            let pos_copy = pos_copy_cartesian relative_pos m shift;
                valids = valids_mask function cutoff term_number pos_copy cartesian_pos
            in (masked valids pos_copy, masked valids nums))
         (shifts n)"

text \<open>
  \<open>create_extended_system\<close>. The result is \<open>None\<close> when the search for the number of
  copies does not end.
\<close>

definition create_extended_system :: "mbtr \<Rightarrow> system \<Rightarrow> int \<Rightarrow> (error + system) option" where
  "create_extended_system self primitive_system term_number =
     (case get_scaled_positions primitive_system of
        Inl e \<Rightarrow> Some (Inl e)
      | Inr relative_pos \<Rightarrow>
     (case weighting_of self term_number of
        Inl e \<Rightarrow> Some (Inl e)
      | Inr (function, cutoff) \<Rightarrow>
     (case n_copies_axis function cutoff (cell_vector_lengths (cell primitive_system))
             term_number of
        None \<Rightarrow> None
      | Some n \<Rightarrow>
          (let cartesian_pos = positions primitive_system;
               extended = copies function cutoff term_number relative_pos
                            (cell primitive_system) cartesian_pos
                            (numbers primitive_system) n
           in Some (Inr \<lparr>numbers = numbers primitive_system @ concat (map snd extended),
                          positions = cartesian_pos @ concat (map fst extended),
                          cell = cell primitive_system,
                          pbc = (False, False, False)\<rparr>)))))"

section \<open>Geometry aggregation and tensor assembly\<close>

text \<open>
  The dictionaries that the geometry aggregation returns: from tuples of element indices
  to lists of values. A dictionary is kept as an association list; its keys are read
  sorted, as \<open>sorted(d.keys())\<close> does (tuples compare lexicographically).
\<close>

type_synonym comb_map = "(nat list \<times> real list) list"

definition sorted_keys :: "comb_map \<Rightarrow> nat list list" where
  "sorted_keys d = sort (remdups (map fst d))"

definition comb_getitem :: "comb_map option \<Rightarrow> nat list \<Rightarrow> error + real list" where
  "comb_getitem d key =
     (case d of
        None \<Rightarrow> Inl TypeError_not_a_number
      | Some kv \<Rightarrow>
          (case map_of kv key of None \<Rightarrow> Inl (KeyError_combination key) | Some v \<Rightarrow> Inr v))"

text \<open>
  The aggregation itself is the compiled extension \<open>CMBTRWrapper\<close>, which is not part of
  the Python sources: it is a parameter of the model. It receives the order, the
  structure, the index of every atomic number, the number of atoms in the original cell,
  the name of the weighting function and its parameters, and returns the geometry values
  and the weights.
\<close>

type_synonym aggregator =
  "int \<Rightarrow> system \<Rightarrow> (int \<rightharpoonup> nat) \<Rightarrow> nat \<Rightarrow> string \<Rightarrow> (string \<rightharpoonup> pyval) \<Rightarrow> comb_map \<times> comb_map"

text \<open>The per-system values that \<open>initialize_scalars\<close> resets and fills.\<close>

record scalars =
  n_atoms_in_cell :: nat
  present_indices :: "nat set"
  k1_geoms :: "comb_map option"
  k1_weights :: "comb_map option"
  k2_geoms :: "comb_map option"
  k2_weights :: "comb_map option"
  k3_geoms :: "comb_map option"
  k3_weights :: "comb_map option"

text \<open>
  An output tensor: a sparse matrix with a single row, kept as the list of its entries,
  or a dense array with its shape and its entries in row-major order.
\<close>

datatype tensor = Sparse "real list" | Dense "nat list" "real list"

text \<open>
  \<open>row[0, start:stop] = vals\<close> on a sparse row: the slice is cut at the width of the row,
  and the values must fill it exactly.
\<close>

definition set_slice :: "real list \<Rightarrow> nat \<Rightarrow> nat \<Rightarrow> real list \<Rightarrow> error + real list" where
  "set_slice row start stop vals =
     (let s = min start (length row);
          e = max s (min stop (length row))
      in if length vals = e - s then Inr (take s row @ vals @ drop e row)
         else Inl ValueError_shape_mismatch)"

text \<open>
  \<open>array[i, j, ..., :] = vals\<close> on a dense array: every index must be inside its
  dimension, and the values must fill the last dimension.
\<close>

fun flat_offset :: "nat list \<Rightarrow> nat list \<Rightarrow> nat option" where
  "flat_offset [] shape = Some 0"
| "flat_offset (i # is) [] = None"
| "flat_offset (i # is) (d # ds) =
     (if i < d then map_option (\<lambda>r. i * prod_list ds + r) (flat_offset is ds) else None)"

definition set_last_axis :: "tensor \<Rightarrow> nat list \<Rightarrow> real list \<Rightarrow> error + tensor" where
  "set_last_axis t idx vals =
     (case t of
        Sparse _ \<Rightarrow> Inl IndexError
      | Dense shape entries \<Rightarrow>
          (case flat_offset idx (butlast shape) of
             None \<Rightarrow> Inl IndexError
           | Some r \<Rightarrow>
               if length vals = last shape
               then Inr (Dense shape (take (r * last shape) entries @ vals
                                       @ drop (r * last shape + last shape) entries))
               else Inl ValueError_shape_mismatch))"

text \<open>A \<open>for\<close> loop that updates a value and may raise.\<close>

fun for_loop :: "('a \<Rightarrow> 's \<Rightarrow> error + 's) \<Rightarrow> 'a list \<Rightarrow> 's \<Rightarrow> error + 's" where
  "for_loop body [] s = Inr s"
| "for_loop body (x # xs) s =
     (case body x s of Inl e \<Rightarrow> Inl e | Inr s' \<Rightarrow> for_loop body xs s')"

definition enumerate_keys :: "'a list \<Rightarrow> (nat \<times> 'a) list" where
  "enumerate_keys xs = zip [0 ..< length xs] xs"

text \<open>
  The common body of the loops of \<open>K1\<close>, \<open>K2\<close> and \<open>K3\<close>: the values and weights of the
  combination are broadened.
\<close>

definition broadened ::
    "mbtr \<Rightarrow> settings \<Rightarrow> comb_map \<Rightarrow> comb_map option \<Rightarrow> nat list \<Rightarrow> error + real list" where
  "broadened self settings geoms weights key =
     (case comb_getitem (Some geoms) key of
        Inl e \<Rightarrow> Inl e
      | Inr g \<Rightarrow>
          (case comb_getitem weights key of
             Inl e \<Rightarrow> Inl e
           | Inr w \<Rightarrow> gaussian_sum self g w settings))"

text \<open>
  \<open>K1\<close>: the flattened output has one block of \<open>n\<close> columns for each element, and the
  block of a combination starts at \<open>i*n\<close>, \<open>i\<close> being the element index in its key.
\<close>

definition K1 :: "mbtr \<Rightarrow> settings \<Rightarrow> scalars \<Rightarrow> error + tensor" where
  "K1 self settings sc =
     (let n = grid_n settings; n_elem = n_elements self
      in if n < 0 then Inl ValueError_negative_dimension
         else
           (case k1_geoms sc of
              None \<Rightarrow> Inl AttributeError_none
            | Some geoms \<Rightarrow>
                for_loop
                  (\<lambda>(m, key) k1.
                     if key = [] then Inl IndexError
                     else
                       (let i = key ! 0
                        in case broadened self settings geoms (k1_weights sc) key of
                             Inl e \<Rightarrow> Inl e
                           | Inr gs \<Rightarrow>
                               (case k1 of
                                  Sparse row \<Rightarrow>
                                    map_sum id Sparse
                                      (set_slice row (i * nat n) ((i + 1) * nat n) gs)
                                | Dense _ _ \<Rightarrow> set_last_axis k1 [i] gs)))
                  (enumerate_keys (sorted_keys geoms))
                  (if flatten self then Sparse (replicate (n_elem * nat n) 0)
                   else Dense [n_elem, nat n] (replicate (n_elem * nat n) 0))))"

text \<open>
  \<open>K2\<close>: the flattened output has \<open>int(n_elem*(n_elem+1)/2*n)\<close> columns, and the block of
  a combination starts at \<open>m*n\<close>, \<open>m\<close> being the position of its key among the sorted keys
  of the dictionary.
\<close>

definition K2 :: "mbtr \<Rightarrow> settings \<Rightarrow> scalars \<Rightarrow> error + tensor" where
  "K2 self settings sc =
     (let n = grid_n settings; n_elem = n_elements self
      in if n < 0 then Inl ValueError_negative_dimension
         else
           (case k2_geoms sc of
              None \<Rightarrow> Inl AttributeError_none
            | Some geoms \<Rightarrow>
                for_loop
                  (\<lambda>(m, key) k2.
                     if length key < 2 then Inl IndexError
                     else
                       (let i = key ! 0; j = key ! 1
                        in case broadened self settings geoms (k2_weights sc) key of
                             Inl e \<Rightarrow> Inl e
                           | Inr gs \<Rightarrow>
                               (case k2 of
                                  Sparse row \<Rightarrow>
                                    map_sum id Sparse
                                      (set_slice row (m * nat n) ((m + 1) * nat n) gs)
                                | Dense _ _ \<Rightarrow> set_last_axis k2 [i, j] gs)))
                  (enumerate_keys (sorted_keys geoms))
                  (if flatten self
                   then Sparse (replicate
                          (nat (py_int (real n_elem * (real n_elem + 1) / 2 * real_of_int n))) 0)
                   else Dense [n_elem, n_elem, nat n]
                          (replicate (n_elem * n_elem * nat n) 0))))"

text \<open>\<open>K3\<close>: as \<open>K2\<close>, with \<open>int(n_elem*n_elem*(n_elem+1)/2*n)\<close> columns.\<close>

definition K3 :: "mbtr \<Rightarrow> settings \<Rightarrow> scalars \<Rightarrow> error + tensor" where
  "K3 self settings sc =
     (let n = grid_n settings; n_elem = n_elements self
      in if n < 0 then Inl ValueError_negative_dimension
         else
           (case k3_geoms sc of
              None \<Rightarrow> Inl AttributeError_none
            | Some geoms \<Rightarrow>
                for_loop
                  (\<lambda>(m, key) k3.
                     if length key < 3 then Inl IndexError
                     else
                       (let i = key ! 0; j = key ! 1; l = key ! 2
                        in case broadened self settings geoms (k3_weights sc) key of
                             Inl e \<Rightarrow> Inl e
                           | Inr gs \<Rightarrow>
                               (case k3 of
                                  Sparse row \<Rightarrow>
                                    map_sum id Sparse
                                      (set_slice row (m * nat n) ((m + 1) * nat n) gs)
                                | Dense _ _ \<Rightarrow> set_last_axis k3 [i, j, l] gs)))
                  (enumerate_keys (sorted_keys geoms))
                  (if flatten self
                   then Sparse (replicate
                          (nat (py_int (real n_elem * real n_elem * (real n_elem + 1) / 2
                                         * real_of_int n))) 0)
                   else Dense [n_elem, n_elem, n_elem, nat n]
                          (replicate (n_elem * n_elem * n_elem * nat n) 0))))"

section \<open>The descriptor: \<open>describe\<close>\<close>

text \<open>
  The weighting function name and the parameters that \<open>k2_geoms_and_weights\<close> and
  \<open>k3_geoms_and_weights\<close> hand to the aggregation.
\<close>

definition weight_parameters :: "mbtr \<Rightarrow> string \<Rightarrow> error + string \<times> (string \<rightharpoonup> pyval)" where
  "weight_parameters self key =
     (case weighting self of
        None \<Rightarrow> Inr (''unity'', Map.empty)
      | Some w \<Rightarrow>
     (case getitem w key of
        Inl e \<Rightarrow> Inl e
      | Inr None \<Rightarrow> Inl TypeError_not_a_number
      | Inr (Some weight_info) \<Rightarrow>
     (case getitem weight_info ''function'' of
        Inl e \<Rightarrow> Inl e
      | Inr weighting_function \<Rightarrow>
          if weighting_function = PStr ''exponential'' then
            (case getitem weight_info ''scale'' of
               Inl e \<Rightarrow> Inl e
             | Inr scale \<Rightarrow>
            (case getitem weight_info ''cutoff'' of
               Inl e \<Rightarrow> Inl e
             | Inr cutoff \<Rightarrow>
                 Inr (''exponential'', [''scale'' \<mapsto> scale, ''cutoff'' \<mapsto> cutoff])))
          else
            (case weighting_function of
               PStr name \<Rightarrow> Inr (name, Map.empty)
             | _ \<Rightarrow> Inl AttributeError_none))))"

definition k1_geoms_and_weights :: "aggregator \<Rightarrow> mbtr \<Rightarrow> scalars \<Rightarrow> system \<Rightarrow> scalars" where
  "k1_geoms_and_weights agg self sc s =
     (if k1_geoms sc = None \<or> k1_weights sc = None then
        (let (g, w) = agg 1 s (atomic_number_to_index self) (n_atoms_in_cell sc)
                        ''unity'' Map.empty
         in sc\<lparr>k1_geoms := Some g, k1_weights := Some w\<rparr>)
      else sc)"

definition k2_geoms_and_weights ::
    "aggregator \<Rightarrow> mbtr \<Rightarrow> scalars \<Rightarrow> system \<Rightarrow> error + scalars" where
  "k2_geoms_and_weights agg self sc s =
     (if k2_geoms sc = None \<or> k2_weights sc = None then
        (case weight_parameters self ''k2'' of
           Inl e \<Rightarrow> Inl e
         | Inr (weighting_function, parameters) \<Rightarrow>
             (let (g, w) = agg 2 s (atomic_number_to_index self) (n_atoms_in_cell sc)
                             weighting_function parameters
              in Inr (sc\<lparr>k2_geoms := Some g, k2_weights := Some w\<rparr>)))
      else Inr sc)"

text \<open>The test of the third cache reads \<open>_k2_weights\<close>, as the source does.\<close>

definition k3_geoms_and_weights ::
    "aggregator \<Rightarrow> mbtr \<Rightarrow> scalars \<Rightarrow> system \<Rightarrow> error + scalars" where
  "k3_geoms_and_weights agg self sc s =
     (if k3_geoms sc = None \<or> k2_weights sc = None then
        (case weight_parameters self ''k3'' of
           Inl e \<Rightarrow> Inl e
         | Inr (weighting_function, parameters) \<Rightarrow>
             (let (g, w) = agg 3 s (atomic_number_to_index self) (n_atoms_in_cell sc)
                             weighting_function parameters
              in Inr (sc\<lparr>k3_geoms := Some g, k3_weights := Some w\<rparr>)))
      else Inr sc)"

text \<open>
  A run of the descriptor records the calls that process the structure, so that "before
  any aggregation or expansion" can be stated: a run is \<open>None\<close> when it does not end, and
  otherwise the calls made, in order, with the error raised or the value returned.
\<close>

datatype event = Expansion int | Aggregation int

type_synonym 'a run = "(event list \<times> (error + 'a)) option"

definition returns :: "'a \<Rightarrow> 'a run" where
  "returns a = Some ([], Inr a)"

definition raises :: "error \<Rightarrow> 'a run" where
  "raises e = Some ([], Inl e)"

definition emit :: "event \<Rightarrow> unit run" where
  "emit ev = Some ([ev], Inr ())"

definition then_run :: "'a run \<Rightarrow> ('a \<Rightarrow> 'b run) \<Rightarrow> 'b run" where
  "then_run r f =
     (case r of
        None \<Rightarrow> None
      | Some (evs, Inl e) \<Rightarrow> Some (evs, Inl e)
      | Some (evs, Inr a) \<Rightarrow>
          (case f a of None \<Rightarrow> None | Some (evs', x) \<Rightarrow> Some (evs @ evs', x)))"

definition of_sum :: "error + 'a \<Rightarrow> 'a run" where
  "of_sum x = Some ([], x)"

definition of_loop :: "(error + 'a) option \<Rightarrow> 'a run" where
  "of_loop x = map_option (Pair []) x"

text \<open>
  The loop of \<open>initialize_scalars\<close> over the atomic numbers of the structure. Python does
  not fix the order in which a set is read; the numbers are taken in the order of their
  first occurrence.
\<close>

fun collect_indices :: "(int \<rightharpoonup> nat) \<Rightarrow> int list \<Rightarrow> nat set \<Rightarrow> error + nat set" where
  "collect_indices a2i [] present = Inr present"
| "collect_indices a2i (number # rest) present =
     (case a2i number of
        None \<Rightarrow> Inl (KeyError_undeclared_element number)
      | Some index \<Rightarrow> collect_indices a2i rest (insert index present))"

definition system_for :: "mbtr \<Rightarrow> system \<Rightarrow> int \<Rightarrow> system run" where
  "system_for self s term_number =
     (if periodic self
      then then_run (emit (Expansion term_number))
             (\<lambda>_. of_loop (create_extended_system self s term_number))
      else returns s)"

text \<open>
  \<open>initialize_scalars\<close>: the per-system values are reset, \<open>update\<close> runs, the atomic
  numbers of the structure are looked up, and the requested orders are aggregated, orders
  2 and 3 on the extended structure when the configuration is periodic.
\<close>

definition fresh_scalars :: "system \<Rightarrow> nat set \<Rightarrow> scalars" where
  "fresh_scalars s present =
     \<lparr>n_atoms_in_cell = length (numbers s), present_indices = present,
      k1_geoms = None, k1_weights = None, k2_geoms = None,
      k2_weights = None, k3_geoms = None, k3_weights = None\<rparr>"

definition scalars_k1 :: "aggregator \<Rightarrow> mbtr \<Rightarrow> system \<Rightarrow> scalars \<Rightarrow> scalars run" where
  "scalars_k1 agg self s sc =
     (if 1 \<in> set (ks self)
      then then_run (emit (Aggregation 1))
             (\<lambda>_. returns (k1_geoms_and_weights agg self sc s))
      else returns sc)"

definition scalars_k2 :: "aggregator \<Rightarrow> mbtr \<Rightarrow> system \<Rightarrow> scalars \<Rightarrow> scalars run" where
  "scalars_k2 agg self s sc =
     (if 2 \<in> set (ks self)
      then then_run (system_for self s 2) (\<lambda>system_k2.
           then_run (emit (Aggregation 2))
             (\<lambda>_. of_sum (k2_geoms_and_weights agg self sc system_k2)))
      else returns sc)"

definition scalars_k3 :: "aggregator \<Rightarrow> mbtr \<Rightarrow> system \<Rightarrow> scalars \<Rightarrow> scalars run" where
  "scalars_k3 agg self s sc =
     (if 3 \<in> set (ks self)
      then then_run (system_for self s 3) (\<lambda>system_k3.
           then_run (emit (Aggregation 3))
             (\<lambda>_. of_sum (k3_geoms_and_weights agg self sc system_k3)))
      else returns sc)"

definition initialize_scalars :: "aggregator \<Rightarrow> mbtr \<Rightarrow> system \<Rightarrow> (mbtr \<times> scalars) run" where
  "initialize_scalars agg self0 s =
     then_run (of_sum (update self0)) (\<lambda>self.
     then_run (of_sum (collect_indices (atomic_number_to_index self) (remdups (numbers s)) {}))
       (\<lambda>present.
     then_run (scalars_k1 agg self s (fresh_scalars s present)) (\<lambda>sc1.
     then_run (scalars_k2 agg self s sc1) (\<lambda>sc2.
     then_run (scalars_k3 agg self s sc2) (\<lambda>sc3.
     returns (self, sc3))))))"

text \<open>
  \<open>create_with_grid\<close> without a new grid, as \<open>describe\<close> calls it. The volume is that of
  the cell of the structure given to \<open>describe\<close>.
\<close>

datatype descriptor_output = Flat "real list" | Tensors "tensor list"

definition get_volume :: "system \<Rightarrow> real" where
  "get_volume s = \<bar>det3 (cell s)\<bar>"

definition scale_tensor :: "real \<Rightarrow> tensor \<Rightarrow> tensor" where
  "scale_tensor volume t =
     (case t of
        Sparse row \<Rightarrow> Sparse (map (\<lambda>v. v / volume) row)
      | Dense shape entries \<Rightarrow> Dense shape (map (\<lambda>v. v / volume) entries))"

definition order_term ::
    "mbtr \<Rightarrow> int \<Rightarrow> (mbtr \<Rightarrow> error + settings) \<Rightarrow> (settings \<Rightarrow> error + tensor) \<Rightarrow>
     error + tensor list" where
  "order_term self i get_settings K =
     (if i \<in> set (ks self)
      then (case get_settings self of
              Inl e \<Rightarrow> Inl e
            | Inr settings_k \<Rightarrow> map_sum id (\<lambda>t. [t]) (K settings_k))
      else Inr [])"

fun sparse_rows :: "tensor list \<Rightarrow> error + real list list" where
  "sparse_rows [] = Inr []"
| "sparse_rows (Sparse row # ts) = map_sum id (\<lambda>rows. row # rows) (sparse_rows ts)"
| "sparse_rows (Dense shape entries # ts) = Inl AttributeError_not_sparse"

definition create_with_grid :: "mbtr \<Rightarrow> scalars \<Rightarrow> system \<Rightarrow> error + descriptor_output" where
  "create_with_grid self sc s =
     (case order_term self 1 get_k1_settings (\<lambda>st. K1 self st sc) of
        Inl e \<Rightarrow> Inl e
      | Inr t1 \<Rightarrow>
     (case order_term self 2 get_k2_settings (\<lambda>st. K2 self st sc) of
        Inl e \<Rightarrow> Inl e
      | Inr t2 \<Rightarrow>
     (case order_term self 3 get_k3_settings (\<lambda>st. K3 self st sc) of
        Inl e \<Rightarrow> Inl e
      | Inr t3 \<Rightarrow>
          (let mbtr = t1 @ t2 @ t3
           in if flatten self then
                (case sparse_rows mbtr of
                   Inl e \<Rightarrow> Inl e
                 | Inr rows \<Rightarrow>
                     if rows = [] then Inl ValueError_nothing_to_concatenate
                     else
                       (let final_vector = concat rows
                        in Inr (Flat (if normalize_by_volume self
                                      then map (\<lambda>v. v / get_volume s) final_vector
                                      else final_vector))))
              else Inr (Tensors (if normalize_by_volume self
                                 then map (scale_tensor (get_volume s)) mbtr
                                 else mbtr))))))"

definition describe :: "aggregator \<Rightarrow> mbtr \<Rightarrow> system \<Rightarrow> descriptor_output run" where
  "describe agg self0 s =
     then_run (initialize_scalars agg self0 s)
       (\<lambda>(self, sc). of_sum (create_with_grid self sc s))"

text \<open>
  \<open>get_number_of_features\<close>. The sum is computed with true division and truncated at the
  end; order 0 would call a method that does not exist.
\<close>

definition get_number_of_features :: "mbtr \<Rightarrow> error + int" where
  "get_number_of_features self =
     (let n_elem = real (n_elements self)
      in if 0 \<in> set (ks self) then Inl AttributeError_get_k0_settings
         else
     (case (if 1 \<in> set (ks self)
            then map_sum id (\<lambda>st. n_elem * real_of_int (grid_n st)) (get_k1_settings self)
            else Inr 0) of
        Inl e \<Rightarrow> Inl e
      | Inr n_k1 \<Rightarrow>
     (case (if 2 \<in> set (ks self)
            then map_sum id (\<lambda>st. (n_elem * (n_elem + 1) / 2) * real_of_int (grid_n st))
                   (get_k2_settings self)
            else Inr 0) of
        Inl e \<Rightarrow> Inl e
      | Inr n_k2 \<Rightarrow>
     (case (if 3 \<in> set (ks self)
            then map_sum id (\<lambda>st. (n_elem * n_elem * (n_elem + 1) / 2) * real_of_int (grid_n st))
                   (get_k3_settings self)
            else Inr 0) of
        Inl e \<Rightarrow> Inl e
      | Inr n_k3 \<Rightarrow> Inr (py_int (0 + n_k1 + n_k2 + n_k3))))))"

text \<open>The number of entries of an output.\<close>

fun tensor_size :: "tensor \<Rightarrow> nat" where
  "tensor_size (Sparse row) = length row"
| "tensor_size (Dense shape entries) = prod_list shape"

fun output_size :: "descriptor_output \<Rightarrow> nat" where
  "output_size (Flat v) = length v"
| "output_size (Tensors ts) = sum_list (map tensor_size ts)"

section \<open>Configuration errors\<close>

text \<open>
  The errors that the checks of the orders and of the weighting in \<open>update\<close> raise, and
  the condition of the specification on a periodic configuration: the weighting
  specification of an order is absent, \<open>None\<close>, or names no function or the function
  unity.
\<close>

definition configuration_error :: "error \<Rightarrow> bool" where
  "configuration_error e =
     (e \<in> {ValueError_k_is_int, ValueError_k_not_a_set, ValueError_k_invalid,
            ValueError_unknown_weighting_function, ValueError_periodic_needs_weighting,
            AttributeError_none}
      \<or> (\<exists>key. e = KeyError key \<or> e = ValueError_missing_weighting_value key))"

definition weighting_missing :: "(string \<rightharpoonup> weight_info option) option \<Rightarrow> int \<Rightarrow> bool" where
  "weighting_missing wopt i =
     (case wopt of
        None \<Rightarrow> True
      | Some w \<Rightarrow>
          (case w (kname i) of
             None \<Rightarrow> True
           | Some None \<Rightarrow> True
           | Some (Some weight_info) \<Rightarrow>
               dict_get weight_info ''function'' \<in> {PNone, PStr ''unity''}))"

text \<open>The shape of a tensor; a sparse row has the shape \<open>(1, width)\<close>.\<close>

fun tensor_shape :: "tensor \<Rightarrow> nat list" where
  "tensor_shape (Sparse row) = [1, length row]"
| "tensor_shape (Dense shape entries) = shape"

section \<open>The sorted Coulomb and sine matrices\<close>

text \<open>
  What the two matrix descriptors read from a structure: the charges, the matrix of
  inverse distances, the cell matrix and its inverse, and the tensor of displacement
  vectors between the atoms.
\<close>

record pairwise_system =
  charges :: "real list"
  inverse_distance_matrix :: "real list list"
  lattice_matrix :: mat3
  lattice_inv_matrix :: mat3
  displacement_tensor :: "vec3 list list"

record matrix_descriptor =
  n_atoms_max :: nat
  flatten_output :: bool

datatype matrix_output = Matrix "real list list" | Vector "real list"

text \<open>\<open>q[None, :]*q[:, None]\<close>: the entry in row \<open>i\<close> and column \<open>j\<close> is \<open>q[j]*q[i]\<close>.\<close>

definition charge_products :: "real list \<Rightarrow> real list list" where
  "charge_products q = map (\<lambda>qi. map (\<lambda>qj. qj * qi) q) q"

definition is_square :: "nat \<Rightarrow> 'a list list \<Rightarrow> bool" where
  "is_square n m = (length m = n \<and> list_all (\<lambda>row. length row = n) m)"

text \<open>The elementwise product of two matrices of the same shape.\<close>

definition multiply :: "real list list \<Rightarrow> real list list \<Rightarrow> real list list" where
  "multiply a b = map2 (\<lambda>ra rb. map2 (\<lambda>x y. x * y) ra rb) a b"

text \<open>\<open>np.fill_diagonal(m, d)\<close> with one value for each row.\<close>

definition fill_diagonal :: "real list list \<Rightarrow> real list \<Rightarrow> real list list" where
  "fill_diagonal m d = map (\<lambda>i. (m ! i)[i := d ! i]) [0 ..< length m]"

definition row_norm :: "real list \<Rightarrow> real" where
  "row_norm row = sqrt (sum_list (map (\<lambda>x. x\<^sup>2) row))"

text \<open>
  \<open>np.argsort\<close>: the indices in the order of ascending values. The order among equal
  values depends on the sorting algorithm of NumPy; here equal values keep the order of
  their indices.
\<close>

definition argsort :: "real list \<Rightarrow> nat list" where
  "argsort values = map snd (sort_key fst (zip values [0 ..< length values]))"

text \<open>
  The common second half of \<open>coulomb_matrix\<close> and \<open>sine_matrix\<close>: rows and columns are
  put in the order of descending row norm, and the matrix is written into the upper left
  corner of a matrix of zeros of the maximal size, which fails when it is larger.
\<close>

definition sort_and_pad :: "nat \<Rightarrow> real list list \<Rightarrow> error + real list list" where
  "sort_and_pad n_max m =
     (let norms = map row_norm m;
          sorted_indices = rev (argsort norms);
          m1 = map (\<lambda>i. m ! i) sorted_indices;
          m2 = map (\<lambda>row. map (\<lambda>j. row ! j) sorted_indices) m1
      in if length m2 > n_max then Inl ValueError_shape_mismatch
         else Inr (map (\<lambda>row. row @ replicate (n_max - length row) 0) m2
                   @ replicate (n_max - length m2) (replicate n_max 0)))"

definition coulomb_matrix :: "matrix_descriptor \<Rightarrow> pairwise_system \<Rightarrow> error + real list list" where
  "coulomb_matrix self s =
     (let q = charges s;
          qiqj = charge_products q;
          idmat = inverse_distance_matrix s
      in if \<not> is_square (length q) idmat then Inl ValueError_shape_mismatch
         else
           (let cmat = fill_diagonal (multiply qiqj idmat) (map (\<lambda>z. 0.5 * z powr 2.4) q)
            in sort_and_pad (n_atoms_max self) cmat))"

text \<open>
  The matrix \<open>phi\<close> of the sine matrix: for each displacement vector \<open>d\<close>,
  \<open>1 / |sin^2(pi * d . B_inv) . B|\<close>, the sine and the square taken componentwise.
\<close>

definition sin_squared :: "vec3 \<Rightarrow> vec3" where
  "sin_squared v = (case v of (x, y, z) \<Rightarrow> ((sin x)\<^sup>2, (sin y)\<^sup>2, (sin z)\<^sup>2))"

definition scale3 :: "real \<Rightarrow> vec3 \<Rightarrow> vec3" where
  "scale3 c v = (case v of (x, y, z) \<Rightarrow> (c * x, c * y, c * z))"

definition phi_entry :: "mat3 \<Rightarrow> mat3 \<Rightarrow> vec3 \<Rightarrow> real" where
  "phi_entry B B_inv d =
     (let arg_to_sin = scale3 pi (vec_mat d B_inv)
      in 1 / norm3 (vec_mat (sin_squared arg_to_sin) B))"

definition sine_matrix :: "matrix_descriptor \<Rightarrow> pairwise_system \<Rightarrow> error + real list list" where
  "sine_matrix self s =
     (let B = lattice_matrix s;
          B_inv = lattice_inv_matrix s;
          diff_tensor = displacement_tensor s;
          phi = map (\<lambda>row. map (phi_entry B B_inv) row) diff_tensor;
          q = charges s;
          qiqj = charge_products q
      in if \<not> is_square (length q) phi then Inl ValueError_shape_mismatch
         else
           (let smat = fill_diagonal (multiply qiqj phi) (map (\<lambda>z. 0.5 * z powr 2.4) q)
            in sort_and_pad (n_atoms_max self) smat))"

definition matrix_result :: "matrix_descriptor \<Rightarrow> real list list \<Rightarrow> matrix_output" where
  "matrix_result self m = (if flatten_output self then Vector (concat m) else Matrix m)"

definition SortedCoulombMatrix_describe ::
    "matrix_descriptor \<Rightarrow> pairwise_system \<Rightarrow> error + matrix_output" where
  "SortedCoulombMatrix_describe self s = map_sum id (matrix_result self) (coulomb_matrix self s)"

definition SortedSineMatrix_describe ::
    "matrix_descriptor \<Rightarrow> pairwise_system \<Rightarrow> error + matrix_output" where
  "SortedSineMatrix_describe self s = map_sum id (matrix_result self) (sine_matrix self s)"

text \<open>\<open>get_number_of_features\<close> of both matrix descriptors: \<open>int(n_atoms_max**2)\<close>.\<close>

definition matrix_number_of_features :: "matrix_descriptor \<Rightarrow> int" where
  "matrix_number_of_features self = int ((n_atoms_max self)\<^sup>2)"

text \<open>The properties of the output that the specification names.\<close>

definition descending_norms :: "real list list \<Rightarrow> bool" where
  "descending_norms m = (\<forall>i. i + 1 < length m \<longrightarrow> row_norm (m ! (i + 1)) \<le> row_norm (m ! i))"

definition symmetric :: "real list list \<Rightarrow> bool" where
  "symmetric m = (\<forall>i < length m. \<forall>j < length m. m ! i ! j = m ! j ! i)"

text \<open>A displacement tensor that is odd under the exchange of its two atom indices.\<close>

definition antisymmetric :: "vec3 list list \<Rightarrow> bool" where
  "antisymmetric d =
     (\<forall>i < length d. \<forall>j < length d. d ! j ! i = scale3 (- 1) (d ! i ! j))"

section \<open>Example configurations\<close>

text \<open>Hydrogen and oxygen declared, all three orders, finite systems, default grids.\<close>

definition example_mbtr :: mbtr where
  "example_mbtr =
     \<lparr>k_terms = KIter [1, 2, 3], atomic_numbers = [8, 1], grid = None,
      weighting = None, periodic = False,
      normalize_by_volume = False, normalize_gaussians = True, flatten = True,
      n_elements = 0, atomic_number_to_index = Map.empty,
      index_to_atomic_number = Map.empty,
      max_atomic_number = 0, min_atomic_number = 0\<rparr>"

text \<open>
  A periodic configuration for order 2 with exponential weighting (scale 1, cutoff 0.3),
  and a one-atom cell whose vectors have the lengths 2, 1 and 2.
\<close>

definition periodic_mbtr :: mbtr where
  "periodic_mbtr =
     \<lparr>k_terms = KIter [2], atomic_numbers = [1], grid = None,
      weighting = Some [''k2'' \<mapsto> Some [''function'' \<mapsto> PStr ''exponential'',
                                          ''scale'' \<mapsto> PNum 1,
                                          ''cutoff'' \<mapsto> PNum (3 / 10)]],
      periodic = True,
      normalize_by_volume = False, normalize_gaussians = True, flatten = True,
      n_elements = 1, atomic_number_to_index = [1 \<mapsto> 0],
      index_to_atomic_number = [0 \<mapsto> 1],
      max_atomic_number = 1, min_atomic_number = 1\<rparr>"

definition slab_system :: system where
  "slab_system =
     \<lparr>numbers = [1], positions = [(0, 0, 0)],
      cell = ((2, 0, 0), (0, 1, 0), (0, 0, 2)),
      pbc = (True, True, True)\<rparr>"

text \<open>What the expansion of \<open>slab_system\<close> returns, and the expansion of that.\<close>

definition slab_extended :: system where
  "slab_extended =
     \<lparr>numbers = [1, 1, 1], positions = [(0, 0, 0), (0, 1, 0), (0, - 1, 0)],
      cell = ((2, 0, 0), (0, 1, 0), (0, 0, 2)),
      pbc = (False, False, False)\<rparr>"

definition slab_extended_twice :: system where
  "slab_extended_twice =
     \<lparr>numbers = [1, 1, 1, 1, 1, 1, 1, 1, 1],
      positions = [(0, 0, 0), (0, 1, 0), (0, - 1, 0),
                   (0, 1, 0), (0, 2, 0), (0, 0, 0),
                   (0, - 1, 0), (0, 0, 0), (0, - 2, 0)],
      cell = ((2, 0, 0), (0, 1, 0), (0, 0, 2)),
      pbc = (False, False, False)\<rparr>"

text \<open>A structure with a hydrogen and a carbon atom, and no periodicity.\<close>

definition hc_system :: system where
  "hc_system =
     \<lparr>numbers = [1, 6], positions = [(0, 0, 0), (1, 0, 0)],
      cell = ((0, 0, 0), (0, 0, 0), (0, 0, 0)),
      pbc = (False, False, False)\<rparr>"

text \<open>
  The result of the aggregation when the structure holds no combination of the order
  (no pair in a structure of one atom): two empty dictionaries.
\<close>

definition no_combinations :: aggregator where
  "no_combinations order s a2i n_atoms weight_func parameters = ([], [])"

text \<open>
  Hydrogen and oxygen declared, order 2 on finite systems, with an explicit grid of ten
  points from 0 to 9 and \<open>sigma = 1\<close>; the object as the constructor leaves it. The
  structures: a single hydrogen atom, and two oxygen atoms at distance 2.
\<close>

definition pair_settings :: settings where
  "pair_settings = \<lparr>grid_min = 0, grid_max = 9, grid_sigma = 1, grid_n = 10\<rparr>"

definition pair_mbtr :: mbtr where
  "pair_mbtr =
     \<lparr>k_terms = KIter [2], atomic_numbers = [1, 8],
      grid = Some [''k2'' \<mapsto> [''min'' \<mapsto> 0, ''max'' \<mapsto> 9, ''sigma'' \<mapsto> 1, ''n'' \<mapsto> 10]],
      weighting = None, periodic = False,
      normalize_by_volume = False, normalize_gaussians = True, flatten = True,
      n_elements = 2, atomic_number_to_index = [1 \<mapsto> 0, 8 \<mapsto> 1],
      index_to_atomic_number = [0 \<mapsto> 1, 1 \<mapsto> 8],
      max_atomic_number = 8, min_atomic_number = 1\<rparr>"

definition h_system :: system where
  "h_system =
     \<lparr>numbers = [1], positions = [(0, 0, 0)],
      cell = ((0, 0, 0), (0, 0, 0), (0, 0, 0)),
      pbc = (False, False, False)\<rparr>"

definition oo_system :: system where
  "oo_system =
     \<lparr>numbers = [8, 8], positions = [(0, 0, 0), (2, 0, 0)],
      cell = ((0, 0, 0), (0, 0, 0), (0, 0, 0)),
      pbc = (False, False, False)\<rparr>"

text \<open>
  What the aggregation holds for order 2: for the two oxygen atoms the single
  combination (1, 1) with the inverse distance 1/2 and weight 1; and, for a structure
  with both elements, all three combinations.
\<close>

definition oo_aggregator :: aggregator where
  "oo_aggregator order s a2i n_atoms weight_func parameters =
     ([([1, 1], [1 / 2])], [([1, 1], [1])])"

definition oo_scalars :: scalars where
  "oo_scalars =
     \<lparr>n_atoms_in_cell = 2, present_indices = {1},
      k1_geoms = None, k1_weights = None,
      k2_geoms = Some [([1, 1], [1 / 2])], k2_weights = Some [([1, 1], [1])],
      k3_geoms = None, k3_weights = None\<rparr>"

definition hoo_scalars :: scalars where
  "hoo_scalars =
     \<lparr>n_atoms_in_cell = 3, present_indices = {0, 1},
      k1_geoms = None, k1_weights = None,
      k2_geoms = Some [([0, 1], [1, 1]), ([1, 1], [1 / 2])],
      k2_weights = Some [([0, 1], [1, 1]), ([1, 1], [1])],
      k3_geoms = None, k3_weights = None\<rparr>"

text \<open>
  The rank of a combination among all non-decreasing index pairs in ascending
  lexicographic order, as the specification words the column block of a combination.
\<close>

definition nondecreasing_pairs :: "nat \<Rightarrow> nat list list" where
  "nondecreasing_pairs n_elem = concat (map (\<lambda>i. map (\<lambda>j. [i, j]) [i ..< n_elem]) [0 ..< n_elem])"

fun rank_in :: "'a \<Rightarrow> 'a list \<Rightarrow> nat" where
  "rank_in x [] = 0"
| "rank_in x (y # ys) = (if x = y then 0 else Suc (rank_in x ys))"

text \<open>
  For order 3, three oxygen atoms in an equilateral triangle: the single combination
  (1, 1, 1) with the cosine 1/2.
\<close>

definition ooo_scalars :: scalars where
  "ooo_scalars =
     \<lparr>n_atoms_in_cell = 3, present_indices = {1},
      k1_geoms = None, k1_weights = None, k2_geoms = None, k2_weights = None,
      k3_geoms = Some [([1, 1, 1], [1 / 2, 1 / 2, 1 / 2])],
      k3_weights = Some [([1, 1, 1], [1, 1, 1])]\<rparr>"

definition nondecreasing_triples :: "nat \<Rightarrow> nat list list" where
  "nondecreasing_triples n_elem =
     concat (map (\<lambda>i. concat (map (\<lambda>j. map (\<lambda>l. [i, j, l]) [j ..< n_elem]) [i ..< n_elem]))
                 [0 ..< n_elem])"

text \<open>The same configuration with dense output.\<close>

definition dense_pair_mbtr :: mbtr where
  "dense_pair_mbtr = pair_mbtr\<lparr>flatten := False\<rparr>"

text \<open>
  A hydrogen and an oxygen atom at distance 2 in a unit cell, for the matrix descriptors,
  and a descriptor for at most three atoms that returns the matrix.
\<close>

definition ho_pairwise :: pairwise_system where
  "ho_pairwise =
     \<lparr>charges = [1, 8],
      inverse_distance_matrix = [[0, 1 / 2], [1 / 2, 0]],
      lattice_matrix = ((1, 0, 0), (0, 1, 0), (0, 0, 1)),
      lattice_inv_matrix = ((1, 0, 0), (0, 1, 0), (0, 0, 1)),
      displacement_tensor = [[(0, 0, 0), (2, 0, 0)], [(- 2, 0, 0), (0, 0, 0)]]\<rparr>"

definition three_atoms :: matrix_descriptor where
  "three_atoms = \<lparr>n_atoms_max = 3, flatten_output = False\<rparr>"

section \<open>Properties of the configuration\<close>

lemma check_grid_None:
  "check_grid is g = Inr g' \<Longrightarrow> g key = None \<Longrightarrow> g' key = None"
proof (induction "is" arbitrary: g)
  case Nil
  then show ?case by simp
next
  case (Cons i "is")
  show ?case
  proof (cases "g (kname i)")
    case None
    with Cons show ?thesis by simp
  next
    case (Some info)
    with Cons.prems obtain info' where
      c: "check_grid is (g(kname i \<mapsto> info')) = Inr g'"
      by (auto split: sum.splits)
    from Some Cons.prems(2) have "key \<noteq> kname i" by auto
    then have "(g(kname i \<mapsto> info')) key = None"
      using Cons.prems(2) by simp
    with Cons.IH [OF c] show ?thesis .
  qed
qed

lemma update_Inr_E:
  assumes "update self0 = Inr self"
  obtains kset grid' where
    "check_k (k_terms self0) = Inr kset"
    "weighting self0 = None \<or> (\<exists>w. weighting self0 = Some w \<and> for_each (check_weighting_k w) kset = Inr ())"
    "periodic self0 \<longrightarrow> for_each (check_periodic_k (weighting self0)) kset = Inr ()"
    "(grid self0 = None \<and> grid' = None) \<or>
       (\<exists>g g'. grid self0 = Some g \<and> check_grid kset g = Inr g' \<and> grid' = Some g')"
    "atomic_numbers self0 \<noteq> []"
    "self = self0\<lparr>k_terms := KIter kset, grid := grid',
                    atomic_numbers := sort (atomic_numbers self0),
                    atomic_number_to_index := fst (index_maps (sort (atomic_numbers self0))),
                    index_to_atomic_number := snd (index_maps (sort (atomic_numbers self0))),
                    n_elements := length (sort (atomic_numbers self0)),
                    max_atomic_number := Max (set (sort (atomic_numbers self0))),
                    min_atomic_number := Min (set (sort (atomic_numbers self0)))\<rparr>"
proof -
  from assms obtain kset where k1: "check_k (k_terms self0) = Inr kset"
    by (cases "check_k (k_terms self0)") (simp_all add: update_def)
  from assms k1 have w: "(case weighting self0 of None \<Rightarrow> Inr ()
            | Some w \<Rightarrow> for_each (check_weighting_k w) kset) = Inr ()"
    by (simp add: update_def split: sum.splits)
  from assms k1 w have p: "(if periodic self0 then for_each (check_periodic_k (weighting self0)) kset
            else Inr ()) = Inr ()"
    by (simp add: update_def split: sum.splits if_splits)
  from assms k1 w p obtain grid' where
    g: "(case grid self0 of None \<Rightarrow> Inr None
            | Some g \<Rightarrow>
                (case check_grid kset g of Inl e \<Rightarrow> Inl e | Inr g' \<Rightarrow> Inr (Some g'))) = Inr grid'"
    by (simp add: update_def split: sum.splits)
  from assms k1 w p g have n: "sort (atomic_numbers self0) \<noteq> []"
    and s: "self = self0\<lparr>k_terms := KIter kset, grid := grid',
                    atomic_numbers := sort (atomic_numbers self0),
                    atomic_number_to_index := fst (index_maps (sort (atomic_numbers self0))),
                    index_to_atomic_number := snd (index_maps (sort (atomic_numbers self0))),
                    n_elements := length (sort (atomic_numbers self0)),
                    max_atomic_number := Max (set (sort (atomic_numbers self0))),
                    min_atomic_number := Min (set (sort (atomic_numbers self0)))\<rparr>"
    by (simp_all add: update_def Let_def split: if_splits)
  from n have n': "atomic_numbers self0 \<noteq> []"
    by auto
  from w have w': "weighting self0 = None \<or> (\<exists>w. weighting self0 = Some w \<and> for_each (check_weighting_k w) kset = Inr ())"
    by (cases "weighting self0") simp_all
  from p have p': "periodic self0 \<longrightarrow> for_each (check_periodic_k (weighting self0)) kset = Inr ()"
    by (simp split: if_splits)
  from g have g': "(grid self0 = None \<and> grid' = None) \<or>
       (\<exists>g g'. grid self0 = Some g \<and> check_grid kset g = Inr g' \<and> grid' = Some g')"
    by (cases "grid self0") (auto split: sum.splits)
  from that [OF k1 w' p' g' n' s] show thesis .
qed

lemma update_grid_entry_None:
  assumes "update self0 = Inr self" and "grid_entry self0 key = None"
  shows "grid_entry self key = None"
proof -
  from assms(1) obtain kset grid' where
    g: "(grid self0 = None \<and> grid' = None) \<or>
       (\<exists>g g'. grid self0 = Some g \<and> check_grid kset g = Inr g' \<and> grid' = Some g')"
    and s: "grid self = grid'"
    by (rule update_Inr_E) simp
  from g s assms(2) show ?thesis
    by (auto simp: grid_entry_def dest: check_grid_None)
qed

lemma update_min_max:
  assumes "update self0 = Inr self"
  shows "min_atomic_number self = Min (set (atomic_numbers self0))"
    and "max_atomic_number self = Max (set (atomic_numbers self0))"
  using assms by (auto elim!: update_Inr_E)

lemma sigma_k2: "2 powr (- 7) = (1 / 2 ^ 7 :: real)"
  by (simp add: powr_minus_divide)

lemma py_int_of_int: "py_int (real_of_int i) = i"
  by (simp add: py_int_def)

lemma py_int_ceiling_plus: "py_int (real_of_int i + 1) = i + 1"
  using py_int_of_int [of "i + 1"] by simp

lemma update_example: "\<exists>self. update example_mbtr = Inr self"
  by (simp add: update_def example_mbtr_def check_k_def Let_def)

text \<open>
  Claim C8. When no explicit grid is supplied for an order, the resolved grid is the
  default one: order 1 has \<open>sigma = 0.1\<close> and the range from the smallest to the largest
  declared atomic number, order 2 has \<open>sigma = 2^-7\<close> and the range \<open>[0, 1/0.7]\<close>, order 3 has
  \<open>sigma = 2^-3.5\<close> and the range \<open>[-1, 1]\<close>, each range widened on both sides by
  \<open>sqrt(2)*3*sigma\<close>, and in every case \<open>n = ceil((max-min)/sigma/4) + 1\<close> as an integer.
\<close>

theorem default_grid:
  assumes "update self0 = Inr self"
  shows "(grid_entry self0 ''k1'' = None \<longrightarrow>
           get_k1_settings self =
             (let sigma = 1 / 10;
                  mn = real_of_int (Min (set (atomic_numbers self0))) - sqrt 2 * 3 * sigma;
                  mx = real_of_int (Max (set (atomic_numbers self0))) + sqrt 2 * 3 * sigma
              in Inr \<lparr>grid_min = mn, grid_max = mx, grid_sigma = sigma,
                      grid_n = \<lceil>(mx - mn) / sigma / 4\<rceil> + 1\<rparr>)) \<and>
         (grid_entry self0 ''k2'' = None \<longrightarrow>
           get_k2_settings self =
             (let sigma = 1 / 2 ^ 7;
                  mn = 0 - sqrt 2 * 3 * sigma;
                  mx = 1 / (7 / 10) + sqrt 2 * 3 * sigma
              in Inr \<lparr>grid_min = mn, grid_max = mx, grid_sigma = sigma,
                      grid_n = \<lceil>(mx - mn) / sigma / 4\<rceil> + 1\<rparr>)) \<and>
         (grid_entry self0 ''k3'' = None \<longrightarrow>
           get_k3_settings self =
             (let sigma = 2 powr (- 3.5);
                  mn = - 1 - sqrt 2 * 3 * sigma;
                  mx = 1 + sqrt 2 * 3 * sigma
              in Inr \<lparr>grid_min = mn, grid_max = mx, grid_sigma = sigma,
                      grid_n = \<lceil>(mx - mn) / sigma / 4\<rceil> + 1\<rparr>))"
proof (intro conjI impI)
  assume "grid_entry self0 ''k1'' = None"
  then show "get_k1_settings self =
             (let sigma = 1 / 10;
                  mn = real_of_int (Min (set (atomic_numbers self0))) - sqrt 2 * 3 * sigma;
                  mx = real_of_int (Max (set (atomic_numbers self0))) + sqrt 2 * 3 * sigma
              in Inr \<lparr>grid_min = mn, grid_max = mx, grid_sigma = sigma,
                      grid_n = \<lceil>(mx - mn) / sigma / 4\<rceil> + 1\<rparr>)"
    using update_grid_entry_None [OF assms, of "''k1''"] update_min_max [OF assms]
    by (simp add: get_k1_settings_def decay_factor_def Let_def py_int_ceiling_plus)
next
  assume "grid_entry self0 ''k2'' = None"
  then show "get_k2_settings self =
             (let sigma = 1 / 2 ^ 7;
                  mn = 0 - sqrt 2 * 3 * sigma;
                  mx = 1 / (7 / 10) + sqrt 2 * 3 * sigma
              in Inr \<lparr>grid_min = mn, grid_max = mx, grid_sigma = sigma,
                      grid_n = \<lceil>(mx - mn) / sigma / 4\<rceil> + 1\<rparr>)"
    using update_grid_entry_None [OF assms, of "''k2''"]
    by (simp add: get_k2_settings_def decay_factor_def Let_def py_int_ceiling_plus sigma_k2)
next
  assume "grid_entry self0 ''k3'' = None"
  then show "get_k3_settings self =
             (let sigma = 2 powr (- 3.5);
                  mn = - 1 - sqrt 2 * 3 * sigma;
                  mx = 1 + sqrt 2 * 3 * sigma
              in Inr \<lparr>grid_min = mn, grid_max = mx, grid_sigma = sigma,
                      grid_n = \<lceil>(mx - mn) / sigma / 4\<rceil> + 1\<rparr>)"
    using update_grid_entry_None [OF assms, of "''k3''"]
    by (simp add: get_k3_settings_def decay_factor_def Let_def py_int_ceiling_plus)
qed

theorem default_grid_witness:
  "\<exists>self. update example_mbtr = Inr self \<and>
     grid_entry example_mbtr ''k1'' = None \<and>
     grid_entry example_mbtr ''k2'' = None \<and>
     grid_entry example_mbtr ''k3'' = None \<and>
     get_k1_settings self =
       (let sigma = 1 / 10;
            mn = real_of_int (Min (set (atomic_numbers example_mbtr))) - sqrt 2 * 3 * sigma;
            mx = real_of_int (Max (set (atomic_numbers example_mbtr))) + sqrt 2 * 3 * sigma
        in Inr \<lparr>grid_min = mn, grid_max = mx, grid_sigma = sigma,
                grid_n = \<lceil>(mx - mn) / sigma / 4\<rceil> + 1\<rparr>) \<and>
     get_k2_settings self =
       (let sigma = 1 / 2 ^ 7;
            mn = 0 - sqrt 2 * 3 * sigma;
            mx = 1 / (7 / 10) + sqrt 2 * 3 * sigma
        in Inr \<lparr>grid_min = mn, grid_max = mx, grid_sigma = sigma,
                grid_n = \<lceil>(mx - mn) / sigma / 4\<rceil> + 1\<rparr>) \<and>
     get_k3_settings self =
       (let sigma = 2 powr (- 3.5);
            mn = - 1 - sqrt 2 * 3 * sigma;
            mx = 1 + sqrt 2 * 3 * sigma
        in Inr \<lparr>grid_min = mn, grid_max = mx, grid_sigma = sigma,
                grid_n = \<lceil>(mx - mn) / sigma / 4\<rceil> + 1\<rparr>)"
proof -
  obtain self where u: "update example_mbtr = Inr self"
    using update_example by blast
  have g: "grid_entry example_mbtr ''k1'' = None" "grid_entry example_mbtr ''k2'' = None"
    "grid_entry example_mbtr ''k3'' = None"
    by (simp_all add: grid_entry_def example_mbtr_def)
  from default_grid [OF u] g u show ?thesis
    by blast
qed

section \<open>Properties of the Gaussian broadening\<close>

lemma length_linspace: "length (linspace a b num) = num"
  by (simp add: linspace_def Let_def)

lemma linspace_uniform:
  assumes "1 \<le> m" and "j \<le> m"
  shows "linspace a (a + real m * d) (Suc m) ! j = a + real j * d"
proof -
  have step: "(a + real m * d - a) / (real (Suc m) - 1) = d"
    using assms(1) by simp
  show ?thesis
  proof (cases "j = m")
    case True
    then show ?thesis
      using assms(1) by (simp add: linspace_def Let_def del: upt_Suc)
  next
    case False
    with assms(2) have "j < m" by simp
    then have "linspace a (a + real m * d) (Suc m) ! j
                 = real j * ((a + real m * d - a) / (real (Suc m) - 1)) + a"
      using assms(1) by (simp add: linspace_def Let_def nth_append del: upt_Suc)
    then show ?thesis
      using assms(1) by (simp add: step)
  qed
qed

lemma linspace_boundary:
  assumes n: "2 \<le> grid_n settings" and j: "j \<le> nat (grid_n settings)"
  defines "dx \<equiv> (grid_max settings - grid_min settings) / real_of_int (grid_n settings - 1)"
  shows "linspace (grid_min settings - dx / 2) (grid_max settings + dx / 2)
           (nat (grid_n settings + 1)) ! j = boundary_point settings j"
proof -
  let ?n = "grid_n settings"
  let ?a = "grid_min settings - dx / 2"
  have w: "grid_max settings - grid_min settings = real_of_int (?n - 1) * dx"
    unfolding dx_def using n by simp
  have b: "grid_max settings + dx / 2 = ?a + real (nat ?n) * dx"
  proof -
    have "real (nat ?n) = real_of_int (?n - 1) + 1" using n by simp
    then have "?a + real (nat ?n) * dx = ?a + real_of_int (?n - 1) * dx + dx"
      by (simp add: algebra_simps)
    also have "\<dots> = ?a + (grid_max settings - grid_min settings) + dx"
      by (simp only: w)
    finally show ?thesis by simp
  qed
  have s: "nat (?n + 1) = Suc (nat ?n)" using n by simp
  have m1: "1 \<le> nat ?n" using n by simp
  have "linspace ?a (?a + real (nat ?n) * dx) (Suc (nat ?n)) ! j = ?a + real j * dx"
    by (rule linspace_uniform [OF m1 j])
  then have "linspace ?a (grid_max settings + dx / 2) (nat (?n + 1)) ! j = ?a + real j * dx"
    by (simp only: b s)
  then show ?thesis
    by (simp only: boundary_point_def Let_def dx_def)
qed


lemma rolled_differences:
  assumes "length f = Suc m"
  shows "butlast (map2 (\<lambda>a b. a - b) (rotate1 f) f) = map (\<lambda>j. f ! (j + 1) - f ! j) [0 ..< m]"
proof (rule nth_equalityI)
  show "length (butlast (map2 (\<lambda>a b. a - b) (rotate1 f) f)) = length (map (\<lambda>j. f ! (j + 1) - f ! j) [0 ..< m])"
    using assms by simp
next
  fix j
  assume "j < length (butlast (map2 (\<lambda>a b. a - b) (rotate1 f) f))"
  then have j: "j < m" using assms by simp
  then have "rotate1 f ! j = f ! (j + 1)"
    using assms by (simp add: nth_rotate1)
  with j show "butlast (map2 (\<lambda>a b. a - b) (rotate1 f) f) ! j = map (\<lambda>j. f ! (j + 1) - f ! j) [0 ..< m] ! j"
    using assms by (simp add: nth_butlast)
qed

lemma sum_axis0_nth:
  assumes "j < width"
  shows "sum_axis0 width y ! j = sum_list (map (\<lambda>row. row ! j) y)"
  using assms by (simp add: sum_axis0_def)

lemma column_sum_cumulative:
  assumes n: "2 \<le> grid_n settings" and j: "j \<le> nat (grid_n settings)"
    and len: "length centers = length weights"
  defines "dx \<equiv> (grid_max settings - grid_min settings) / real_of_int (grid_n settings - 1)"
  defines "x \<equiv> linspace (grid_min settings - dx / 2) (grid_max settings + dx / 2)
                   (nat (grid_n settings + 1))"
  shows "sum_list (map (\<lambda>row. row ! j)
           (map (\<lambda>(w, row). map (\<lambda>p. w * 1 / 2 * (1 + erf (p / (grid_sigma settings * sqrt 2)))) row)
              (zip weights (map (\<lambda>c. map (\<lambda>xi. xi - c) x) centers))))
         = cumulative_sum (zip centers weights) settings j"
proof -
  have lx: "j < length x"
    using n j by (simp add: x_def length_linspace)
  have xj: "x ! j = boundary_point settings j"
    unfolding x_def dx_def by (rule linspace_boundary [OF n j])
  from len show ?thesis
  proof (induction centers weights rule: list_induct2)
    case Nil
    then show ?case by (simp add: cumulative_sum_def)
  next
    case (Cons c cs w ws)
    then show ?case
      using lx xj by (simp add: cumulative_sum_def)
  qed
qed


lemma broadcast_rows_same_length:
  "length weights = length rows \<Longrightarrow> broadcast_rows weights rows = Inr (zip weights rows)"
  by (simp add: broadcast_rows_def)

lemma gaussian_sum_value:
  assumes mm: "grid_min settings < grid_max settings"
    and n: "2 \<le> grid_n settings"
    and sg: "grid_sigma settings \<noteq> 0"
    and len: "length centers = length weights"
  shows "gaussian_sum self centers weights settings =
           Inr (broaden_spec (normalize_gaussians self) (zip centers weights) settings) \<and>
         int (length (broaden_spec (normalize_gaussians self) (zip centers weights) settings)) =
           grid_n settings"
proof -
  define dx where "dx = (grid_max settings - grid_min settings) / real_of_int (grid_n settings - 1)"
  define x where "x = linspace (grid_min settings - dx / 2) (grid_max settings + dx / 2)
                   (nat (grid_n settings + 1))"
  define y where "y = map (\<lambda>(w, row). map (\<lambda>p. w * 1 / 2 * (1 + erf (p / (grid_sigma settings * sqrt 2)))) row)
              (zip weights (map (\<lambda>c. map (\<lambda>xi. xi - c) x) centers))"
  define f where "f = sum_axis0 (nat (grid_n settings + 1)) y"
  define c where "c = 1 / (grid_sigma settings * sqrt (2 * pi))"
  define f' where "f' = (if \<not> normalize_gaussians self then map (\<lambda>v. v / c) f else f)"
  define F where "F = cumulative_sum (zip centers weights) settings"
  let ?m = "nat (grid_n settings)"
  have m: "nat (grid_n settings + 1) = Suc ?m" using n by simp
  have lf: "length f = Suc ?m" by (simp add: f_def sum_axis0_def m)
  have lf': "length f' = Suc ?m" by (simp add: f'_def lf)
  have fj: "f ! j = F j" if "j \<le> ?m" for j
  proof -
    have "j < nat (grid_n settings + 1)" using that m by simp
    then have "f ! j = sum_list (map (\<lambda>row. row ! j) y)"
      unfolding f_def by (rule sum_axis0_nth)
    also have "\<dots> = F j"
      unfolding y_def x_def dx_def F_def by (rule column_sum_cumulative [OF n that len])
    finally show ?thesis .
  qed
  have f'j: "f' ! j = (if normalize_gaussians self then F j else F j / c)" if "j \<le> ?m" for j
    using that fj [OF that] lf by (simp add: f'_def)
  have sq: "grid_sigma settings * sqrt (2 * pi) \<noteq> 0"
    using sg by simp
  have br: "broadcast_rows weights (map (\<lambda>c. map (\<lambda>xi. xi - c) x) centers)
              = Inr (zip weights (map (\<lambda>c. map (\<lambda>xi. xi - c) x) centers))"
    by (rule broadcast_rows_same_length) (simp add: len)
  have code: "gaussian_sum self centers weights settings =
                Inr (map (\<lambda>d. d / dx) (butlast (map2 (\<lambda>a b. a - b) (rotate1 f') f')))"
  proof -
    have n1: "(grid_n settings = 1) = False" "(grid_n settings + 1 < 0) = False"
      using n by simp_all
    have z: "(\<not> normalize_gaussians self \<and> grid_sigma settings * sqrt (2 * pi) = 0) = False"
      using sq by simp
    show ?thesis
      apply (simp only: gaussian_sum_def Let_def n1 if_False)
      apply (fold dx_def)
      apply (fold x_def)
      apply (simp only: br sum.case z if_False)
      apply (fold y_def)
      apply (fold f_def)
      apply (fold c_def)
      apply (fold f'_def)
      apply (rule refl)
      done
  qed
  have diffs: "butlast (map2 (\<lambda>a b. a - b) (rotate1 f') f') = map (\<lambda>j. f' ! (j + 1) - f' ! j) [0 ..< ?m]"
    by (rule rolled_differences [OF lf'])
  have spec: "map (\<lambda>d. d / dx) (map (\<lambda>j. f' ! (j + 1) - f' ! j) [0 ..< ?m])
                = broaden_spec (normalize_gaussians self) (zip centers weights) settings"
  proof -
    have unf: "\<And>b. broaden_spec b (zip centers weights) settings =
           (if b then map (\<lambda>j. (F (j + 1) - F j) / dx) [0 ..< ?m]
            else map (\<lambda>d. d / c) (map (\<lambda>j. (F (j + 1) - F j) / dx) [0 ..< ?m]))"
      apply (simp only: broaden_spec_def Let_def)
      apply (fold dx_def)
      apply (fold F_def)
      apply (fold c_def)
      apply (rule refl)
      done
    have el: "(f' ! (j + 1) - f' ! j) / dx =
                (if normalize_gaussians self then (F (j + 1) - F j) / dx
                 else (F (j + 1) - F j) / dx / c)" if "j < ?m" for j
    proof -
      from that have "j \<le> ?m" "j + 1 \<le> ?m" by simp_all
      then show ?thesis
        by (simp add: f'j diff_divide_distrib mult.commute)
    qed
    have "map (\<lambda>d. d / dx) (map (\<lambda>j. f' ! (j + 1) - f' ! j) [0 ..< ?m])
            = map (\<lambda>j. (f' ! (j + 1) - f' ! j) / dx) [0 ..< ?m]"
      by (simp only: map_map comp_def)
    also have "\<dots> = map (\<lambda>j. if normalize_gaussians self then (F (j + 1) - F j) / dx
                                else (F (j + 1) - F j) / dx / c) [0 ..< ?m]"
    proof (rule map_cong [OF refl])
      fix j
      assume "j \<in> set [0 ..< ?m]"
      then have "j < ?m" by simp
      then show "(f' ! (j + 1) - f' ! j) / dx =
                (if normalize_gaussians self then (F (j + 1) - F j) / dx
                 else (F (j + 1) - F j) / dx / c)"
        by (rule el)
    qed
    also have "\<dots> = broaden_spec (normalize_gaussians self) (zip centers weights) settings"
      by (cases "normalize_gaussians self") (simp_all only: unf map_map comp_def if_True if_False)
    finally show ?thesis .
  qed
  have "int (length (broaden_spec (normalize_gaussians self) (zip centers weights) settings)) =
           grid_n settings"
    using n by (simp add: broaden_spec_def Let_def)
  with code diffs spec show ?thesis by simp
qed

text \<open>
  Claim C7. For every grid setting with \<open>min < max\<close> and \<open>n \<ge> 2\<close> and every list of
  (value, weight) pairs, \<open>gaussian_sum\<close> returns the length-\<open>n\<close> sequence of the
  specification: \<open>n + 1\<close> boundary points spaced by \<open>dx = (max - min)/(n - 1)\<close> from
  \<open>min - dx/2\<close>, at each boundary the sum over the pairs of
  \<open>weight * 1/2 * (1 + erf((boundary - value)/(sigma*sqrt 2)))\<close>, consecutive differences
  divided by \<open>dx\<close>, and a further division by \<open>1/(sigma*sqrt(2*pi))\<close> when the Gaussians
  are not normalised. The formula divides by \<open>sigma\<close>, so \<open>sigma\<close> is not zero.
\<close>

theorem gaussian_sum_broadens:
  assumes "grid_min settings < grid_max settings"
    and "2 \<le> grid_n settings"
    and "grid_sigma settings \<noteq> 0"
    and "length centers = length weights"
  shows "gaussian_sum self centers weights settings =
           Inr (broaden_spec (normalize_gaussians self) (zip centers weights) settings) \<and>
         int (length (broaden_spec (normalize_gaussians self) (zip centers weights) settings)) =
           grid_n settings"
  using assms by (rule gaussian_sum_value)

theorem gaussian_sum_broadens_witness:
  "grid_min \<lparr>grid_min = 0, grid_max = 1, grid_sigma = 1, grid_n = 2\<rparr>
     < grid_max \<lparr>grid_min = 0, grid_max = 1, grid_sigma = 1, grid_n = 2\<rparr> \<and>
   gaussian_sum example_mbtr [0, 1 / 2] [1, 3]
       \<lparr>grid_min = 0, grid_max = 1, grid_sigma = 1, grid_n = 2\<rparr> =
     Inr (broaden_spec True [(0, 1), (1 / 2, 3)]
            \<lparr>grid_min = 0, grid_max = 1, grid_sigma = 1, grid_n = 2\<rparr>) \<and>
   length (broaden_spec True [(0, 1), (1 / 2, 3)]
            \<lparr>grid_min = 0, grid_max = 1, grid_sigma = 1, grid_n = 2\<rparr>) = 2"
  using gaussian_sum_broadens [of "\<lparr>grid_min = 0, grid_max = 1, grid_sigma = 1, grid_n = 2\<rparr>"
      "[0, 1 / 2]" "[1, 3]" example_mbtr]
  by (simp add: example_mbtr_def)

section \<open>Properties of the periodic expansion\<close>

lemma find_limit_found:
  assumes "function ((if term_number > 2 then 2 else 1) * (real_of_int (n + 1) * length0)) < cutoff"
  shows "find_limit function cutoff length0 term_number n = Some (n + 1)"
  using assms by (subst find_limit.simps) (auto simp: Let_def split: if_splits)

lemma find_limit_next:
  assumes "\<not> function ((if term_number > 2 then 2 else 1) * (real_of_int (n + 1) * length0)) < cutoff"
  shows "find_limit function cutoff length0 term_number n =
         find_limit function cutoff length0 term_number (n + 1)"
  using assms by (subst find_limit.simps) (auto simp: Let_def split: if_splits)

text \<open>
  The copy-count loop in general: whenever it returns, the count is the least one above the
  start whose weight, measured with the length it was given, is below the cutoff; and it
  returns as soon as some later count has a weight below the cutoff. All three directions
  receive the count found for the first cell-vector length.
\<close>

lemma find_limit_least:
  assumes "find_limit wfun cutoff length0 term_number n = Some c"
  shows "n < c \<and>
         wfun (if term_number > 2 then 2 * (real_of_int c * length0)
               else real_of_int c * length0) < cutoff \<and>
         (\<forall>m. n < m \<and> m < c \<longrightarrow>
              \<not> wfun (if term_number > 2 then 2 * (real_of_int m * length0)
                          else real_of_int m * length0) < cutoff)"
proof (rule find_limit.raw_induct
    [where P = "\<lambda>wfun cutoff length0 term_number n c.
         n < c \<and>
         wfun (if term_number > 2 then 2 * (real_of_int c * length0)
               else real_of_int c * length0) < cutoff \<and>
         (\<forall>m. n < m \<and> m < c \<longrightarrow>
              \<not> wfun (if term_number > 2 then 2 * (real_of_int m * length0)
                          else real_of_int m * length0) < cutoff)", OF _ assms])
  fix loop :: "(real \<Rightarrow> real) \<Rightarrow> real \<Rightarrow> real \<Rightarrow> int \<Rightarrow> int \<Rightarrow> int option"
    and wfun cutoff length0 term_number n_copies c
  assume ih: "\<And>wfun cutoff length0 term_number n c.
        loop wfun cutoff length0 term_number n = Some c \<Longrightarrow>
        n < c \<and>
         wfun (if term_number > 2 then 2 * (real_of_int c * length0)
               else real_of_int c * length0) < cutoff \<and>
         (\<forall>m. n < m \<and> m < c \<longrightarrow>
              \<not> wfun (if term_number > 2 then 2 * (real_of_int m * length0)
                          else real_of_int m * length0) < cutoff)"
    and step: "(let n_copies' = n_copies + 1;
          distance = real_of_int n_copies' * length0;
          distance' = if 2 < term_number then 2 * distance else distance;
          weight = wfun distance'
      in if weight < cutoff then Some n_copies'
         else loop wfun cutoff length0 term_number n_copies') = Some c"
  show "n_copies < c \<and>
         wfun (if term_number > 2 then 2 * (real_of_int c * length0)
               else real_of_int c * length0) < cutoff \<and>
         (\<forall>m. n_copies < m \<and> m < c \<longrightarrow>
              \<not> wfun (if term_number > 2 then 2 * (real_of_int m * length0)
                          else real_of_int m * length0) < cutoff)"
  proof (cases "wfun (if term_number > 2 then 2 * (real_of_int (n_copies + 1) * length0)
                   else real_of_int (n_copies + 1) * length0) < cutoff")
    case True
    with step have "c = n_copies + 1"
      by (simp add: Let_def split: if_splits)
    with True show ?thesis by auto
  next
    case False
    with step have "loop wfun cutoff length0 term_number (n_copies + 1) = Some c"
      by (simp add: Let_def split: if_splits)
    from ih [OF this] have
      a: "n_copies + 1 < c"
      and b: "wfun (if term_number > 2 then 2 * (real_of_int c * length0)
                   else real_of_int c * length0) < cutoff"
      and m: "\<forall>m. n_copies + 1 < m \<and> m < c \<longrightarrow>
              \<not> wfun (if term_number > 2 then 2 * (real_of_int m * length0)
                          else real_of_int m * length0) < cutoff"
      by blast+
    have "\<not> wfun (if term_number > 2 then 2 * (real_of_int m * length0)
                          else real_of_int m * length0) < cutoff"
      if "n_copies < m" "m < c" for m
    proof (cases "m = n_copies + 1")
      case True
      with False show ?thesis by (auto split: if_splits)
    next
      case False
      with that have "n_copies + 1 < m" by simp
      with m that show ?thesis by blast
    qed
    with a b show ?thesis by auto
  qed
qed

lemma n_copies_axis_first_length:
  assumes "n_copies_axis wfun cutoff [l0, l1, l2] term_number = Some n"
  shows "\<exists>c. n = [c, c, c] \<and> 0 \<le> c \<and>
           wfun (if term_number > 2 then 2 * (real_of_int c * l0)
                     else real_of_int c * l0) < cutoff \<and>
           (\<forall>m. 0 \<le> m \<and> m < c \<longrightarrow>
              \<not> wfun (if term_number > 2 then 2 * (real_of_int m * l0)
                          else real_of_int m * l0) < cutoff)"
proof -
  from assms obtain c where c: "find_limit wfun cutoff l0 term_number (- 1) = Some c"
    and n: "n = [c, c, c]"
    by (cases "find_limit wfun cutoff l0 term_number (- 1)")
       (auto simp: n_copies_axis_def)
  from find_limit_least [OF c] n show ?thesis
    by (intro exI [of _ c]) auto
qed


lemma find_limit_returns:
  assumes "n < c"
    and "wfun ((if term_number > 2 then 2 else 1) * (real_of_int c * length0)) < cutoff"
  shows "\<exists>c'. find_limit wfun cutoff length0 term_number n = Some c'"
  using assms
proof (induction "nat (c - n)" arbitrary: n)
  case 0
  then show ?case by simp
next
  case (Suc d)
  show ?case
  proof (cases "wfun ((if term_number > 2 then 2 else 1) * (real_of_int (n + 1) * length0))
                  < cutoff")
    case True
    then have "find_limit wfun cutoff length0 term_number n = Some (n + 1)"
      by (rule find_limit_found)
    then show ?thesis by blast
  next
    case False
    with Suc.prems(2) have "c \<noteq> n + 1" by auto
    with Suc.prems(1) have lt: "n + 1 < c" by simp
    from Suc.hyps(2) have "d = nat (c - (n + 1))" by simp
    from Suc.hyps(1) [OF this lt Suc.prems(2)] obtain c' where
      "find_limit wfun cutoff length0 term_number (n + 1) = Some c'" by blast
    moreover from False have "find_limit wfun cutoff length0 term_number n
        = find_limit wfun cutoff length0 term_number (n + 1)"
      by (rule find_limit_next)
    ultimately show ?thesis by simp
  qed
qed

lemma exp_minus_sqrt_keep:
  assumes "s \<le> 1"
  shows "3 / 10 \<le> exp (- sqrt s)"
proof -
  have "sqrt s \<le> 1" using assms by (simp add: real_sqrt_le_1_iff)
  then have "exp (- 1) \<le> exp (- sqrt s)" by simp
  moreover have "(3 / 10 :: real) \<le> exp (- 1)"
  proof -
    have "exp 1 \<le> (3 :: real)" by (rule exp_le)
    then have "exp (1::real) \<le> 10 / 3" by simp
    then have "1 / (10 / 3) \<le> 1 / exp (1::real)"
      by (intro divide_left_mono) simp_all
    then show ?thesis by (simp add: exp_minus field_simps)
  qed
  ultimately show ?thesis by (rule order_trans [rotated])
qed

lemma exp_minus_sqrt_drop:
  assumes "2 \<le> s"
  shows "exp (- sqrt s) < 3 / 10"
proof -
  have s2: "sqrt 2 \<le> sqrt s" using assms by simp
  have "4 / 3 < sqrt 2"
    by (rule real_less_rsqrt) (simp add: power2_eq_square)
  then have "10 / 3 < 1 + sqrt 2 + (sqrt 2)\<^sup>2 / 2" by simp
  also have "\<dots> \<le> exp (sqrt 2)"
    by (rule exp_lower_Taylor_quadratic) simp
  also have "\<dots> \<le> exp (sqrt s)" using s2 by simp
  finally have "10 / 3 < exp (sqrt s)" .
  then have "1 / exp (sqrt s) < 1 / (10 / 3)"
    by (intro divide_strict_left_mono) simp_all
  then show ?thesis by (simp add: exp_minus field_simps)
qed

lemma norm3_axis: "norm3 (2, 0, 0) = 2" "norm3 (0, 1, 0) = 1" "norm3 (0, 0, 2) = 2"
  by (simp_all add: norm3_def)


lemma create_extended_system_cases:
  assumes "create_extended_system self s t = Some (Inr ext)"
  obtains relative_pos wfun cutoff n where
    "get_scaled_positions s = Inr relative_pos"
    "weighting_of self t = Inr (wfun, cutoff)"
    "n_copies_axis wfun cutoff (cell_vector_lengths (cell s)) t = Some n"
    "ext = \<lparr>numbers = numbers s @
                  concat (map snd (copies wfun cutoff t relative_pos (cell s) (positions s) (numbers s) n)),
               positions = positions s @
                  concat (map fst (copies wfun cutoff t relative_pos (cell s) (positions s) (numbers s) n)),
               cell = cell s, pbc = (False, False, False)\<rparr>"
proof -
  from assms obtain relative_pos where r: "get_scaled_positions s = Inr relative_pos"
    by (cases "get_scaled_positions s") (simp_all add: create_extended_system_def)
  from assms r obtain wfun cutoff where w: "weighting_of self t = Inr (wfun, cutoff)"
    by (cases "weighting_of self t") (auto simp: create_extended_system_def)
  from assms r w obtain n where
    n: "n_copies_axis wfun cutoff (cell_vector_lengths (cell s)) t = Some n"
    by (cases "n_copies_axis wfun cutoff (cell_vector_lengths (cell s)) t")
       (simp_all add: create_extended_system_def)
  from assms r w n have
    "ext = \<lparr>numbers = numbers s @
                  concat (map snd (copies wfun cutoff t relative_pos (cell s) (positions s) (numbers s) n)),
               positions = positions s @
                  concat (map fst (copies wfun cutoff t relative_pos (cell s) (positions s) (numbers s) n)),
               cell = cell s, pbc = (False, False, False)\<rparr>"
    by (simp add: create_extended_system_def copies_def Let_def)
  with r w n show thesis by (rule that)
qed

lemma create_extended_system_returns:
  assumes "det3 (cell s) \<noteq> 0"
    and "weighting_of self t = Inr (wfun, cutoff)"
    and "n_copies_axis wfun cutoff (cell_vector_lengths (cell s)) t = Some n"
  shows "create_extended_system self s t =
     Some (Inr \<lparr>numbers = numbers s @
                  concat (map snd (copies wfun cutoff t
                     (map (scaled_position (cell s) (pbc s)) (positions s)) (cell s) (positions s) (numbers s) n)),
               positions = positions s @
                  concat (map fst (copies wfun cutoff t
                     (map (scaled_position (cell s) (pbc s)) (positions s)) (cell s) (positions s) (numbers s) n)),
               cell = cell s, pbc = (False, False, False)\<rparr>)"
  using assms
  by (simp add: create_extended_system_def get_scaled_positions_def copies_def Let_def)

lemma weighting_of_periodic:
  "weighting_of periodic_mbtr 2 = Inr (\<lambda>x. exp (- x), 3 / 10)"
  by (simp add: weighting_of_def periodic_mbtr_def getitem_def kname_def as_number_def)

lemma find_limit_slab: "find_limit (\<lambda>x. exp (- x)) (3 / 10) 2 2 (- 1) = Some 1"
proof -
  have a: "find_limit (\<lambda>x. exp (- x)) (3 / 10) 2 2 (- 1) = find_limit (\<lambda>x. exp (- x)) (3 / 10) 2 2 (- 1 + 1)"
    by (rule find_limit_next) simp
  have "exp (- sqrt 4) < (3 / 10 :: real)" by (rule exp_minus_sqrt_drop) simp
  then have b: "find_limit (\<lambda>x. exp (- x)) (3 / 10) 2 2 0 = Some (0 + 1)"
    by (intro find_limit_found) simp
  from a b show ?thesis by simp
qed

lemma lengths_slab: "cell_vector_lengths ((2, 0, 0), (0, 1, 0), (0, 0, 2)) = [2, 1, 2]"
  by (simp add: cell_vector_lengths_def norm3_def)

lemma n_copies_slab:
  "n_copies_axis (\<lambda>x. exp (- x)) (3 / 10) [2, 1, 2] 2 = Some [1, 1, 1]"
  by (simp add: n_copies_axis_def find_limit_slab)

lemma shifts_111:
  "shifts [1, 1, 1] =
     [(- 1, - 1, - 1), (- 1, - 1, 0), (- 1, - 1, 1), (- 1, 0, - 1), (- 1, 0, 0), (- 1, 0, 1),
      (- 1, 1, - 1), (- 1, 1, 0), (- 1, 1, 1),
      (0, - 1, - 1), (0, - 1, 0), (0, - 1, 1), (0, 0, - 1), (0, 0, 1),
      (0, 1, - 1), (0, 1, 0), (0, 1, 1),
      (1, - 1, - 1), (1, - 1, 0), (1, - 1, 1), (1, 0, - 1), (1, 0, 0), (1, 0, 1),
      (1, 1, - 1), (1, 1, 0), (1, 1, 1)]"
  by (simp add: shifts_def upto_rec1)

lemma keep_near: "x\<^sup>2 + y\<^sup>2 + z\<^sup>2 \<le> 1 \<Longrightarrow> (3 \<le> exp (- norm3 (x, y, z)) * 10) = True"
  using exp_minus_sqrt_keep [of "x\<^sup>2 + y\<^sup>2 + z\<^sup>2"] by (simp add: norm3_def)

lemma drop_far: "2 \<le> x\<^sup>2 + y\<^sup>2 + z\<^sup>2 \<Longrightarrow> (3 \<le> exp (- norm3 (x, y, z)) * 10) = False"
  using exp_minus_sqrt_drop [of "x\<^sup>2 + y\<^sup>2 + z\<^sup>2"] by (simp add: norm3_def)

lemma det_slab: "det3 ((2, 0, 0), (0, 1, 0), (0, 0, 2)) = 4"
  by (simp add: det3_def)

lemma copies_slab:
  "copies (\<lambda>x. exp (- x)) (3 / 10) 2 [(0, 0, 0)] ((2, 0, 0), (0, 1, 0), (0, 0, 2))
     [(0, 0, 0)] [1] [1, 1, 1] =
   [([], []), ([], []), ([], []), ([], []), ([], []), ([], []), ([], []), ([], []), ([], []),
    ([], []), ([(0, 1, 0)], [1]), ([], []), ([], []), ([], []), ([], []), ([(0, - 1, 0)], [1]), ([], []),
    ([], []), ([], []), ([], []), ([], []), ([], []), ([], []), ([], []), ([], []), ([], [])]"
  by (simp add: copies_def shifts_111 pos_copy_cartesian_def valids_mask_def masked_def
      sub3_def vec_mat_def keep_near drop_far Let_def)

lemma scaled_slab:
  "get_scaled_positions slab_system = Inr [(0, 0, 0)]"
  by (simp add: get_scaled_positions_def slab_system_def det3_def scaled_position_def wrap1_def)

lemma scaled_slab_extended:
  "get_scaled_positions slab_extended = Inr [(0, 0, 0), (0, 1, 0), (0, - 1, 0)]"
  by (simp add: get_scaled_positions_def slab_extended_def det3_def scaled_position_def wrap1_def)

lemma copies_slab_extended:
  "copies (\<lambda>x. exp (- x)) (3 / 10) 2 [(0, 0, 0), (0, 1, 0), (0, - 1, 0)]
     ((2, 0, 0), (0, 1, 0), (0, 0, 2))
     [(0, 0, 0), (0, 1, 0), (0, - 1, 0)] [1, 1, 1] [1, 1, 1] =
   [([], []), ([], []), ([], []), ([], []), ([], []), ([], []), ([], []), ([], []), ([], []),
    ([], []), ([(0, 1, 0), (0, 2, 0), (0, 0, 0)], [1, 1, 1]), ([], []), ([], []), ([], []), ([], []),
    ([(0, - 1, 0), (0, 0, 0), (0, - 2, 0)], [1, 1, 1]), ([], []),
    ([], []), ([], []), ([], []), ([], []), ([], []), ([], []), ([], []), ([], []), ([], [])]"
  by (simp add: copies_def shifts_111 pos_copy_cartesian_def valids_mask_def masked_def
      sub3_def vec_mat_def keep_near drop_far Let_def)

lemma slab_first_expansion:
  "create_extended_system periodic_mbtr slab_system 2 = Some (Inr slab_extended)"
proof -
  have c: "cell slab_system = ((2, 0, 0), (0, 1, 0), (0, 0, 2))"
    by (simp add: slab_system_def)
  show ?thesis
    by (simp add: create_extended_system_def scaled_slab weighting_of_periodic c lengths_slab
        n_copies_slab)
       (simp add: slab_system_def copies_slab slab_extended_def)
qed

lemma slab_second_expansion:
  "create_extended_system periodic_mbtr slab_extended 2 = Some (Inr slab_extended_twice)"
proof -
  have c: "cell slab_extended = ((2, 0, 0), (0, 1, 0), (0, 0, 2))"
    by (simp add: slab_extended_def)
  show ?thesis
    by (simp add: create_extended_system_def scaled_slab_extended weighting_of_periodic c
        lengths_slab n_copies_slab)
       (simp add: slab_extended_def copies_slab_extended slab_extended_twice_def)
qed

text \<open>
  Claim C1, which the code does not meet. The claim: for each of the three cell-vector
  directions the copy count is the smallest \<open>c\<close> whose weight at \<open>c\<close> times that direction's
  own length falls below the cutoff. The loop measures every direction with the length of
  the first cell vector. For the cell with lengths 2, 1, 2, scale 1, cutoff 0.3 and order 2
  the counts are 1, 1, 1, while along the second direction (length 1) the weight at one
  copy, \<open>exp(-1)\<close>, is not below the cutoff: the smallest count for that direction is 2.
\<close>

theorem copies_measured_with_first_length:
  "weighting_of periodic_mbtr 2 = Inr (\<lambda>x. exp (- x), 3 / 10) \<and>
   cell_vector_lengths (cell slab_system) = [2, 1, 2] \<and>
   n_copies_axis (\<lambda>x. exp (- x)) (3 / 10) (cell_vector_lengths (cell slab_system)) 2
     = Some [1, 1, 1] \<and>
   \<not> exp (- (real_of_int 1 * 1)) < (3 / 10 :: real) \<and>
   exp (- (real_of_int 2 * 1)) < (3 / 10 :: real)"
proof -
  have c: "cell slab_system = ((2, 0, 0), (0, 1, 0), (0, 0, 2))"
    by (simp add: slab_system_def)
  have a: "(3 / 10 :: real) \<le> exp (- sqrt 1)"
    by (rule exp_minus_sqrt_keep) simp
  have b: "exp (- sqrt 4) < (3 / 10 :: real)"
    by (rule exp_minus_sqrt_drop) simp
  from a b show ?thesis
    by (simp add: weighting_of_periodic c lengths_slab n_copies_slab)
qed

text \<open>
  Claim C6 as stated fails: expanding the expansion of \<open>slab_system\<close> once more adds six
  atoms, one of them at a position that the first expansion does not hold.
\<close>

theorem reexpansion_adds_atoms:
  "create_extended_system periodic_mbtr slab_system 2 = Some (Inr slab_extended) \<and>
   create_extended_system periodic_mbtr slab_extended 2 = Some (Inr slab_extended_twice) \<and>
   length (positions slab_extended) = 3 \<and>
   length (positions slab_extended_twice) = 9 \<and>
   (0, 2, 0) \<in> set (positions slab_extended_twice) \<and>
   (0, 2, 0) \<notin> set (positions slab_extended)"
  using slab_first_expansion slab_second_expansion
  by (simp add: slab_extended_def slab_extended_twice_def)

text \<open>
  Claim C6, amended. Expanding an expanded structure again, with the same order and
  weighting, always returns: the cell and so the copy counts are unchanged. The
  structure it returns starts with all atoms of the expanded structure, in their order,
  has the same cell and no periodicity; further image atoms may follow.
\<close>

theorem reexpansion_keeps_atoms:
  assumes "create_extended_system self s t = Some (Inr ext)"
  shows "\<exists>ext2 more_positions more_numbers.
           create_extended_system self ext t = Some (Inr ext2) \<and>
           positions ext2 = positions ext @ more_positions \<and>
           numbers ext2 = numbers ext @ more_numbers \<and>
           cell ext2 = cell ext \<and> pbc ext2 = (False, False, False)"
proof -
  from assms obtain relative_pos wfun cutoff n where
    r: "get_scaled_positions s = Inr relative_pos"
    and w: "weighting_of self t = Inr (wfun, cutoff)"
    and n: "n_copies_axis wfun cutoff (cell_vector_lengths (cell s)) t = Some n"
    and e: "cell ext = cell s"
    by (rule create_extended_system_cases) simp
  from r have d: "det3 (cell s) \<noteq> 0"
    by (auto simp: get_scaled_positions_def split: if_splits)
  from d e have d': "det3 (cell ext) \<noteq> 0" by simp
  from n e have n': "n_copies_axis wfun cutoff (cell_vector_lengths (cell ext)) t = Some n"
    by simp
  show ?thesis
    by (simp add: create_extended_system_returns [OF d' w n'])
qed

theorem reexpansion_keeps_atoms_witness:
  "\<exists>ext2 more_positions more_numbers.
     create_extended_system periodic_mbtr slab_extended 2 = Some (Inr ext2) \<and>
     positions ext2 = positions slab_extended @ more_positions \<and>
     numbers ext2 = numbers slab_extended @ more_numbers \<and>
     cell ext2 = cell slab_extended \<and> pbc ext2 = (False, False, False)"
  using reexpansion_keeps_atoms [OF slab_first_expansion] .

section \<open>Properties of \<open>update\<close> and of the checks in \<open>describe\<close>\<close>

lemma for_each_Inl:
  assumes "x \<in> set xs" and "body x = Inl e"
  shows "\<exists>y \<in> set xs. \<exists>e'. body y = Inl e' \<and> for_each body xs = Inl e'"
  using assms
proof (induction xs)
  case Nil
  then show ?case by simp
next
  case (Cons a xs)
  show ?case
  proof (cases "body a")
    case (Inl e')
    then show ?thesis by auto
  next
    case (Inr u)
    with Cons.prems have "x \<in> set xs" by auto
    from Cons.IH [OF this Cons.prems(2)] Inr show ?thesis by auto
  qed
qed

lemma for_each_Inr:
  assumes "for_each body xs = Inr u" and "x \<in> set xs"
  shows "body x = Inr ()"
  using assms
  by (induction xs) (auto split: sum.splits)

lemma check_needed_error:
  "check_needed weight_info needed = Inl e \<Longrightarrow> configuration_error e"
  by (auto simp: check_needed_def configuration_error_def split: list.splits)

lemma check_weighting_k_error:
  "check_weighting_k w i = Inl e \<Longrightarrow> configuration_error e"
  by (auto simp: check_weighting_k_def getitem_def Let_def configuration_error_def
      split: if_splits option.splits dest: check_needed_error)

lemma check_k_error: "check_k ka = Inl e \<Longrightarrow> configuration_error e"
  by (auto simp: check_k_def configuration_error_def split: k_arg.splits if_splits)

lemma check_periodic_k_missing:
  assumes "1 < i" and "weighting_missing wopt i"
    and "wopt = None \<or> (\<exists>w. wopt = Some w \<and> check_weighting_k w i = Inr ())"
  shows "check_periodic_k wopt i = Inl ValueError_periodic_needs_weighting"
  using assms
  by (auto simp: check_periodic_k_def weighting_missing_def check_weighting_k_def getitem_def
      dict_get_def Let_def split: option.splits if_splits)

lemma check_periodic_k_error:
  "check_periodic_k wopt i = Inl e \<Longrightarrow> configuration_error e"
  by (auto simp: check_periodic_k_def getitem_def configuration_error_def
      split: if_splits option.splits)

lemma update_configuration_error:
  assumes p: "periodic self"
    and k: "k_terms self = KIter xs" and i: "i \<in> set xs" "1 < i"
    and m: "weighting_missing (weighting self) i"
  shows "\<exists>e. update self = Inl e \<and> configuration_error e"
proof (cases "check_k (k_terms self)")
  case (Inl e)
  then show ?thesis
    by (auto simp: update_def dest: check_k_error)
next
  case (Inr kset)
  with k i have ik: "i \<in> set kset"
    by (auto simp: check_k_def split: if_splits)
  show ?thesis
  proof (cases "case weighting self of None \<Rightarrow> Inr ()
            | Some w \<Rightarrow> for_each (check_weighting_k w) kset")
    case (Inl e)
    then obtain w where w: "weighting self = Some w" "for_each (check_weighting_k w) kset = Inl e"
      by (cases "weighting self") simp_all
    have "configuration_error e"
    proof -
      have "\<exists>y \<in> set kset. check_weighting_k w y = Inl e"
        using w(2) by (induction kset) (auto split: sum.splits)
      then show ?thesis by (auto dest: check_weighting_k_error)
    qed
    with Inl Inr show ?thesis
      by (auto simp: update_def)
  next
    case c2: (Inr u)
    have ok: "weighting self = None \<or>
              (\<exists>w. weighting self = Some w \<and> check_weighting_k w i = Inr ())"
    proof (cases "weighting self")
      case None
      then show ?thesis by simp
    next
      case (Some w)
      with c2 have "for_each (check_weighting_k w) kset = Inr u" by simp
      from for_each_Inr [OF this ik] Some show ?thesis by simp
    qed
    have "check_periodic_k (weighting self) i = Inl ValueError_periodic_needs_weighting"
      by (rule check_periodic_k_missing [OF i(2) m ok])
    from for_each_Inl [where body = "check_periodic_k (weighting self)", OF ik this]
    obtain e' y where
      e': "check_periodic_k (weighting self) y = Inl e'"
          "for_each (check_periodic_k (weighting self)) kset = Inl e'"
      by blast
    from e'(1) have "configuration_error e'" by (rule check_periodic_k_error)
    with Inr c2 p e'(2) show ?thesis
      by (auto simp: update_def)
  qed
qed

lemma describe_update_error:
  assumes "update self = Inl e"
  shows "describe agg self s = Some ([], Inl e)"
  using assms
  by (simp add: describe_def initialize_scalars_def then_run_def of_sum_def)

text \<open>
  Claim C4. For every configuration with \<open>periodic = True\<close> and a requested order above 1
  whose weighting specification is absent, \<open>None\<close> or has the function unity, a
  configuration error is raised when the configuration is resolved: in the constructor,
  and in every call of \<open>describe\<close>, which ends with that error before any expansion or
  aggregation is called (the list of calls is empty) and returns nothing.
\<close>

theorem periodic_needs_weighting:
  assumes "periodic self"
    and "k_terms self = KIter xs" and "i \<in> set xs" and "1 < i"
    and "weighting_missing (weighting self) i"
  shows "(\<exists>e. configuration_error e \<and>
              init (atomic_numbers self) (k_terms self) (periodic self) (grid self)
                   (weighting self) (normalize_by_volume self) (normalize_gaussians self)
                   (flatten self) = Inl e) \<and>
         (\<exists>e. configuration_error e \<and> update self = Inl e \<and>
              (\<forall>agg s. describe agg self s = Some ([], Inl e)))"
proof
  let ?new = "\<lparr>k_terms = k_terms self, atomic_numbers = remdups (atomic_numbers self),
               grid = grid self, weighting = weighting self, periodic = periodic self,
               normalize_by_volume = normalize_by_volume self,
               normalize_gaussians = normalize_gaussians self, flatten = flatten self,
               n_elements = 0, atomic_number_to_index = Map.empty,
               index_to_atomic_number = Map.empty,
               max_atomic_number = 0, min_atomic_number = 0\<rparr>"
  have "\<exists>e. update ?new = Inl e \<and> configuration_error e"
    by (rule update_configuration_error [where xs = xs and i = i]) (simp_all add: assms)
  then show "\<exists>e. configuration_error e \<and>
              init (atomic_numbers self) (k_terms self) (periodic self) (grid self)
                   (weighting self) (normalize_by_volume self) (normalize_gaussians self)
                   (flatten self) = Inl e"
    by (auto simp: init_def)
next
  from update_configuration_error [OF assms] obtain e where
    "update self = Inl e" "configuration_error e" by blast
  then show "\<exists>e. configuration_error e \<and> update self = Inl e \<and>
              (\<forall>agg s. describe agg self s = Some ([], Inl e))"
    by (auto simp: describe_update_error)
qed

theorem periodic_needs_weighting_witness:
  "periodic (example_mbtr\<lparr>periodic := True\<rparr>) \<and>
   k_terms (example_mbtr\<lparr>periodic := True\<rparr>) = KIter [1, 2, 3] \<and>
   (2::int) \<in> set [1, 2, 3] \<and> (1::int) < 2 \<and>
   weighting_missing (weighting (example_mbtr\<lparr>periodic := True\<rparr>)) 2 \<and>
   (\<exists>e. configuration_error e \<and>
        init [8, 1] (KIter [1, 2, 3]) True None None False True True = Inl e) \<and>
   (\<exists>e. configuration_error e \<and> update (example_mbtr\<lparr>periodic := True\<rparr>) = Inl e \<and>
        (\<forall>agg s. describe agg (example_mbtr\<lparr>periodic := True\<rparr>) s = Some ([], Inl e)))"
  using periodic_needs_weighting [of "example_mbtr\<lparr>periodic := True\<rparr>" "[1, 2, 3]" 2]
  by (simp add: example_mbtr_def weighting_missing_def)

lemma index_maps_fold_dom:
  "dom (fst (fold (\<lambda>(i_atom, atomic_number) (a2i, i2a).
             (a2i(atomic_number \<mapsto> i_atom), i2a(i_atom \<mapsto> atomic_number)))
          (zip is nums) (m1, m2))) = dom m1 \<union> set (map snd (zip is nums))"
proof (induction nums arbitrary: "is" m1 m2)
  case Nil
  then show ?case by simp
next
  case (Cons z nums)
  show ?case
  proof (cases "is")
    case Nil
    then show ?thesis by simp
  next
    case (Cons i is')
    then show ?thesis
      using Cons.IH [of is' "m1(z \<mapsto> i)" "m2(i \<mapsto> z)"] by auto
  qed
qed

lemma dom_index_maps: "dom (fst (index_maps nums)) = set nums"
  unfolding index_maps_def by (simp add: index_maps_fold_dom)

lemma update_index_dom:
  assumes "update self0 = Inr self"
  shows "dom (atomic_number_to_index self) = set (atomic_numbers self0)"
proof -
  from assms have "atomic_number_to_index self = fst (index_maps (sort (atomic_numbers self0)))"
    by (rule update_Inr_E) simp
  then show ?thesis by (simp add: dom_index_maps)
qed

lemma collect_indices_undeclared:
  assumes "z \<in> set xs" and "a2i z = None"
  shows "\<exists>z' \<in> set xs. a2i z' = None \<and>
           collect_indices a2i xs present = Inl (KeyError_undeclared_element z')"
  using assms
proof (induction xs arbitrary: present)
  case Nil
  then show ?case by simp
next
  case (Cons x xs)
  show ?case
  proof (cases "a2i x")
    case None
    then show ?thesis by auto
  next
    case (Some index)
    with Cons.prems have "z \<in> set xs" by auto
    from Cons.IH [OF this Cons.prems(2), of "insert index present"] Some
    show ?thesis by auto
  qed
qed

lemma describe_undeclared:
  assumes u: "update self0 = Inr self"
    and z: "z \<in> set (numbers s)" "z \<notin> set (atomic_numbers self0)"
  shows "\<exists>z'. z' \<in> set (numbers s) \<and> z' \<notin> set (atomic_numbers self0) \<and>
           describe agg self0 s = Some ([], Inl (KeyError_undeclared_element z'))"
proof -
  have n: "atomic_number_to_index self z = None"
    using update_index_dom [OF u] z(2) by (metis domIff)
  have "z \<in> set (remdups (numbers s))" using z(1) by simp
  from collect_indices_undeclared [where ?a2i = "atomic_number_to_index self", OF this n, of "{}"]
  obtain z' where
    z': "z' \<in> set (numbers s)" "atomic_number_to_index self z' = None"
    "collect_indices (atomic_number_to_index self) (remdups (numbers s)) {}
       = Inl (KeyError_undeclared_element z')"
    by auto
  from z'(2) have "z' \<notin> set (atomic_numbers self0)"
    using update_index_dom [OF u] by (metis domIff)
  moreover have "describe agg self0 s = Some ([], Inl (KeyError_undeclared_element z'))"
    using u z'(3)
    by (simp add: describe_def initialize_scalars_def then_run_def of_sum_def)
  ultimately show ?thesis using z'(1) by blast
qed


lemma check_grid_other:
  "check_grid is h = Inr g' \<Longrightarrow> key \<notin> kname ` set is \<Longrightarrow> g' key = h key"
proof (induction "is" arbitrary: h)
  case Nil
  then show ?case by simp
next
  case (Cons i "is")
  show ?case
  proof (cases "h (kname i)")
    case None
    with Cons show ?thesis by simp
  next
    case (Some info)
    with Cons.prems obtain info' where
      c: "check_grid is (h(kname i \<mapsto> info')) = Inr g'"
      by (auto split: sum.splits)
    from Cons.prems(2) have "key \<noteq> kname i" "key \<notin> kname ` set is" by auto
    with Cons.IH [OF c] show ?thesis by simp
  qed
qed

lemma check_grid_info_idem:
  assumes "check_grid_info info = Inr info'"
  shows "check_grid_info info' = Inr info'"
proof -
  from assms have p: "info ''min'' \<noteq> None" "info ''max'' \<noteq> None" "info ''sigma'' \<noteq> None"
    "info ''n'' \<noteq> None"
    by (auto simp: check_grid_info_def split: list.splits if_splits)
  from assms p have i: "info' = info(''n'' \<mapsto> real_of_int (py_int (the (info ''n''))))"
    and lt: "the (info' ''min'') < the (info' ''max'')"
    by (auto simp: check_grid_info_def Let_def split: if_splits)
  have "info'(''n'' \<mapsto> real_of_int (py_int (the (info' ''n'')))) = info'"
    by (simp add: i py_int_of_int)
  moreover have "filter (\<lambda>val_name. info' val_name = None) [''min'', ''max'', ''sigma'', ''n''] = []"
    using p by (simp add: i)
  ultimately show ?thesis
    using lt by (simp add: check_grid_info_def Let_def)
qed

lemma check_grid_idem:
  "check_grid is g = Inr g' \<Longrightarrow> distinct (map kname is) \<Longrightarrow> check_grid is g' = Inr g'"
proof (induction "is" arbitrary: g)
  case Nil
  then show ?case by simp
next
  case (Cons i "is")
  from Cons.prems(2) have ni: "kname i \<notin> kname ` set is" and d: "distinct (map kname is)"
    by auto
  show ?case
  proof (cases "g (kname i)")
    case None
    with Cons.prems have c: "check_grid is g = Inr g'" by simp
    from check_grid_other [OF c ni] None have "g' (kname i) = None" by simp
    with Cons.IH [OF c d] show ?thesis by simp
  next
    case (Some info)
    with Cons.prems obtain info' where
      ci: "check_grid_info info = Inr info'"
      and c: "check_grid is (g(kname i \<mapsto> info')) = Inr g'"
      by (auto split: sum.splits)
    from check_grid_other [OF c ni] have gi: "g' (kname i) = Some info'" by simp
    then have "g'(kname i \<mapsto> info') = g'" by (rule map_upd_triv)
    with Cons.IH [OF c d] gi check_grid_info_idem [OF ci] show ?thesis by simp
  qed
qed

lemma check_k_result:
  assumes "check_k ka = Inr kset"
  shows "set kset \<subseteq> {1, 2, 3}" and "distinct kset" and "sorted kset"
    and "check_k (KIter kset) = Inr kset"
proof -
  from assms obtain xs where x: "ka = KIter xs" "set xs \<subseteq> {1, 2, 3}" "kset = sort (remdups xs)"
    by (auto simp: check_k_def split: k_arg.splits if_splits)
  then show "set kset \<subseteq> {1, 2, 3}" "distinct kset" "sorted kset" by simp_all
  then show "check_k (KIter kset) = Inr kset"
    by (simp add: check_k_def distinct_remdups_id sort_key_id_if_sorted)
qed

lemma distinct_knames:
  assumes "set kset \<subseteq> {1, 2, 3}" and "distinct kset"
  shows "distinct (map kname kset)"
proof -
  have "inj_on kname {1, 2, 3}"
    by (simp add: inj_on_def kname_def)
  then have "inj_on kname (set kset)"
    using assms(1) by (rule inj_on_subset)
  with assms(2) show ?thesis by (simp add: distinct_map)
qed

lemma update_idem:
  assumes "update self0 = Inr self"
  shows "update self = Inr self"
proof -
  from assms obtain kset grid' where
    k1: "check_k (k_terms self0) = Inr kset"
    and w: "weighting self0 = None \<or> (\<exists>w. weighting self0 = Some w \<and> for_each (check_weighting_k w) kset = Inr ())"
    and p: "periodic self0 \<longrightarrow> for_each (check_periodic_k (weighting self0)) kset = Inr ()"
    and g: "(grid self0 = None \<and> grid' = None) \<or>
       (\<exists>g g'. grid self0 = Some g \<and> check_grid kset g = Inr g' \<and> grid' = Some g')"
    and n: "atomic_numbers self0 \<noteq> []"
    and s: "self = self0\<lparr>k_terms := KIter kset, grid := grid',
                    atomic_numbers := sort (atomic_numbers self0),
                    atomic_number_to_index := fst (index_maps (sort (atomic_numbers self0))),
                    index_to_atomic_number := snd (index_maps (sort (atomic_numbers self0))),
                    n_elements := length (sort (atomic_numbers self0)),
                    max_atomic_number := Max (set (sort (atomic_numbers self0))),
                    min_atomic_number := Min (set (sort (atomic_numbers self0)))\<rparr>"
    by (rule update_Inr_E)
  note kr = check_k_result [OF k1]
  have a: "check_k (k_terms self) = Inr kset"
    using kr(4) by (simp add: s)
  have b: "(case weighting self of None \<Rightarrow> Inr ()
            | Some w \<Rightarrow> for_each (check_weighting_k w) kset) = Inr ()"
    using w by (auto simp: s)
  have c: "(if periodic self then for_each (check_periodic_k (weighting self)) kset
            else Inr ()) = Inr ()"
    using p by (simp add: s)
  have d: "(case grid self of None \<Rightarrow> Inr None
            | Some g \<Rightarrow>
                (case check_grid kset g of Inl e \<Rightarrow> Inl e | Inr g' \<Rightarrow> Inr (Some g'))) = Inr grid'"
    using g check_grid_idem [OF _ distinct_knames [OF kr(1) kr(2)]]
    by (auto simp: s)
  have e: "sort (atomic_numbers self) = atomic_numbers self" "atomic_numbers self \<noteq> []"
  proof -
    show "sort (atomic_numbers self) = atomic_numbers self"
      by (simp add: s sort_key_id_if_sorted)
    have "sort (atomic_numbers self0) \<noteq> []"
      using n by (metis length_0_conv length_sort)
    then show "atomic_numbers self \<noteq> []" by (simp add: s)
  qed
  have "update self = Inr (self\<lparr>k_terms := KIter kset, grid := grid',
                    atomic_numbers := atomic_numbers self,
                    atomic_number_to_index := fst (index_maps (atomic_numbers self)),
                    index_to_atomic_number := snd (index_maps (atomic_numbers self)),
                    n_elements := length (atomic_numbers self),
                    max_atomic_number := Max (set (atomic_numbers self)),
                    min_atomic_number := Min (set (atomic_numbers self))\<rparr>)"
    unfolding update_def by (simp only: a b c d e sum.case Let_def if_False)
  also have "\<dots> = Inr self"
    by (simp add: s)
  finally show ?thesis .
qed

text \<open>
  Claim C5. For every structure that contains an atomic number outside the declared set,
  \<open>describe\<close> raises the error that names such a number of the structure, before any
  expansion or aggregation is called; and it does so in every call, on the configuration
  as given and on the object as the constructor or an earlier call left it.
\<close>

theorem undeclared_element_raises:
  assumes "update self0 = Inr self"
    and "z \<in> set (numbers s)" and "z \<notin> set (atomic_numbers self0)"
  shows "\<exists>z'. z' \<in> set (numbers s) \<and> z' \<notin> set (atomic_numbers self0) \<and>
           describe agg self0 s = Some ([], Inl (KeyError_undeclared_element z')) \<and>
           describe agg self s = Some ([], Inl (KeyError_undeclared_element z'))"
proof -
  from describe_undeclared [OF assms] obtain z' where
    z': "z' \<in> set (numbers s)" "z' \<notin> set (atomic_numbers self0)"
    "describe agg self0 s = Some ([], Inl (KeyError_undeclared_element z'))"
    by blast
  have "describe agg self s = describe agg self0 s"
    using assms(1) update_idem [OF assms(1)]
    by (simp add: describe_def initialize_scalars_def then_run_def of_sum_def)
  with z' show ?thesis by auto
qed

theorem undeclared_element_raises_witness:
  "\<exists>self. update example_mbtr = Inr self \<and>
     6 \<in> set (numbers hc_system) \<and> 6 \<notin> set (atomic_numbers example_mbtr) \<and>
     (\<exists>z'. z' \<in> set (numbers hc_system) \<and> z' \<notin> set (atomic_numbers example_mbtr) \<and>
        describe no_combinations example_mbtr hc_system = Some ([], Inl (KeyError_undeclared_element z')) \<and>
        describe no_combinations self hc_system = Some ([], Inl (KeyError_undeclared_element z')))"
proof -
  obtain self where u: "update example_mbtr = Inr self"
    using update_example by blast
  have z: "6 \<in> set (numbers hc_system)" "6 \<notin> set (atomic_numbers example_mbtr)"
    by (simp_all add: hc_system_def example_mbtr_def)
  from undeclared_element_raises [OF u z] u z show ?thesis
    by blast
qed

section \<open>Properties of the tensor assembly and the feature count\<close>

lemma set_slice_length:
  "set_slice row start stop vals = Inr row' \<Longrightarrow> length row' = length row"
  by (auto simp: set_slice_def Let_def split: if_splits)

lemma set_last_axis_shape:
  "set_last_axis t idx vals = Inr t' \<Longrightarrow> tensor_shape t' = tensor_shape t"
  by (auto simp: set_last_axis_def split: tensor.splits option.splits if_splits)

lemma for_loop_invariant:
  assumes "for_loop body xs s = Inr s'" and "P s"
    and "\<And>x t t'. P t \<Longrightarrow> body x t = Inr t' \<Longrightarrow> P t'"
  shows "P s'"
  using assms(1,2)
proof (induction xs arbitrary: s)
  case Nil
  then show ?case by simp
next
  case (Cons x xs)
  from Cons.prems(1) obtain t where t: "body x s = Inr t" "for_loop body xs t = Inr s'"
    by (auto split: sum.splits)
  from assms(3) [OF Cons.prems(2) t(1)] have "P t" .
  from Cons.IH [OF t(2) this] show ?case .
qed

lemma assign_shape:
  assumes "(case t of
              Sparse row \<Rightarrow> map_sum id Sparse (set_slice row a b gs)
            | Dense x y \<Rightarrow> set_last_axis t idx gs) = Inr t'"
  shows "tensor_shape t' = tensor_shape t"
proof (cases t)
  case (Sparse row)
  with assms obtain row' where "set_slice row a b gs = Inr row'" "t' = Sparse row'"
    by (cases "set_slice row a b gs") auto
  with Sparse show ?thesis by (simp add: set_slice_length)
next
  case (Dense shape entries)
  with assms show ?thesis by (simp add: set_last_axis_shape)
qed

lemma K1_shape:
  assumes "K1 self st sc = Inr t"
  shows "0 \<le> grid_n st \<and>
         tensor_shape t = (if flatten self then [1, n_elements self * nat (grid_n st)]
                           else [n_elements self, nat (grid_n st)])"
proof -
  from assms have n: "0 \<le> grid_n st"
    by (auto simp: K1_def Let_def split: if_splits)
  from assms n obtain geoms body where
    l: "for_loop body (enumerate_keys (sorted_keys geoms))
          (if flatten self then Sparse (replicate (n_elements self * nat (grid_n st)) 0)
           else Dense [n_elements self, nat (grid_n st)]
                  (replicate (n_elements self * nat (grid_n st)) 0)) = Inr t"
    and b: "body = (\<lambda>(m, key) k1.
                     if key = [] then Inl IndexError
                     else
                       (let i = key ! 0
                        in case broadened self st geoms (k1_weights sc) key of
                             Inl e \<Rightarrow> Inl e
                           | Inr gs \<Rightarrow>
                               (case k1 of
                                  Sparse row \<Rightarrow>
                                    map_sum id Sparse
                                      (set_slice row (i * nat (grid_n st)) ((i + 1) * nat (grid_n st)) gs)
                                | Dense _ _ \<Rightarrow> set_last_axis k1 [i] gs)))"
    by (auto simp: K1_def Let_def split: if_splits option.splits)
  let ?sh = "(if flatten self then [1, n_elements self * nat (grid_n st)]
                           else [n_elements self, nat (grid_n st)])"
  have "tensor_shape t = ?sh"
  proof (rule for_loop_invariant [OF l, where P = "\<lambda>t. tensor_shape t = ?sh"])
    show "tensor_shape (if flatten self then Sparse (replicate (n_elements self * nat (grid_n st)) 0)
           else Dense [n_elements self, nat (grid_n st)]
                  (replicate (n_elements self * nat (grid_n st)) 0)) = ?sh"
      by simp
  next
    fix x t t'
    assume p: "tensor_shape t = ?sh" and s: "body x t = Inr t'"
    from s have "tensor_shape t' = tensor_shape t"
      unfolding b
      by (auto simp: Let_def split: prod.splits if_splits sum.splits dest: assign_shape)
    with p show "tensor_shape t' = ?sh" by simp
  qed
  with n show ?thesis by simp
qed


lemma K2_shape:
  assumes "K2 self st sc = Inr t"
  shows "0 \<le> grid_n st \<and>
         tensor_shape t =
           (if flatten self
            then [1, nat (py_int (real (n_elements self) * (real (n_elements self) + 1) / 2
                                   * real_of_int (grid_n st)))]
            else [n_elements self, n_elements self, nat (grid_n st)])"
proof -
  from assms have n: "0 \<le> grid_n st"
    by (auto simp: K2_def Let_def split: if_splits)
  let ?init = "if flatten self
                   then Sparse (replicate
                          (nat (py_int (real (n_elements self) * (real (n_elements self) + 1) / 2
                             * real_of_int (grid_n st)))) 0)
                   else Dense [n_elements self, n_elements self, nat (grid_n st)]
                          (replicate (n_elements self * n_elements self * nat (grid_n st)) 0)"
  from assms n obtain geoms body where
    l: "for_loop body (enumerate_keys (sorted_keys geoms)) ?init = Inr t"
    and b: "body = (\<lambda>(m, key) k2.
                     if length key < 2 then Inl IndexError
                     else
                       (let i = key ! 0; j = key ! 1
                        in case broadened self st geoms (k2_weights sc) key of
                             Inl e \<Rightarrow> Inl e
                           | Inr gs \<Rightarrow>
                               (case k2 of
                                  Sparse row \<Rightarrow>
                                    map_sum id Sparse
                                      (set_slice row (m * nat (grid_n st)) ((m + 1) * nat (grid_n st)) gs)
                                | Dense _ _ \<Rightarrow> set_last_axis k2 [i, j] gs)))"
    by (auto simp: K2_def Let_def split: if_splits option.splits)
  let ?sh = "(if flatten self
            then [1, nat (py_int (real (n_elements self) * (real (n_elements self) + 1) / 2
                                   * real_of_int (grid_n st)))]
            else [n_elements self, n_elements self, nat (grid_n st)])"
  have "tensor_shape t = ?sh"
  proof (rule for_loop_invariant [OF l, where P = "\<lambda>t. tensor_shape t = ?sh"])
    show "tensor_shape ?init = ?sh"
      by simp
  next
    fix x t t'
    assume p: "tensor_shape t = ?sh" and s: "body x t = Inr t'"
    from s have "tensor_shape t' = tensor_shape t"
      unfolding b
      by (auto simp: Let_def split: prod.splits if_splits sum.splits dest: assign_shape)
    with p show "tensor_shape t' = ?sh" by simp
  qed
  with n show ?thesis by simp
qed

lemma K3_shape:
  assumes "K3 self st sc = Inr t"
  shows "0 \<le> grid_n st \<and>
         tensor_shape t =
           (if flatten self
            then [1, nat (py_int (real (n_elements self) * real (n_elements self)
                                   * (real (n_elements self) + 1) / 2
                                   * real_of_int (grid_n st)))]
            else [n_elements self, n_elements self, n_elements self, nat (grid_n st)])"
proof -
  from assms have n: "0 \<le> grid_n st"
    by (auto simp: K3_def Let_def split: if_splits)
  let ?init = "if flatten self
                   then Sparse (replicate
                          (nat (py_int (real (n_elements self) * real (n_elements self)
                                   * (real (n_elements self) + 1) / 2
                                   * real_of_int (grid_n st)))) 0)
                   else Dense [n_elements self, n_elements self, n_elements self, nat (grid_n st)]
                          (replicate (n_elements self * n_elements self * n_elements self
                             * nat (grid_n st)) 0)"
  from assms n obtain geoms body where
    l: "for_loop body (enumerate_keys (sorted_keys geoms)) ?init = Inr t"
    and b: "body = (\<lambda>(m, key) k3.
                     if length key < 3 then Inl IndexError
                     else
                       (let i = key ! 0; j = key ! 1; l = key ! 2
                        in case broadened self st geoms (k3_weights sc) key of
                             Inl e \<Rightarrow> Inl e
                           | Inr gs \<Rightarrow>
                               (case k3 of
                                  Sparse row \<Rightarrow>
                                    map_sum id Sparse
                                      (set_slice row (m * nat (grid_n st)) ((m + 1) * nat (grid_n st)) gs)
                                | Dense _ _ \<Rightarrow> set_last_axis k3 [i, j, l] gs)))"
    by (auto simp: K3_def Let_def split: if_splits option.splits)
  let ?sh = "(if flatten self
            then [1, nat (py_int (real (n_elements self) * real (n_elements self)
                                   * (real (n_elements self) + 1) / 2
                                   * real_of_int (grid_n st)))]
            else [n_elements self, n_elements self, n_elements self, nat (grid_n st)])"
  have "tensor_shape t = ?sh"
  proof (rule for_loop_invariant [OF l, where P = "\<lambda>t. tensor_shape t = ?sh"])
    show "tensor_shape ?init = ?sh"
      by simp
  next
    fix x t t'
    assume p: "tensor_shape t = ?sh" and s: "body x t = Inr t'"
    from s have "tensor_shape t' = tensor_shape t"
      unfolding b
      by (auto simp: Let_def split: prod.splits if_splits sum.splits dest: assign_shape)
    with p show "tensor_shape t' = ?sh" by simp
  qed
  with n show ?thesis by simp
qed

lemma real_half_product: "real (m * (m + 1) div 2) = real m * (real m + 1) / 2"
proof -
  define h where "h = m * (m + 1) div 2"
  have "2 * h = m * (m + 1)"
    unfolding h_def by simp
  then have "real (2 * h) = real (m * (m + 1))"
    by (rule arg_cong)
  then have "2 * real h = real m * (real m + 1)"
    by (simp only: of_nat_mult of_nat_add of_nat_1 of_nat_numeral)
  then have "real h = real m * (real m + 1) / 2"
    by linarith
  then show ?thesis
    unfolding h_def .
qed

lemma real_pairs:
  "real m * (real m + 1) / 2 * real_of_int n = real_of_int (int (m * (m + 1) div 2) * n)"
proof -
  have "real m * (real m + 1) / 2 * real_of_int n
          = real (m * (m + 1) div 2) * real_of_int n"
    by (simp only: real_half_product)
  also have "\<dots> = real_of_int (int (m * (m + 1) div 2) * n)"
    by simp
  finally show ?thesis .
qed

lemma real_triples:
  "real m * real m * (real m + 1) / 2 * real_of_int n
     = real_of_int (int (m * (m * (m + 1) div 2)) * n)"
proof -
  have "real m * real m * (real m + 1) / 2 * real_of_int n
          = real m * (real m * (real m + 1) / 2) * real_of_int n"
    by simp
  also have "\<dots> = real m * real (m * (m + 1) div 2) * real_of_int n"
    by (simp only: real_half_product)
  also have "\<dots> = real_of_int (int (m * (m * (m + 1) div 2)) * n)"
    by simp
  finally show ?thesis .
qed

lemma py_int_pairs:
  "py_int (real m * (real m + 1) / 2 * real_of_int n) = int (m * (m + 1) div 2) * n"
  by (simp only: real_pairs py_int_of_int)

lemma py_int_triples:
  "py_int (real m * real m * (real m + 1) / 2 * real_of_int n)
     = int (m * (m * (m + 1) div 2)) * n"
  by (simp only: real_triples py_int_of_int)

lemma then_run_returns:
  assumes "then_run r f = Some (evs, Inr b)"
  obtains evs1 a evs2 where "r = Some (evs1, Inr a)" "f a = Some (evs2, Inr b)"
    "evs = evs1 @ evs2"
  using assms
  by (auto simp: then_run_def split: option.splits prod.splits sum.splits)

lemma initialize_scalars_self:
  assumes "initialize_scalars agg self0 s = Some (evs, Inr (self', sc))"
  shows "update self0 = Inr self'"
proof -
  from assms obtain evs1 self evs2 where
    u: "of_sum (update self0) = Some (evs1, Inr self)"
    and r1: "then_run (of_sum (collect_indices (atomic_number_to_index self) (remdups (numbers s)) {}))
       (\<lambda>present.
     then_run (scalars_k1 agg self s (fresh_scalars s present)) (\<lambda>sc1.
     then_run (scalars_k2 agg self s sc1) (\<lambda>sc2.
     then_run (scalars_k3 agg self s sc2) (\<lambda>sc3.
     returns (self, sc3))))) = Some (evs2, Inr (self', sc))"
    unfolding initialize_scalars_def by (rule then_run_returns)
  from r1 obtain e1 present e2 where
    r2: "then_run (scalars_k1 agg self s (fresh_scalars s present)) (\<lambda>sc1.
     then_run (scalars_k2 agg self s sc1) (\<lambda>sc2.
     then_run (scalars_k3 agg self s sc2) (\<lambda>sc3.
     returns (self, sc3)))) = Some (e2, Inr (self', sc))"
    by (rule then_run_returns)
  from r2 obtain e3 sc1 e4 where
    r3: "then_run (scalars_k2 agg self s sc1) (\<lambda>sc2.
     then_run (scalars_k3 agg self s sc2) (\<lambda>sc3.
     returns (self, sc3))) = Some (e4, Inr (self', sc))"
    by (rule then_run_returns)
  from r3 obtain e5 sc2 e6 where
    r4: "then_run (scalars_k3 agg self s sc2) (\<lambda>sc3.
     returns (self, sc3)) = Some (e6, Inr (self', sc))"
    by (rule then_run_returns)
  from r4 obtain e7 sc3 e8 where "returns (self, sc3) = Some (e8, Inr (self', sc))"
    by (rule then_run_returns)
  then have "self' = self" by (simp add: returns_def)
  with u show ?thesis by (simp add: of_sum_def)
qed

lemma describe_returns:
  assumes "describe agg self0 s = Some (evs, Inr out)"
  obtains self sc where "update self0 = Inr self" "create_with_grid self sc s = Inr out"
proof -
  from assms obtain evs1 a evs2 where
    i: "initialize_scalars agg self0 s = Some (evs1, Inr a)"
    and c: "(case a of (self, sc) \<Rightarrow> of_sum (create_with_grid self sc s)) = Some (evs2, Inr out)"
    unfolding describe_def by (rule then_run_returns)
  obtain self sc where a: "a = (self, sc)" by (cases a)
  from i a have "update self0 = Inr self" by (simp add: initialize_scalars_self)
  moreover from c a have "create_with_grid self sc s = Inr out" by (simp add: of_sum_def)
  ultimately show thesis by (rule that)
qed

lemma order_term_cases:
  assumes "order_term self i get_settings K = Inr ts"
  shows "(i \<notin> set (ks self) \<and> ts = []) \<or>
         (i \<in> set (ks self) \<and> (\<exists>st t. get_settings self = Inr st \<and> K st = Inr t \<and> ts = [t]))"
  using assms
  by (cases "K (projr (get_settings self))")
     (auto simp: order_term_def split: if_splits sum.splits)

lemma sparse_rows_length:
  "sparse_rows ts = Inr rows \<Longrightarrow>
     length (concat rows) = sum_list (map (\<lambda>t. tensor_shape t ! 1) ts)"
proof (induction ts arbitrary: rows rule: sparse_rows.induct)
  case 1
  then show ?case by simp
next
  case (2 row ts)
  then show ?case by (cases "sparse_rows ts") auto
next
  case (3 shape entries ts)
  then show ?case by simp
qed

lemma update_ks:
  assumes "update self0 = Inr self"
  shows "set (ks self) \<subseteq> {1, 2, 3}" and "flatten self = flatten self0"
proof -
  from assms obtain kset where k: "check_k (k_terms self0) = Inr kset"
    and s: "k_terms self = KIter kset" "flatten self = flatten self0"
    by (rule update_Inr_E) simp
  from check_k_result(1) [OF k] s show "set (ks self) \<subseteq> {1, 2, 3}"
    by (simp add: ks_def)
  from s show "flatten self = flatten self0" by simp
qed

lemma number_of_features_formula:
  assumes k: "set (ks self) \<subseteq> {1, 2, 3}"
    and s1: "1 \<in> set (ks self) \<longrightarrow> get_k1_settings self = Inr st1"
    and s2: "2 \<in> set (ks self) \<longrightarrow> get_k2_settings self = Inr st2"
    and s3: "3 \<in> set (ks self) \<longrightarrow> get_k3_settings self = Inr st3"
  shows "get_number_of_features self =
           Inr ((if 1 \<in> set (ks self) then int (n_elements self) * grid_n st1 else 0) +
                (if 2 \<in> set (ks self)
                 then int (n_elements self * (n_elements self + 1) div 2) * grid_n st2 else 0) +
                (if 3 \<in> set (ks self)
                 then int (n_elements self * (n_elements self * (n_elements self + 1) div 2))
                        * grid_n st3 else 0))"
proof -
  let ?N = "n_elements self"
  let ?c1 = "(if 1 \<in> set (ks self) then int ?N * grid_n st1 else 0)"
  let ?c2 = "(if 2 \<in> set (ks self) then int (?N * (?N + 1) div 2) * grid_n st2 else 0)"
  let ?c3 = "(if 3 \<in> set (ks self) then int (?N * (?N * (?N + 1) div 2)) * grid_n st3 else 0)"
  from k have z: "0 \<notin> set (ks self)" by auto
  have a: "(if 1 \<in> set (ks self)
            then map_sum id (\<lambda>st. real ?N * real_of_int (grid_n st)) (get_k1_settings self)
            else Inr 0) = Inr (real_of_int ?c1)"
    using s1 by simp
  have b: "(if 2 \<in> set (ks self)
            then map_sum id (\<lambda>st. (real ?N * (real ?N + 1) / 2) * real_of_int (grid_n st))
                   (get_k2_settings self)
            else Inr 0) = Inr (real_of_int ?c2)"
  proof (cases "2 \<in> set (ks self)")
    case True
    with s2 have "get_k2_settings self = Inr st2" by simp
    with True show ?thesis
      by (simp only: if_True map_sum.simps id_apply real_pairs)
  next
    case False
    then show ?thesis by simp
  qed
  have c: "(if 3 \<in> set (ks self)
            then map_sum id (\<lambda>st. (real ?N * real ?N * (real ?N + 1) / 2) * real_of_int (grid_n st))
                   (get_k3_settings self)
            else Inr 0) = Inr (real_of_int ?c3)"
  proof (cases "3 \<in> set (ks self)")
    case True
    with s3 have "get_k3_settings self = Inr st3" by simp
    with True show ?thesis
      by (simp only: if_True map_sum.simps id_apply real_triples)
  next
    case False
    then show ?thesis by simp
  qed
  have "get_number_of_features self =
          Inr (py_int (0 + real_of_int ?c1 + real_of_int ?c2 + real_of_int ?c3))"
    unfolding get_number_of_features_def Let_def
    by (simp only: z if_False a b c sum.case)
  also have "0 + real_of_int ?c1 + real_of_int ?c2 + real_of_int ?c3
               = real_of_int (?c1 + ?c2 + ?c3)"
    by simp
  finally show ?thesis by (simp only: py_int_of_int)
qed


lemma term_k1:
  assumes "order_term self 1 get_k1_settings (\<lambda>st. K1 self st sc) = Inr t1"
  obtains st1 where
    "1 \<in> set (ks self) \<longrightarrow> get_k1_settings self = Inr st1 \<and> 0 \<le> grid_n st1"
    "map tensor_shape t1 =
       (if 1 \<in> set (ks self)
        then [if flatten self then [1, n_elements self * nat (grid_n st1)]
              else [n_elements self, nat (grid_n st1)]]
        else [])"
proof (cases "1 \<in> set (ks self)")
  case False
  with order_term_cases [OF assms] have "t1 = []" by simp
  with False show thesis by (intro that [of undefined]) simp_all
next
  case True
  with order_term_cases [OF assms] obtain st t where
    st: "get_k1_settings self = Inr st" "K1 self st sc = Inr t" "t1 = [t]"
    by auto
  from K1_shape [OF st(2)] st True show thesis
    by (intro that [of st]) simp_all
qed

lemma term_k2:
  assumes "order_term self 2 get_k2_settings (\<lambda>st. K2 self st sc) = Inr t2"
  obtains st2 where
    "2 \<in> set (ks self) \<longrightarrow> get_k2_settings self = Inr st2 \<and> 0 \<le> grid_n st2"
    "map tensor_shape t2 =
       (if 2 \<in> set (ks self)
        then [if flatten self
              then [1, nat (int (n_elements self * (n_elements self + 1) div 2) * grid_n st2)]
              else [n_elements self, n_elements self, nat (grid_n st2)]]
        else [])"
proof (cases "2 \<in> set (ks self)")
  case False
  with order_term_cases [OF assms] have "t2 = []" by simp
  with False show thesis by (intro that [of undefined]) simp_all
next
  case True
  with order_term_cases [OF assms] obtain st t where
    st: "get_k2_settings self = Inr st" "K2 self st sc = Inr t" "t2 = [t]"
    by auto
  from K2_shape [OF st(2)] have
    "0 \<le> grid_n st \<and>
     tensor_shape t =
       (if flatten self
        then [1, nat (int (n_elements self * (n_elements self + 1) div 2) * grid_n st)]
        else [n_elements self, n_elements self, nat (grid_n st)])"
    by (simp only: py_int_pairs)
  with st True show thesis
    by (intro that [of st]) simp_all
qed

lemma term_k3:
  assumes "order_term self 3 get_k3_settings (\<lambda>st. K3 self st sc) = Inr t3"
  obtains st3 where
    "3 \<in> set (ks self) \<longrightarrow> get_k3_settings self = Inr st3 \<and> 0 \<le> grid_n st3"
    "map tensor_shape t3 =
       (if 3 \<in> set (ks self)
        then [if flatten self
              then [1, nat (int (n_elements self * (n_elements self * (n_elements self + 1) div 2))
                             * grid_n st3)]
              else [n_elements self, n_elements self, n_elements self, nat (grid_n st3)]]
        else [])"
proof (cases "3 \<in> set (ks self)")
  case False
  with order_term_cases [OF assms] have "t3 = []" by simp
  with False show thesis by (intro that [of undefined]) simp_all
next
  case True
  with order_term_cases [OF assms] obtain st t where
    st: "get_k3_settings self = Inr st" "K3 self st sc = Inr t" "t3 = [t]"
    by auto
  from K3_shape [OF st(2)] have
    "0 \<le> grid_n st \<and>
     tensor_shape t =
       (if flatten self
        then [1, nat (int (n_elements self * (n_elements self * (n_elements self + 1) div 2))
                       * grid_n st)]
        else [n_elements self, n_elements self, n_elements self, nat (grid_n st)])"
    by (simp only: py_int_triples)
  with st True show thesis
    by (intro that [of st]) simp_all
qed

lemma scale_tensor_shape: "tensor_shape (scale_tensor v t) = tensor_shape t"
  by (cases t) (simp_all add: scale_tensor_def)

lemma create_with_grid_cases:
  assumes "create_with_grid self sc s = Inr out"
  obtains t1 t2 t3 where
    "order_term self 1 get_k1_settings (\<lambda>st. K1 self st sc) = Inr t1"
    "order_term self 2 get_k2_settings (\<lambda>st. K2 self st sc) = Inr t2"
    "order_term self 3 get_k3_settings (\<lambda>st. K3 self st sc) = Inr t3"
    "flatten self \<longrightarrow>
       (\<exists>v. out = Flat v \<and>
            length v = sum_list (map (\<lambda>t. tensor_shape t ! 1) (t1 @ t2 @ t3)))"
    "\<not> flatten self \<longrightarrow>
       (\<exists>ts. out = Tensors ts \<and> map tensor_shape ts = map tensor_shape (t1 @ t2 @ t3))"
proof -
  from assms obtain t1 where
    t1: "order_term self 1 get_k1_settings (\<lambda>st. K1 self st sc) = Inr t1"
    by (cases "order_term self 1 get_k1_settings (\<lambda>st. K1 self st sc)")
       (simp_all add: create_with_grid_def)
  from assms t1 obtain t2 where
    t2: "order_term self 2 get_k2_settings (\<lambda>st. K2 self st sc) = Inr t2"
    by (cases "order_term self 2 get_k2_settings (\<lambda>st. K2 self st sc)")
       (simp_all add: create_with_grid_def)
  from assms t1 t2 obtain t3 where
    t3: "order_term self 3 get_k3_settings (\<lambda>st. K3 self st sc) = Inr t3"
    by (cases "order_term self 3 get_k3_settings (\<lambda>st. K3 self st sc)")
       (simp_all add: create_with_grid_def)
  from assms t1 t2 t3 have r:
    "(if flatten self then
                (case sparse_rows (t1 @ t2 @ t3) of
                   Inl e \<Rightarrow> Inl e
                 | Inr rows \<Rightarrow>
                     if rows = [] then Inl ValueError_nothing_to_concatenate
                     else
                       (let final_vector = concat rows
                        in Inr (Flat (if normalize_by_volume self
                                      then map (\<lambda>v. v / get_volume s) final_vector
                                      else final_vector))))
              else Inr (Tensors (if normalize_by_volume self
                                 then map (scale_tensor (get_volume s)) (t1 @ t2 @ t3)
                                 else t1 @ t2 @ t3))) = Inr out"
    by (simp add: create_with_grid_def Let_def)
  have f: "flatten self \<longrightarrow>
       (\<exists>v. out = Flat v \<and>
            length v = sum_list (map (\<lambda>t. tensor_shape t ! 1) (t1 @ t2 @ t3)))"
  proof
    assume fl: "flatten self"
    with r obtain rows where rows: "sparse_rows (t1 @ t2 @ t3) = Inr rows"
      and o: "out = Flat (if normalize_by_volume self
                          then map (\<lambda>v. v / get_volume s) (concat rows) else concat rows)"
      by (cases "sparse_rows (t1 @ t2 @ t3)") (auto simp: Let_def split: if_splits)
    from sparse_rows_length [OF rows] o
    show "\<exists>v. out = Flat v \<and>
            length v = sum_list (map (\<lambda>t. tensor_shape t ! 1) (t1 @ t2 @ t3))"
      by (cases "normalize_by_volume self") simp_all
  qed
  have g: "\<not> flatten self \<longrightarrow>
       (\<exists>ts. out = Tensors ts \<and> map tensor_shape ts = map tensor_shape (t1 @ t2 @ t3))"
  proof
    assume "\<not> flatten self"
    with r have "out = Tensors (if normalize_by_volume self
                                 then map (scale_tensor (get_volume s)) (t1 @ t2 @ t3)
                                 else t1 @ t2 @ t3)"
      by simp
    then show "\<exists>ts. out = Tensors ts \<and> map tensor_shape ts = map tensor_shape (t1 @ t2 @ t3)"
      by (cases "normalize_by_volume self") (simp_all add: comp_def scale_tensor_shape)
  qed
  from t1 t2 t3 f g show thesis by (rule that)
qed


text \<open>
  Claim C3, amended. For every declared set of atomic numbers, every set of requested
  orders and every structure on which \<open>describe\<close> returns, \<open>get_number_of_features()\<close>
  is the sum of \<open>n_elements*n\<close> for order 1, \<open>n_elements*(n_elements+1)/2*n\<close> for order 2
  and \<open>n_elements*n_elements*(n_elements+1)/2*n\<close> for order 3, and with \<open>flatten = True\<close>
  it is the length of the vector that \<open>describe\<close> returns. With \<open>flatten = False\<close> the
  arrays returned have the shapes \<open>(n_elements, n)\<close>, \<open>(n_elements, n_elements, n)\<close> and
  \<open>(n_elements, n_elements, n_elements, n)\<close>, whose entries are not counted by
  \<open>get_number_of_features()\<close>.
\<close>

theorem feature_count:
  assumes "update self0 = Inr self" and "describe agg self0 s = Some (evs, Inr out)"
  shows "\<exists>st1 st2 st3.
           (1 \<in> set (ks self) \<longrightarrow> get_k1_settings self = Inr st1) \<and>
           (2 \<in> set (ks self) \<longrightarrow> get_k2_settings self = Inr st2) \<and>
           (3 \<in> set (ks self) \<longrightarrow> get_k3_settings self = Inr st3) \<and>
           get_number_of_features self =
             Inr ((if 1 \<in> set (ks self) then int (n_elements self) * grid_n st1 else 0) +
                  (if 2 \<in> set (ks self)
                   then int (n_elements self * (n_elements self + 1) div 2) * grid_n st2
                   else 0) +
                  (if 3 \<in> set (ks self)
                   then int (n_elements self * (n_elements self * (n_elements self + 1) div 2))
                          * grid_n st3
                   else 0)) \<and>
           (flatten self0 \<longrightarrow>
              (\<exists>v. out = Flat v \<and> get_number_of_features self = Inr (int (length v)))) \<and>
           (\<not> flatten self0 \<longrightarrow>
              (\<exists>ts. out = Tensors ts \<and>
                 map tensor_shape ts =
                   (if 1 \<in> set (ks self) then [[n_elements self, nat (grid_n st1)]] else []) @
                   (if 2 \<in> set (ks self)
                    then [[n_elements self, n_elements self, nat (grid_n st2)]] else []) @
                   (if 3 \<in> set (ks self)
                    then [[n_elements self, n_elements self, n_elements self, nat (grid_n st3)]]
                    else [])))"
proof -
  from assms(2) obtain self' sc where
    u': "update self0 = Inr self'" and c: "create_with_grid self' sc s = Inr out"
    by (rule describe_returns)
  from u' assms(1) have "self' = self" by simp
  with c have c: "create_with_grid self sc s = Inr out" by simp
  note kk = update_ks [OF assms(1)]
  from c obtain t1 t2 t3 where
    o1: "order_term self 1 get_k1_settings (\<lambda>st. K1 self st sc) = Inr t1"
    and o2: "order_term self 2 get_k2_settings (\<lambda>st. K2 self st sc) = Inr t2"
    and o3: "order_term self 3 get_k3_settings (\<lambda>st. K3 self st sc) = Inr t3"
    and fl: "flatten self \<longrightarrow>
       (\<exists>v. out = Flat v \<and>
            length v = sum_list (map (\<lambda>t. tensor_shape t ! 1) (t1 @ t2 @ t3)))"
    and de: "\<not> flatten self \<longrightarrow>
       (\<exists>ts. out = Tensors ts \<and> map tensor_shape ts = map tensor_shape (t1 @ t2 @ t3))"
    by (rule create_with_grid_cases)
  from o1 obtain st1 where
    s1: "1 \<in> set (ks self) \<longrightarrow> get_k1_settings self = Inr st1 \<and> 0 \<le> grid_n st1"
    and h1: "map tensor_shape t1 =
       (if 1 \<in> set (ks self)
        then [if flatten self then [1, n_elements self * nat (grid_n st1)]
              else [n_elements self, nat (grid_n st1)]]
        else [])"
    by (rule term_k1)
  from o2 obtain st2 where
    s2: "2 \<in> set (ks self) \<longrightarrow> get_k2_settings self = Inr st2 \<and> 0 \<le> grid_n st2"
    and h2: "map tensor_shape t2 =
       (if 2 \<in> set (ks self)
        then [if flatten self
              then [1, nat (int (n_elements self * (n_elements self + 1) div 2) * grid_n st2)]
              else [n_elements self, n_elements self, nat (grid_n st2)]]
        else [])"
    by (rule term_k2)
  from o3 obtain st3 where
    s3: "3 \<in> set (ks self) \<longrightarrow> get_k3_settings self = Inr st3 \<and> 0 \<le> grid_n st3"
    and h3: "map tensor_shape t3 =
       (if 3 \<in> set (ks self)
        then [if flatten self
              then [1, nat (int (n_elements self * (n_elements self * (n_elements self + 1) div 2))
                             * grid_n st3)]
              else [n_elements self, n_elements self, n_elements self, nat (grid_n st3)]]
        else [])"
    by (rule term_k3)
  let ?c1 = "(if 1 \<in> set (ks self) then int (n_elements self) * grid_n st1 else 0)"
  let ?c2 = "(if 2 \<in> set (ks self)
                   then int (n_elements self * (n_elements self + 1) div 2) * grid_n st2
                   else 0)"
  let ?c3 = "(if 3 \<in> set (ks self)
                   then int (n_elements self * (n_elements self * (n_elements self + 1) div 2))
                          * grid_n st3
                   else 0)"
  have g: "get_number_of_features self = Inr (?c1 + ?c2 + ?c3)"
    using kk(1) s1 s2 s3 by (intro number_of_features_formula) simp_all
  have w: "sum_list (map (\<lambda>t. tensor_shape t ! 1) t) = sum_list (map (\<lambda>sh. sh ! 1) (map tensor_shape t))"
    for t
    by (simp add: comp_def)
  have flat: "\<exists>v. out = Flat v \<and> get_number_of_features self = Inr (int (length v))"
    if f: "flatten self"
  proof -
    from fl f obtain v where v: "out = Flat v"
      "length v = sum_list (map (\<lambda>t. tensor_shape t ! 1) (t1 @ t2 @ t3))"
      by blast
    have "sum_list (map (\<lambda>t. tensor_shape t ! 1) (t1 @ t2 @ t3))
            = sum_list (map (\<lambda>sh. sh ! 1) (map tensor_shape t1))
              + sum_list (map (\<lambda>sh. sh ! 1) (map tensor_shape t2))
              + sum_list (map (\<lambda>sh. sh ! 1) (map tensor_shape t3))"
      by (simp add: comp_def)
    also have "int \<dots> = ?c1 + ?c2 + ?c3"
      using f s1 s2 s3 by (simp add: h1 h2 h3)
    finally have "int (length v) = ?c1 + ?c2 + ?c3"
      using v(2) by simp
    with g v(1) show ?thesis by simp
  qed
  have dense: "\<exists>ts. out = Tensors ts \<and>
                 map tensor_shape ts =
                   (if 1 \<in> set (ks self) then [[n_elements self, nat (grid_n st1)]] else []) @
                   (if 2 \<in> set (ks self)
                    then [[n_elements self, n_elements self, nat (grid_n st2)]] else []) @
                   (if 3 \<in> set (ks self)
                    then [[n_elements self, n_elements self, n_elements self, nat (grid_n st3)]]
                    else [])"
    if f: "\<not> flatten self"
  proof -
    from de f obtain ts where "out = Tensors ts"
      "map tensor_shape ts = map tensor_shape (t1 @ t2 @ t3)"
      by blast
    with f show ?thesis
      by (simp add: h1 h2 h3)
  qed
  from s1 s2 s3 g flat dense kk(2) show ?thesis
    by (intro exI [of _ st1] exI [of _ st2] exI [of _ st3]) simp
qed

section \<open>The descriptor on the example structures\<close>

lemma update_pair: "update pair_mbtr = Inr pair_mbtr"
  by (simp add: update_def pair_mbtr_def check_k_def kname_def check_grid_info_def py_int_def
      index_maps_def Let_def)

lemma settings_pair: "get_k2_settings pair_mbtr = Inr pair_settings"
  by (simp add: get_k2_settings_def grid_entry_def pair_mbtr_def settings_of_def getitem_def
      py_int_def pair_settings_def)

lemma ks_pair: "ks pair_mbtr = [2]"
  by (simp add: ks_def pair_mbtr_def)

lemma fields_pair:
  "n_elements pair_mbtr = 2" "flatten pair_mbtr" "\<not> normalize_by_volume pair_mbtr"
  "normalize_gaussians pair_mbtr"
  by (simp_all add: pair_mbtr_def)

lemma features_pair: "get_number_of_features pair_mbtr = Inr 30"
  by (simp add: get_number_of_features_def ks_pair settings_pair pair_settings_def Let_def
      fields_pair py_int_def)

lemma erf_zero: "erf 0 = 0"
  by (simp add: erf_def)

lemma erf_positive:
  assumes "0 < x" and "x \<le> 1"
  shows "0 < erf x"
proof -
  define a where "a n = x ^ (2 * n + 1) / (fact n * real (2 * n + 1))" for n
  have pos: "0 \<le> a n" for n
    using assms by (simp add: a_def)
  have mono: "a (Suc n) \<le> a n" for n
  proof -
    have "x ^ (2 * Suc n + 1) \<le> x ^ (2 * n + 1)"
      using assms by (intro power_decreasing) simp_all
    moreover have "fact n * real (2 * n + 1) \<le> fact (Suc n) * real (2 * Suc n + 1)"
      by (intro mult_mono) (simp_all add: fact_mono)
    moreover have "0 < fact n * real (2 * n + 1)" by simp
    moreover have "0 \<le> x ^ (2 * Suc n + 1)" using assms by simp
    ultimately show ?thesis
      unfolding a_def by (intro frac_le) simp_all
  qed
  have bound: "a n \<le> inverse (real (Suc n))" for n
  proof -
    have "x ^ (2 * n + 1) \<le> 1"
      using assms by (intro power_le_one) simp_all
    moreover have "real (Suc n) \<le> fact n * real (2 * n + 1)"
    proof -
      have "1 * real (Suc n) \<le> fact n * real (2 * n + 1)"
        by (intro mult_mono) simp_all
      then show ?thesis by simp
    qed
    ultimately have "x ^ (2 * n + 1) / (fact n * real (2 * n + 1)) \<le> 1 / real (Suc n)"
      by (intro frac_le) simp_all
    then show ?thesis by (simp add: a_def inverse_eq_divide)
  qed
  have zero: "a \<longlonglongrightarrow> 0"
  proof (rule tendsto_sandwich)
    show "eventually (\<lambda>n. 0 \<le> a n) sequentially" using pos by simp
    show "eventually (\<lambda>n. a n \<le> inverse (real (Suc n))) sequentially" using bound by simp
    show "(\<lambda>n. 0::real) \<longlonglongrightarrow> 0" by simp
    show "(\<lambda>n. inverse (real (Suc n))) \<longlonglongrightarrow> 0"
      by (rule LIMSEQ_inverse_real_of_nat)
  qed
  have "(\<Sum>i<2 * 1. (- 1) ^ i * a i) \<le> (\<Sum>i. (- 1) ^ i * a i)"
    by (rule summable_Leibniz'(2) [OF zero pos mono])
  moreover have "(\<Sum>i<2 * 1. (- 1) ^ i * a i) = x - x ^ 3 / 3"
    by (simp add: a_def numeral_2_eq_2 power3_eq_cube)
  moreover have "0 < x - x ^ 3 / 3"
  proof -
    have "x ^ 3 \<le> x ^ 1"
      using assms by (intro power_decreasing) simp_all
    with assms show ?thesis by simp
  qed
  ultimately have "0 < (\<Sum>i. (- 1) ^ i * a i)" by simp
  moreover have "erf x = 2 / sqrt pi * (\<Sum>i. (- 1) ^ i * a i)"
    by (simp add: erf_def a_def)
  ultimately show ?thesis by simp
qed


lemma gaussian_sum_pair:
  assumes "length centers = length weights"
  shows "gaussian_sum pair_mbtr centers weights pair_settings =
           Inr (broaden_spec True (zip centers weights) pair_settings)"
    and "length (broaden_spec True (zip centers weights) pair_settings) = 10"
proof -
  have "gaussian_sum pair_mbtr centers weights pair_settings =
           Inr (broaden_spec (normalize_gaussians pair_mbtr) (zip centers weights) pair_settings) \<and>
         int (length (broaden_spec (normalize_gaussians pair_mbtr) (zip centers weights) pair_settings)) =
           grid_n pair_settings"
    by (rule gaussian_sum_value) (simp_all add: pair_settings_def assms)
  then show "gaussian_sum pair_mbtr centers weights pair_settings =
           Inr (broaden_spec True (zip centers weights) pair_settings)"
    and "length (broaden_spec True (zip centers weights) pair_settings) = 10"
    by (simp_all add: fields_pair pair_settings_def)
qed

lemma K2_oo:
  "K2 pair_mbtr pair_settings oo_scalars =
     Inr (Sparse (broaden_spec True [(1 / 2, 1)] pair_settings @ replicate 20 0))"
proof -
  have g: "gaussian_sum pair_mbtr [1 / 2] [1] pair_settings =
             Inr (broaden_spec True [(1 / 2, 1)] pair_settings)"
    and l: "length (broaden_spec True [(1 / 2, 1)] pair_settings) = 10"
    using gaussian_sum_pair [of "[1 / 2]" "[1]"] by simp_all
  have n: "grid_n pair_settings = 10" by (simp add: pair_settings_def)
  show ?thesis
    by (simp add: K2_def Let_def n fields_pair oo_scalars_def sorted_keys_def enumerate_keys_def
        broadened_def comb_getitem_def g set_slice_def l py_int_def)
qed

lemma K2_hoo:
  "K2 pair_mbtr pair_settings hoo_scalars =
     Inr (Sparse (broaden_spec True [(1, 1), (1, 1)] pair_settings @
                  broaden_spec True [(1 / 2, 1)] pair_settings @ replicate 10 0))"
proof -
  have g: "gaussian_sum pair_mbtr [1 / 2] [1] pair_settings =
             Inr (broaden_spec True [(1 / 2, 1)] pair_settings)"
    and l: "length (broaden_spec True [(1 / 2, 1)] pair_settings) = 10"
    using gaussian_sum_pair [of "[1 / 2]" "[1]"] by simp_all
  have g': "gaussian_sum pair_mbtr [1, 1] [1, 1] pair_settings =
             Inr (broaden_spec True [(1, 1), (1, 1)] pair_settings)"
    and l': "length (broaden_spec True [(1, 1), (1, 1)] pair_settings) = 10"
    using gaussian_sum_pair [of "[1, 1]" "[1, 1]"] by simp_all
  have n: "grid_n pair_settings = 10" by (simp add: pair_settings_def)
  show ?thesis
    by (simp add: K2_def Let_def n fields_pair hoo_scalars_def sorted_keys_def enumerate_keys_def
        broadened_def comb_getitem_def g g' set_slice_def l l' py_int_def)
qed

lemma rank_oo: "rank_in [1, 1] (nondecreasing_pairs 2) = 2"
  by (simp add: nondecreasing_pairs_def numeral_2_eq_2)


lemma broadened_oo_nonzero: "0 < broaden_spec True [(1 / 2, 1)] pair_settings ! 1"
proof -
  have "broaden_spec True [(1 / 2, 1)] pair_settings ! 1 = erf (1 / sqrt 2) / 2"
    by (simp add: broaden_spec_def pair_settings_def Let_def cumulative_sum_def
        boundary_point_def erf_zero add_divide_distrib)
  moreover have "0 < erf (1 / sqrt 2)"
  proof (rule erf_positive)
    show "0 < 1 / sqrt 2" by simp
    have "1 \<le> sqrt 2" by simp
    then show "1 / sqrt 2 \<le> 1" by simp
  qed
  ultimately show ?thesis by simp
qed

lemma then_run_returns_left: "then_run (returns a) f = f a"
  by (cases "f a") (auto simp: then_run_def returns_def)

lemma then_run_of_sum_Inr: "then_run (of_sum (Inr a)) f = f a"
  by (cases "f a") (auto simp: then_run_def of_sum_def)

lemma then_run_emit:
  "then_run (emit ev) (\<lambda>_. of_sum (Inr a)) = Some ([ev], Inr a)"
  by (simp add: then_run_def emit_def of_sum_def)

lemma then_run_Some_Inr:
  "then_run (Some (evs, Inr a)) f =
     (case f a of None \<Rightarrow> None | Some (evs', x) \<Rightarrow> Some (evs @ evs', x))"
  by (simp add: then_run_def)

lemma collect_oo:
  "collect_indices (atomic_number_to_index pair_mbtr) (remdups (numbers oo_system)) {} = Inr {Suc 0}"
  by (simp add: pair_mbtr_def oo_system_def)

lemma k2_step_oo:
  "scalars_k2 oo_aggregator pair_mbtr oo_system (fresh_scalars oo_system {Suc 0})
     = Some ([Aggregation 2], Inr oo_scalars)"
proof -
  have w: "weight_parameters pair_mbtr ''k2'' = Inr (''unity'', Map.empty)"
    by (simp add: weight_parameters_def pair_mbtr_def)
  have p: "\<not> periodic pair_mbtr" by (simp add: pair_mbtr_def)
  have k: "k2_geoms_and_weights oo_aggregator pair_mbtr (fresh_scalars oo_system {Suc 0}) oo_system
             = Inr oo_scalars"
    by (simp add: k2_geoms_and_weights_def w fresh_scalars_def oo_aggregator_def oo_scalars_def
        oo_system_def)
  show ?thesis
    by (simp add: scalars_k2_def ks_pair system_for_def p then_run_returns_left k then_run_emit)
qed

lemma scalars_oo:
  "initialize_scalars oo_aggregator pair_mbtr oo_system =
     Some ([Aggregation 2], Inr (pair_mbtr, oo_scalars))"
  by (simp add: initialize_scalars_def update_pair then_run_of_sum_Inr collect_oo
      scalars_k1_def scalars_k3_def ks_pair then_run_returns_left k2_step_oo then_run_Some_Inr
      returns_def)

lemma describe_oo:
  "describe oo_aggregator pair_mbtr oo_system =
     Some ([Aggregation 2],
           Inr (Flat (broaden_spec True [(1 / 2, 1)] pair_settings @ replicate 20 0)))"
  by (simp add: describe_def scalars_oo then_run_Some_Inr of_sum_def create_with_grid_def
      order_term_def ks_pair settings_pair K2_oo fields_pair)


lemma K3_ooo:
  "K3 pair_mbtr pair_settings ooo_scalars =
     Inr (Sparse (broaden_spec True [(1 / 2, 1), (1 / 2, 1), (1 / 2, 1)] pair_settings
                  @ replicate 50 0))"
proof -
  have g: "gaussian_sum pair_mbtr [1 / 2, 1 / 2, 1 / 2] [1, 1, 1] pair_settings =
             Inr (broaden_spec True [(1 / 2, 1), (1 / 2, 1), (1 / 2, 1)] pair_settings)"
    and l: "length (broaden_spec True [(1 / 2, 1), (1 / 2, 1), (1 / 2, 1)] pair_settings) = 10"
    using gaussian_sum_pair [of "[1 / 2, 1 / 2, 1 / 2]" "[1, 1, 1]"] by simp_all
  have n: "grid_n pair_settings = 10" by (simp add: pair_settings_def)
  show ?thesis
    by (simp add: K3_def Let_def n fields_pair ooo_scalars_def sorted_keys_def enumerate_keys_def
        broadened_def comb_getitem_def g set_slice_def l py_int_def)
qed

lemma rank_ooo: "rank_in [1, 1, 1] (nondecreasing_triples 2) = 3"
  by (simp add: nondecreasing_triples_def numeral_2_eq_2)

lemma fields_pair_dense:
  "n_elements dense_pair_mbtr = 2" "\<not> flatten dense_pair_mbtr"
  "\<not> normalize_by_volume dense_pair_mbtr" "normalize_gaussians dense_pair_mbtr"
  by (simp_all add: dense_pair_mbtr_def pair_mbtr_def)

lemma update_pair_dense:
  "update dense_pair_mbtr = Inr dense_pair_mbtr"
  by (simp add: update_def dense_pair_mbtr_def pair_mbtr_def check_k_def kname_def
      check_grid_info_def py_int_def index_maps_def Let_def)

lemma settings_pair_dense:
  "get_k2_settings dense_pair_mbtr = Inr pair_settings"
  by (simp add: get_k2_settings_def grid_entry_def dense_pair_mbtr_def pair_mbtr_def
      settings_of_def getitem_def py_int_def pair_settings_def)

lemma ks_pair_dense: "ks dense_pair_mbtr = [2]"
  by (simp add: ks_def dense_pair_mbtr_def pair_mbtr_def)

lemma features_pair_dense: "get_number_of_features dense_pair_mbtr = Inr 30"
  by (simp add: get_number_of_features_def ks_pair_dense settings_pair_dense pair_settings_def
      Let_def fields_pair_dense py_int_def)

lemma K2_dense_empty:
  "K2 dense_pair_mbtr pair_settings
      ((fresh_scalars h_system {0})\<lparr>k2_geoms := Some [], k2_weights := Some []\<rparr>)
     = Inr (Dense [2, 2, 10] (replicate 40 0))"
  by (simp add: K2_def Let_def pair_settings_def fields_pair_dense sorted_keys_def
      enumerate_keys_def fresh_scalars_def)

lemma scalars_h_dense:
  "initialize_scalars no_combinations dense_pair_mbtr h_system =
     Some ([Aggregation 2],
           Inr (dense_pair_mbtr,
                (fresh_scalars h_system {0})\<lparr>k2_geoms := Some [], k2_weights := Some []\<rparr>))"
proof -
  have c: "collect_indices (atomic_number_to_index dense_pair_mbtr)
             (remdups (numbers h_system)) {} = Inr {0}"
    by (simp add: dense_pair_mbtr_def pair_mbtr_def h_system_def)
  have w: "weight_parameters dense_pair_mbtr ''k2'' = Inr (''unity'', Map.empty)"
    by (simp add: weight_parameters_def dense_pair_mbtr_def pair_mbtr_def)
  have p: "\<not> periodic dense_pair_mbtr" by (simp add: dense_pair_mbtr_def pair_mbtr_def)
  have k: "k2_geoms_and_weights no_combinations dense_pair_mbtr
             (fresh_scalars h_system {0}) h_system
             = Inr ((fresh_scalars h_system {0})\<lparr>k2_geoms := Some [], k2_weights := Some []\<rparr>)"
    by (simp add: k2_geoms_and_weights_def w fresh_scalars_def no_combinations_def)
  have s2: "scalars_k2 no_combinations dense_pair_mbtr h_system
              (fresh_scalars h_system {0})
            = Some ([Aggregation 2],
                Inr ((fresh_scalars h_system {0})\<lparr>k2_geoms := Some [], k2_weights := Some []\<rparr>))"
    by (simp add: scalars_k2_def ks_pair_dense system_for_def p then_run_returns_left k
        then_run_emit)
  show ?thesis
    by (simp add: initialize_scalars_def update_pair_dense then_run_of_sum_Inr c
      scalars_k1_def scalars_k3_def ks_pair_dense then_run_returns_left s2 then_run_Some_Inr
      returns_def)
qed

lemma describe_h_dense:
  "describe no_combinations dense_pair_mbtr h_system =
     Some ([Aggregation 2], Inr (Tensors [Dense [2, 2, 10] (replicate 40 0)]))"
  by (simp add: describe_def scalars_h_dense then_run_Some_Inr of_sum_def create_with_grid_def
      order_term_def ks_pair_dense settings_pair_dense K2_dense_empty fields_pair_dense)

text \<open>
  Claim C3 as stated fails for dense output: with two declared elements and order 2 on a
  grid of ten points, \<open>describe\<close> with \<open>flatten = False\<close> returns an array of shape
  \<open>(2, 2, 10)\<close>, 40 entries, while \<open>get_number_of_features()\<close> is 30.
\<close>

theorem feature_count_dense_counterexample:
  "update dense_pair_mbtr = Inr dense_pair_mbtr \<and>
   describe no_combinations dense_pair_mbtr h_system =
     Some ([Aggregation 2], Inr (Tensors [Dense [2, 2, 10] (replicate 40 0)])) \<and>
   prod_list [2, 2, 10 :: nat] = 40 \<and>
   output_size (Tensors [Dense [2, 2, 10] (replicate 40 0)]) = 40 \<and>
   get_number_of_features dense_pair_mbtr = Inr 30"
  by (simp add: update_pair_dense describe_h_dense features_pair_dense)

theorem feature_count_witness:
  "update pair_mbtr = Inr pair_mbtr \<and>
   describe oo_aggregator pair_mbtr oo_system =
     Some ([Aggregation 2],
           Inr (Flat (broaden_spec True [(1 / 2, 1)] pair_settings @ replicate 20 0))) \<and>
   get_number_of_features pair_mbtr =
     Inr (int (length (broaden_spec True [(1 / 2, 1)] pair_settings @ replicate 20 0)))"
  using feature_count [OF update_pair describe_oo] update_pair describe_oo
  by (auto simp: fields_pair)

text \<open>
  Claim C2, which the code does not meet. The claim: in the flattened output of order 2
  or 3 the block of a combination starts at \<open>m*n\<close>, \<open>m\<close> being the rank of the combination
  among all non-decreasing index tuples, whatever other combinations the structure has.
  The loops of \<open>K2\<close> and \<open>K3\<close> take \<open>m\<close> from the enumeration of the keys that are present.
  With hydrogen and oxygen declared, the pair (1, 1) has rank 2 and the triple (1, 1, 1)
  rank 3; the broadened values of (1, 1), which are not all zero, are written at columns
  0 to 9 when no other pair is present and at columns 10 to 19 when only the pair (0, 1)
  is, and those of (1, 1, 1) at columns 0 to 9.
\<close>

theorem block_follows_present_keys:
  "rank_in [1, 1] (nondecreasing_pairs 2) = 2 \<and>
   K2 pair_mbtr pair_settings oo_scalars =
     Inr (Sparse (broaden_spec True [(1 / 2, 1)] pair_settings @ replicate 20 0)) \<and>
   K2 pair_mbtr pair_settings hoo_scalars =
     Inr (Sparse (broaden_spec True [(1, 1), (1, 1)] pair_settings @
                  broaden_spec True [(1 / 2, 1)] pair_settings @ replicate 10 0)) \<and>
   length (broaden_spec True [(1 / 2, 1)] pair_settings) = 10 \<and>
   0 < broaden_spec True [(1 / 2, 1)] pair_settings ! 1 \<and>
   rank_in [1, 1, 1] (nondecreasing_triples 2) = 3 \<and>
   K3 pair_mbtr pair_settings ooo_scalars =
     Inr (Sparse (broaden_spec True [(1 / 2, 1), (1 / 2, 1), (1 / 2, 1)] pair_settings
                  @ replicate 50 0)) \<and>
   length (broaden_spec True [(1 / 2, 1), (1 / 2, 1), (1 / 2, 1)] pair_settings) = 10"
proof -
  have l1: "length (broaden_spec True [(1 / 2, 1)] pair_settings) = 10"
    using gaussian_sum_pair(2) [of "[1 / 2]" "[1]"] by simp
  have l3: "length (broaden_spec True [(1 / 2, 1), (1 / 2, 1), (1 / 2, 1)] pair_settings) = 10"
    using gaussian_sum_pair(2) [of "[1 / 2, 1 / 2, 1 / 2]" "[1, 1, 1]"] by simp
  show ?thesis
    by (intro conjI rank_oo K2_oo K2_hoo l1 broadened_oo_nonzero rank_ooo K3_ooo l3)
qed

section \<open>Properties of the sorted matrices\<close>

lemma mset_argsort: "mset (argsort v) = mset [0 ..< length v]"
proof -
  have "mset (argsort v) = mset (map snd (zip v [0 ..< length v]))"
    unfolding argsort_def by (simp only: mset_map mset_sort)
  also have "map snd (zip v [0 ..< length v]) = [0 ..< length v]"
    by (rule map_snd_zip) simp
  finally show ?thesis .
qed

lemma length_argsort: "length (argsort v) = length v"
  by (simp add: argsort_def)

lemma set_argsort: "set (argsort v) = {0 ..< length v}"
  using mset_argsort [of v] by (metis set_mset_mset set_upt)

lemma values_argsort: "map (\<lambda>i. v ! i) (argsort v) = map fst (sort_key fst (zip v [0 ..< length v]))"
proof -
  have "\<forall>p \<in> set (sort_key fst (zip v [0 ..< length v])). v ! snd p = fst p"
    by (auto simp: set_zip)
  then show ?thesis
    by (simp add: argsort_def)
qed

lemma sorted_argsort: "sorted (map (\<lambda>i. v ! i) (argsort v))"
  by (simp only: values_argsort sorted_sort_key)

lemma descending_argsort:
  "sorted_wrt (\<lambda>x y. y \<le> x) (map (\<lambda>i. v ! i) (rev (argsort v)))"
proof -
  have "sorted_wrt (\<lambda>x y. y \<le> x) (rev (map (\<lambda>i. v ! i) (argsort v)))"
    using sorted_argsort [of v] by (simp only: sorted_wrt_rev)
  then show ?thesis by (simp only: rev_map)
qed

lemma sum_list_permuted:
  assumes "mset xs = mset ys"
  shows "sum_list (map f xs) = (sum_list (map f ys) :: real)"
proof -
  have "sum_list (map f xs) = sum_mset (image_mset f (mset xs))"
    by (simp add: sum_mset_sum_list [symmetric])
  also have "\<dots> = sum_mset (image_mset f (mset ys))"
    by (simp add: assms)
  also have "\<dots> = sum_list (map f ys)"
    by (simp add: sum_mset_sum_list [symmetric])
  finally show ?thesis .
qed

lemma row_norm_permuted:
  assumes "mset idx = mset [0 ..< length row]"
  shows "row_norm (map (\<lambda>j. row ! j) idx) = row_norm row"
proof -
  have "sum_list (map (\<lambda>x. x\<^sup>2) (map (\<lambda>j. row ! j) idx))
          = sum_list (map (\<lambda>j. (row ! j)\<^sup>2) idx)"
    by (simp add: comp_def)
  also have "\<dots> = sum_list (map (\<lambda>j. (row ! j)\<^sup>2) [0 ..< length row])"
    by (rule sum_list_permuted [OF assms])
  also have "\<dots> = sum_list (map (\<lambda>x. x\<^sup>2) (map (\<lambda>j. row ! j) [0 ..< length row]))"
    by (simp add: comp_def)
  also have "map (\<lambda>j. row ! j) [0 ..< length row] = row"
    by (rule map_nth)
  finally show ?thesis by (simp add: row_norm_def)
qed

lemma row_norm_padded: "row_norm (row @ replicate k 0) = row_norm row"
  by (simp add: row_norm_def sum_list_replicate)

lemma row_norm_zeros: "row_norm (replicate k 0) = 0"
  by (simp add: row_norm_def sum_list_replicate)

lemma row_norm_nonneg: "0 \<le> row_norm row"
  by (auto intro!: sum_list_nonneg simp: row_norm_def)


lemma is_square_nth: "is_square n m \<Longrightarrow> i < n \<Longrightarrow> length (m ! i) = n"
  by (simp add: is_square_def list_all_length)

lemma sort_and_pad_properties:
  assumes sq: "is_square n m" and le: "n \<le> n_max"
  shows "\<exists>M. sort_and_pad n_max m = Inr M \<and> is_square n_max M \<and> descending_norms M \<and>
             (symmetric m \<longrightarrow> symmetric M)"
proof -
  define norms where "norms = map row_norm m"
  define idx where "idx = rev (argsort norms)"
  define m2 where "m2 = map (\<lambda>row. map (\<lambda>j. row ! j) idx) (map (\<lambda>i. m ! i) idx)"
  define M where "M = map (\<lambda>row. row @ replicate (n_max - length row) 0) m2
                   @ replicate (n_max - length m2) (replicate n_max 0)"
  from sq have lm: "length m = n" by (simp add: is_square_def)
  have ln: "length norms = n" by (simp add: norms_def lm)
  have li: "length idx = n" by (simp add: idx_def length_argsort ln)
  have mi: "mset idx = mset [0 ..< n]"
    using mset_argsort [of norms] by (simp add: idx_def ln)
  have si: "idx ! i < n" if "i < n" for i
  proof -
    from that li have "idx ! i \<in> set idx" by simp
    also have "set idx = {0 ..< n}" by (simp add: idx_def set_argsort ln)
    finally show ?thesis by simp
  qed
  have l2: "length m2 = n" by (simp add: m2_def li)
  have r2: "m2 ! i = map (\<lambda>j. m ! (idx ! i) ! j) idx" if "i < n" for i
    using that by (simp add: m2_def li)
  have code: "sort_and_pad n_max m = Inr M"
  proof -
    have "sort_and_pad n_max m =
            (if length m2 > n_max then Inl ValueError_shape_mismatch else Inr M)"
      apply (simp only: sort_and_pad_def Let_def)
      apply (fold norms_def)
      apply (fold idx_def)
      apply (fold m2_def)
      apply (fold M_def)
      apply (rule refl)
      done
    with l2 le show ?thesis by simp
  qed
  have lM: "length M = n_max" using le by (simp add: M_def l2)
  have rM: "M ! i = (if i < n then m2 ! i @ replicate (n_max - n) 0 else replicate n_max 0)"
    if "i < n_max" for i
  proof (cases "i < n")
    case True
    then have "M ! i = m2 ! i @ replicate (n_max - length (m2 ! i)) 0"
      by (simp add: M_def nth_append l2)
    with True show ?thesis by (simp add: r2 li)
  next
    case False
    with that show ?thesis by (simp add: M_def nth_append l2)
  qed
  have rows: "length (M ! i) = n_max" if "i < n_max" for i
    using that le by (simp add: rM r2 li)
  have square: "is_square n_max M"
    using rows by (simp add: is_square_def lM list_all_length)
  have nm: "row_norm (M ! i) = (if i < n then norms ! (idx ! i) else 0)" if "i < n_max" for i
  proof (cases "i < n")
    case True
    have "length (m ! (idx ! i)) = n"
      by (rule is_square_nth [OF sq si [OF True]])
    with mi have "row_norm (map (\<lambda>j. m ! (idx ! i) ! j) idx) = row_norm (m ! (idx ! i))"
      by (intro row_norm_permuted) simp
    with True si [OF True] that show ?thesis
      by (simp add: rM r2 row_norm_padded norms_def lm)
  next
    case False
    with that show ?thesis by (simp add: rM row_norm_zeros)
  qed
  have desc: "sorted_wrt (\<lambda>x y. y \<le> x) (map (\<lambda>i. norms ! i) idx)"
    unfolding idx_def by (rule descending_argsort)
  have descending: "descending_norms M"
    unfolding descending_norms_def
  proof (intro allI impI)
    fix i
    assume "i + 1 < length M"
    then have i: "i + 1 < n_max" "i < n_max" by (simp_all add: lM)
    show "row_norm (M ! (i + 1)) \<le> row_norm (M ! i)"
    proof (cases "i + 1 < n")
      case True
      then have "i < i + 1" "i + 1 < length (map (\<lambda>i. norms ! i) idx)"
        by (simp_all add: li)
      from sorted_wrt_nth_less [OF desc this]
      have "norms ! (idx ! (i + 1)) \<le> norms ! (idx ! i)"
        using True by (simp add: li)
      with True i show ?thesis by (simp add: nm)
    next
      case False
      have "row_norm (M ! (i + 1)) = 0" using False i by (simp add: nm)
      then show ?thesis by (simp add: row_norm_nonneg)
    qed
  qed
  have sym: "symmetric M" if s: "symmetric m"
    unfolding symmetric_def
  proof (intro allI impI)
    fix i j
    assume "i < length M" "j < length M"
    then have ij: "i < n_max" "j < n_max" by (simp_all add: lM)
    have e: "M ! a ! b = (if a < n \<and> b < n then m ! (idx ! a) ! (idx ! b) else 0)"
      if "a < n_max" "b < n_max" for a b
      using that by (auto simp: rM r2 nth_append li)
    have "m ! (idx ! i) ! (idx ! j) = m ! (idx ! j) ! (idx ! i)" if "i < n" "j < n"
      using s si [OF that(1)] si [OF that(2)] by (simp add: symmetric_def lm)
    with ij show "M ! i ! j = M ! j ! i"
      by (auto simp: e)
  qed
  from code square descending sym show ?thesis by blast
qed

lemma is_square_charge_products: "is_square (length q) (charge_products q)"
  by (simp add: is_square_def charge_products_def list_all_length)

lemma charge_products_nth:
  "i < length q \<Longrightarrow> j < length q \<Longrightarrow> charge_products q ! i ! j = q ! j * q ! i"
  by (simp add: charge_products_def)

lemma is_square_multiply:
  assumes "is_square n a" and "is_square n b"
  shows "is_square n (multiply a b)"
  using assms by (auto simp: is_square_def multiply_def list_all_length)

lemma multiply_nth:
  assumes "is_square n a" and "is_square n b" and "i < n" and "j < n"
  shows "multiply a b ! i ! j = a ! i ! j * b ! i ! j"
  using assms by (auto simp: is_square_def multiply_def list_all_length)

lemma is_square_fill_diagonal:
  assumes "is_square n m"
  shows "is_square n (fill_diagonal m d)"
  using assms by (auto simp: is_square_def fill_diagonal_def list_all_length)

lemma fill_diagonal_nth:
  assumes "is_square n m" and "i < n" and "j < n"
  shows "fill_diagonal m d ! i ! j = (if i = j then d ! i else m ! i ! j)"
  using assms by (auto simp: is_square_def fill_diagonal_def list_all_length)

lemma interaction_matrix:
  assumes "is_square (length q) p"
  shows "is_square (length q) (fill_diagonal (multiply (charge_products q) p) d)"
    and "symmetric p \<Longrightarrow> symmetric (fill_diagonal (multiply (charge_products q) p) d)"
proof -
  let ?n = "length q"
  let ?m = "multiply (charge_products q) p"
  have sm: "is_square ?n ?m"
    by (rule is_square_multiply [OF is_square_charge_products assms])
  show sq: "is_square ?n (fill_diagonal ?m d)"
    by (rule is_square_fill_diagonal [OF sm])
  assume s: "symmetric p"
  from assms have lp: "length p = ?n" by (simp add: is_square_def)
  from sq have lf: "length (fill_diagonal ?m d) = ?n" by (simp add: is_square_def)
  show "symmetric (fill_diagonal ?m d)"
    unfolding symmetric_def
  proof (intro allI impI)
    fix i j
    assume "i < length (fill_diagonal ?m d)" "j < length (fill_diagonal ?m d)"
    then have ij: "i < ?n" "j < ?n" by (simp_all add: lf)
    from s ij have pij: "p ! i ! j = p ! j ! i" by (simp add: symmetric_def lp)
    have a: "?m ! i ! j = q ! j * q ! i * p ! i ! j"
      using ij by (simp add: multiply_nth [OF is_square_charge_products assms] charge_products_nth)
    have b: "?m ! j ! i = q ! i * q ! j * p ! j ! i"
      using ij by (simp add: multiply_nth [OF is_square_charge_products assms] charge_products_nth)
    from a b pij have "?m ! i ! j = ?m ! j ! i"
      by (simp only: mult.commute [of "q ! j" "q ! i"])
    moreover have "fill_diagonal ?m d ! i ! j = (if i = j then d ! i else ?m ! i ! j)"
      by (rule fill_diagonal_nth [OF sm ij])
    moreover have "fill_diagonal ?m d ! j ! i = (if j = i then d ! j else ?m ! j ! i)"
      by (rule fill_diagonal_nth [OF sm ij(2) ij(1)])
    ultimately show "fill_diagonal ?m d ! i ! j = fill_diagonal ?m d ! j ! i"
      by (cases "i = j") simp_all
  qed
qed

lemma length_concat_square: "is_square n M \<Longrightarrow> length (concat M) = n * n"
proof -
  assume s: "is_square n M"
  then have "map length M = replicate n n"
    by (auto simp: is_square_def list_all_length intro!: nth_equalityI)
  then show ?thesis by (simp add: length_concat sum_list_replicate)
qed

lemma phi_entry_even: "phi_entry B B_inv (scale3 (- 1) d) = phi_entry B B_inv d"
proof -
  obtain x y z where d: "d = (x, y, z)" by (cases d)
  obtain a b c where B: "B_inv = (a, b, c)" by (cases B_inv)
  obtain a1 a2 a3 where a: "a = (a1, a2, a3)" by (cases a)
  obtain b1 b2 b3 where b: "b = (b1, b2, b3)" by (cases b)
  obtain c1 c2 c3 where c: "c = (c1, c2, c3)" by (cases c)
  have "sin_squared (scale3 pi (vec_mat (scale3 (- 1) d) B_inv))
          = sin_squared (scale3 pi (vec_mat d B_inv))"
  proof -
    have "scale3 pi (vec_mat (scale3 (- 1) d) B_inv)
            = scale3 (- 1) (scale3 pi (vec_mat d B_inv))"
      by (simp add: d B a b c scale3_def vec_mat_def algebra_simps)
    moreover have "sin_squared (scale3 (- 1) v) = sin_squared v" for v
      by (cases v) (simp add: scale3_def sin_squared_def)
    ultimately show ?thesis by simp
  qed
  then show ?thesis by (simp add: phi_entry_def Let_def)
qed

lemma phi_matrix:
  assumes "is_square n D"
  shows "is_square n (map (\<lambda>row. map (phi_entry B B_inv) row) D)"
    and "antisymmetric D \<Longrightarrow> symmetric (map (\<lambda>row. map (phi_entry B B_inv) row) D)"
proof -
  from assms have l: "length D = n" and lr: "\<And>i. i < n \<Longrightarrow> length (D ! i) = n"
    by (simp_all add: is_square_def list_all_length)
  show "is_square n (map (\<lambda>row. map (phi_entry B B_inv) row) D)"
    by (simp add: is_square_def list_all_length l lr)
  assume a: "antisymmetric D"
  show "symmetric (map (\<lambda>row. map (phi_entry B B_inv) row) D)"
    unfolding symmetric_def
  proof (intro allI impI)
    fix i j
    assume "i < length (map (\<lambda>row. map (phi_entry B B_inv) row) D)"
      "j < length (map (\<lambda>row. map (phi_entry B B_inv) row) D)"
    then have ij: "i < n" "j < n" by (simp_all add: l)
    from a have "\<forall>i < n. \<forall>j < n. D ! j ! i = scale3 (- 1) (D ! i ! j)"
      unfolding antisymmetric_def l .
    with ij have e: "D ! j ! i = scale3 (- 1) (D ! i ! j)"
      by blast
    have "map (\<lambda>row. map (phi_entry B B_inv) row) D ! i ! j = phi_entry B B_inv (D ! i ! j)"
      using ij by (simp add: l lr)
    moreover have "map (\<lambda>row. map (phi_entry B B_inv) row) D ! j ! i
                     = phi_entry B B_inv (D ! j ! i)"
      using ij by (simp add: l lr)
    moreover have "phi_entry B B_inv (D ! j ! i) = phi_entry B B_inv (D ! i ! j)"
      by (simp only: e phi_entry_even)
    ultimately show "map (\<lambda>row. map (phi_entry B B_inv) row) D ! i ! j
                  = map (\<lambda>row. map (phi_entry B B_inv) row) D ! j ! i"
      by simp
  qed
qed

lemma coulomb_matrix_properties:
  assumes "length (charges s) \<le> n_atoms_max self"
    and "is_square (length (charges s)) (inverse_distance_matrix s)"
  shows "\<exists>M. coulomb_matrix self s = Inr M \<and> is_square (n_atoms_max self) M \<and>
             descending_norms M \<and>
             (symmetric (inverse_distance_matrix s) \<longrightarrow> symmetric M)"
proof -
  let ?c = "fill_diagonal (multiply (charge_products (charges s)) (inverse_distance_matrix s))
              (map (\<lambda>z. 0.5 * z powr 2.4) (charges s))"
  have c: "coulomb_matrix self s = sort_and_pad (n_atoms_max self) ?c"
    using assms(2) by (simp add: coulomb_matrix_def Let_def)
  from sort_and_pad_properties [OF interaction_matrix(1) [OF assms(2)] assms(1)]
  obtain M where "sort_and_pad (n_atoms_max self) ?c = Inr M" "is_square (n_atoms_max self) M"
    "descending_norms M" "symmetric ?c \<longrightarrow> symmetric M"
    by blast
  with c interaction_matrix(2) [OF assms(2)] show ?thesis by auto
qed

lemma sine_matrix_properties:
  assumes "length (charges s) \<le> n_atoms_max self"
    and "is_square (length (charges s)) (displacement_tensor s)"
  shows "\<exists>M. sine_matrix self s = Inr M \<and> is_square (n_atoms_max self) M \<and>
             descending_norms M \<and>
             (antisymmetric (displacement_tensor s) \<longrightarrow> symmetric M)"
proof -
  let ?phi = "map (\<lambda>row. map (phi_entry (lattice_matrix s) (lattice_inv_matrix s)) row)
                (displacement_tensor s)"
  let ?c = "fill_diagonal (multiply (charge_products (charges s)) ?phi)
              (map (\<lambda>z. 0.5 * z powr 2.4) (charges s))"
  have p: "is_square (length (charges s)) ?phi"
    by (rule phi_matrix(1) [OF assms(2)])
  have c: "sine_matrix self s = sort_and_pad (n_atoms_max self) ?c"
    using p by (simp add: sine_matrix_def Let_def)
  from sort_and_pad_properties [OF interaction_matrix(1) [OF p] assms(1)]
  obtain M where "sort_and_pad (n_atoms_max self) ?c = Inr M" "is_square (n_atoms_max self) M"
    "descending_norms M" "symmetric ?c \<longrightarrow> symmetric M"
    by blast
  with c interaction_matrix(2) [OF p] phi_matrix(2) [OF assms(2)] show ?thesis by auto
qed

lemma sort_and_pad_returns:
  assumes "sort_and_pad n_max m = Inr M"
  shows "length m \<le> n_max"
  using assms by (auto simp: sort_and_pad_def Let_def length_argsort split: if_splits)

lemma coulomb_matrix_returns:
  assumes "coulomb_matrix self s = Inr M"
  shows "length (charges s) \<le> n_atoms_max self"
    and "is_square (length (charges s)) (inverse_distance_matrix s)"
proof -
  from assms show sq: "is_square (length (charges s)) (inverse_distance_matrix s)"
    by (auto simp: coulomb_matrix_def Let_def split: if_splits)
  with assms have "sort_and_pad (n_atoms_max self)
      (fill_diagonal (multiply (charge_products (charges s)) (inverse_distance_matrix s))
              (map (\<lambda>z. 0.5 * z powr 2.4) (charges s))) = Inr M"
    by (simp add: coulomb_matrix_def Let_def)
  from sort_and_pad_returns [OF this] interaction_matrix(1) [OF sq]
  show "length (charges s) \<le> n_atoms_max self"
    by (simp add: is_square_def)
qed

lemma sine_matrix_returns:
  assumes "sine_matrix self s = Inr M"
  shows "length (charges s) \<le> n_atoms_max self"
    and "is_square (length (charges s)) (displacement_tensor s)"
proof -
  let ?phi = "map (\<lambda>row. map (phi_entry (lattice_matrix s) (lattice_inv_matrix s)) row)
                (displacement_tensor s)"
  from assms have p: "is_square (length (charges s)) ?phi"
    by (auto simp: sine_matrix_def Let_def split: if_splits)
  then show "is_square (length (charges s)) (displacement_tensor s)"
    by (simp add: is_square_def list_all_length)
  from assms p have "sort_and_pad (n_atoms_max self)
      (fill_diagonal (multiply (charge_products (charges s)) ?phi)
              (map (\<lambda>z. 0.5 * z powr 2.4) (charges s))) = Inr M"
    by (simp add: sine_matrix_def Let_def)
  from sort_and_pad_returns [OF this] interaction_matrix(1) [OF p]
  show "length (charges s) \<le> n_atoms_max self"
    by (simp add: is_square_def)
qed

lemma ho_pairwise_shape:
  "length (charges ho_pairwise) \<le> n_atoms_max three_atoms"
  "is_square (length (charges ho_pairwise)) (inverse_distance_matrix ho_pairwise)"
  "is_square (length (charges ho_pairwise)) (displacement_tensor ho_pairwise)"
  by (simp_all add: ho_pairwise_def three_atoms_def is_square_def)

lemma ho_pairwise_symmetric:
  "symmetric (inverse_distance_matrix ho_pairwise)"
  "antisymmetric (displacement_tensor ho_pairwise)"
  by (simp_all add: ho_pairwise_def symmetric_def antisymmetric_def scale3_def
      less_Suc_eq numeral_2_eq_2)

text \<open>
  Claim C9. For every system with at most \<open>n_atoms_max\<close> atoms, the sorted Coulomb matrix
  and the sorted sine matrix are returned as an \<open>n_atoms_max x n_atoms_max\<close> matrix, or as
  the vector of its \<open>n_atoms_max^2\<close> entries when the output is flattened, whose row norms
  descend (the norm of row \<open>i + 1\<close> is at most that of row \<open>i\<close>, the rows of zeros last), and
  \<open>get_number_of_features()\<close> is \<open>n_atoms_max^2\<close>. The matrices that the structure supplies
  have one row and one column for each atom.
\<close>

theorem sorted_matrix_output:
  assumes "length (charges s) \<le> n_atoms_max self"
  shows "(is_square (length (charges s)) (inverse_distance_matrix s) \<longrightarrow>
            (\<exists>M. SortedCoulombMatrix_describe self s =
                    Inr (if flatten_output self then Vector (concat M) else Matrix M) \<and>
                 is_square (n_atoms_max self) M \<and> descending_norms M \<and>
                 length (concat M) = (n_atoms_max self)\<^sup>2)) \<and>
         (is_square (length (charges s)) (displacement_tensor s) \<longrightarrow>
            (\<exists>M. SortedSineMatrix_describe self s =
                    Inr (if flatten_output self then Vector (concat M) else Matrix M) \<and>
                 is_square (n_atoms_max self) M \<and> descending_norms M \<and>
                 length (concat M) = (n_atoms_max self)\<^sup>2)) \<and>
         matrix_number_of_features self = int ((n_atoms_max self)\<^sup>2)"
proof (intro conjI impI)
  assume "is_square (length (charges s)) (inverse_distance_matrix s)"
  from coulomb_matrix_properties [OF assms this] obtain M where
    "coulomb_matrix self s = Inr M" "is_square (n_atoms_max self) M" "descending_norms M"
    by blast
  then show "\<exists>M. SortedCoulombMatrix_describe self s =
                    Inr (if flatten_output self then Vector (concat M) else Matrix M) \<and>
                 is_square (n_atoms_max self) M \<and> descending_norms M \<and>
                 length (concat M) = (n_atoms_max self)\<^sup>2"
    by (auto simp: SortedCoulombMatrix_describe_def matrix_result_def length_concat_square
        power2_eq_square)
next
  assume "is_square (length (charges s)) (displacement_tensor s)"
  from sine_matrix_properties [OF assms this] obtain M where
    "sine_matrix self s = Inr M" "is_square (n_atoms_max self) M" "descending_norms M"
    by blast
  then show "\<exists>M. SortedSineMatrix_describe self s =
                    Inr (if flatten_output self then Vector (concat M) else Matrix M) \<and>
                 is_square (n_atoms_max self) M \<and> descending_norms M \<and>
                 length (concat M) = (n_atoms_max self)\<^sup>2"
    by (auto simp: SortedSineMatrix_describe_def matrix_result_def length_concat_square
        power2_eq_square)
next
  show "matrix_number_of_features self = int ((n_atoms_max self)\<^sup>2)"
    by (simp add: matrix_number_of_features_def)
qed

theorem sorted_matrix_output_witness:
  "length (charges ho_pairwise) \<le> n_atoms_max three_atoms \<and>
   is_square (length (charges ho_pairwise)) (inverse_distance_matrix ho_pairwise) \<and>
   is_square (length (charges ho_pairwise)) (displacement_tensor ho_pairwise) \<and>
   (\<exists>M. SortedCoulombMatrix_describe three_atoms ho_pairwise = Inr (Matrix M) \<and>
        is_square 3 M \<and> descending_norms M \<and> length (concat M) = 9) \<and>
   (\<exists>M. SortedSineMatrix_describe three_atoms ho_pairwise = Inr (Matrix M) \<and>
        is_square 3 M \<and> descending_norms M \<and> length (concat M) = 9) \<and>
   matrix_number_of_features three_atoms = 9"
proof -
  have f: "n_atoms_max three_atoms = 3" "\<not> flatten_output three_atoms"
    by (simp_all add: three_atoms_def)
  from sorted_matrix_output [OF ho_pairwise_shape(1)] ho_pairwise_shape
  show ?thesis by (simp add: f)
qed

text \<open>
  Claim C10. When the inverse-distance matrix is symmetric, the matrix that
  \<open>SortedCoulombMatrix.describe\<close> returns is symmetric; when the displacement tensor is odd
  under the exchange of the two atom indices, the matrix that \<open>SortedSineMatrix.describe\<close>
  returns is symmetric.
\<close>

theorem sorted_matrix_symmetric:
  "(symmetric (inverse_distance_matrix s) \<longrightarrow>
      SortedCoulombMatrix_describe self s = Inr (Matrix M) \<longrightarrow> symmetric M) \<and>
   (antisymmetric (displacement_tensor s) \<longrightarrow>
      SortedSineMatrix_describe self s = Inr (Matrix M) \<longrightarrow> symmetric M)"
proof (intro conjI impI)
  assume s: "symmetric (inverse_distance_matrix s)"
    and d: "SortedCoulombMatrix_describe self s = Inr (Matrix M)"
  from d have c: "coulomb_matrix self s = Inr M"
    by (cases "coulomb_matrix self s")
       (auto simp: SortedCoulombMatrix_describe_def matrix_result_def split: if_splits)
  from coulomb_matrix_properties [OF coulomb_matrix_returns [OF c]] c s
  show "symmetric M" by auto
next
  assume s: "antisymmetric (displacement_tensor s)"
    and d: "SortedSineMatrix_describe self s = Inr (Matrix M)"
  from d have c: "sine_matrix self s = Inr M"
    by (cases "sine_matrix self s")
       (auto simp: SortedSineMatrix_describe_def matrix_result_def split: if_splits)
  from sine_matrix_properties [OF sine_matrix_returns [OF c]] c s
  show "symmetric M" by auto
qed

theorem sorted_matrix_symmetric_witness:
  "\<exists>M N. symmetric (inverse_distance_matrix ho_pairwise) \<and>
     SortedCoulombMatrix_describe three_atoms ho_pairwise = Inr (Matrix M) \<and> symmetric M \<and>
     antisymmetric (displacement_tensor ho_pairwise) \<and>
     SortedSineMatrix_describe three_atoms ho_pairwise = Inr (Matrix N) \<and> symmetric N"
proof -
  from coulomb_matrix_properties [OF ho_pairwise_shape(1,2)] obtain M where
    "coulomb_matrix three_atoms ho_pairwise = Inr M" by blast
  then have m: "SortedCoulombMatrix_describe three_atoms ho_pairwise = Inr (Matrix M)"
    by (simp add: SortedCoulombMatrix_describe_def matrix_result_def three_atoms_def)
  from sine_matrix_properties [OF ho_pairwise_shape(1,3)] obtain N where
    "sine_matrix three_atoms ho_pairwise = Inr N" by blast
  then have n: "SortedSineMatrix_describe three_atoms ho_pairwise = Inr (Matrix N)"
    by (simp add: SortedSineMatrix_describe_def matrix_result_def three_atoms_def)
  from sorted_matrix_symmetric [of ho_pairwise three_atoms M] m ho_pairwise_symmetric(1)
  have "symmetric M" by blast
  moreover from sorted_matrix_symmetric [of ho_pairwise three_atoms N] n ho_pairwise_symmetric(2)
  have "symmetric N" by blast
  ultimately show ?thesis using m n ho_pairwise_symmetric by blast
qed

end
